(* ===== verification/Prelude.thy ===== *)
theory Prelude
  imports Main "HOL-Library.AList"
begin

section \<open>Prelude: the parts of Go the program uses\<close>

text \<open>
  Shared vocabulary of the development.
  \<^item> Go maps are association lists with distinct keys (\<open>gomap\<close>); the list order stands
    for one of the orders in which \<^verbatim>\<open>range\<close> may visit the map, so a result that depends
    on it is visible as a function of the list.
  \<^item> \<open>int64\<close> arithmetic wraps around (\<open>wrap64\<close>).
  \<^item> A function that can panic returns an \<open>outcome\<close>.
  \<^item> A method that changes its receiver and calls out is a state transformer that also
    returns the calls it made, in order; \<open>seq\<close> runs several after one another.
  \<^item> A buffered channel is its list of queued values; \<open>try_send\<close> is
    \<^verbatim>\<open>select { case ch <- v: default: }\<close>.
\<close>

named_theorems frame \<open>which fields an operation leaves alone\<close>
named_theorems inv_intros \<open>operations that keep an invariant\<close>

subsection \<open>Maps\<close>

type_synonym ('k, 'v) gomap = "('k \<times> 'v) list"

abbreviation gget :: "('k, 'v) gomap \<Rightarrow> 'k \<Rightarrow> 'v option" where
  "gget m k \<equiv> map_of m k"

abbreviation gset :: "'k \<Rightarrow> 'v \<Rightarrow> ('k, 'v) gomap \<Rightarrow> ('k, 'v) gomap" where
  "gset k v m \<equiv> AList.update k v m"

abbreviation gdel :: "'k \<Rightarrow> ('k, 'v) gomap \<Rightarrow> ('k, 'v) gomap" where
  "gdel k m \<equiv> AList.delete k m"

abbreviation gkeys :: "('k, 'v) gomap \<Rightarrow> 'k list" where
  "gkeys m \<equiv> List.map fst m"

definition gmap_ok :: "('k, 'v) gomap \<Rightarrow> bool" where
  "gmap_ok m \<longleftrightarrow> distinct (gkeys m)"

lemma gmap_ok_Nil [simp, intro]: "gmap_ok []"
  by (simp add: gmap_ok_def)

lemma gmap_ok_gset [simp, intro]: "gmap_ok m \<Longrightarrow> gmap_ok (gset k v m)"
  by (simp add: gmap_ok_def distinct_update)

lemma gmap_ok_gdel [simp, intro]: "gmap_ok m \<Longrightarrow> gmap_ok (gdel k m)"
  by (simp add: gmap_ok_def distinct_delete)

lemma gget_gset [simp]: "gget (gset k v m) k' = (if k' = k then Some v else gget m k')"
  by (simp add: update_conv')

lemma gget_gdel [simp]: "gget (gdel k m) k' = (if k' = k then None else gget m k')"
  by (simp add: delete_conv')

lemma gget_in_set: "gmap_ok m \<Longrightarrow> gget m k = Some v \<longleftrightarrow> (k, v) \<in> set m"
  by (auto simp: gmap_ok_def dest: map_of_SomeD intro: map_of_is_SomeI)

lemma gget_None: "gget m k = None \<longleftrightarrow> k \<notin> set (gkeys m)"
  by (simp add: map_of_eq_None_iff)

lemma gmap_empty_iff: "m = [] \<longleftrightarrow> (\<forall>k. gget m k = None)"
  by (cases m) (auto intro: exI [where x = "fst (hd m)"])

lemma gset_not_Nil [simp]: "gset k v m \<noteq> []"
  by (cases m) auto

lemma gdel_idem: "gget m k = None \<Longrightarrow> gdel k m = m"
  by (simp add: gget_None delete_id)

subsection \<open>Signed 64-bit arithmetic\<close>

definition wrap64 :: "int \<Rightarrow> int" where
  "wrap64 x = (x + 2 ^ 63) mod 2 ^ 64 - 2 ^ 63"

definition in64 :: "int \<Rightarrow> bool" where
  "in64 x \<longleftrightarrow> - (2 ^ 63) \<le> x \<and> x < 2 ^ 63"

lemma in64_wrap64 [simp, intro]: "in64 (wrap64 x)"
  using pos_mod_bound [of "2 ^ 64" "x + 2 ^ 63"] pos_mod_sign [of "2 ^ 64" "x + 2 ^ 63"]
  by (simp add: in64_def wrap64_def)

lemma wrap64_id [simp]: "in64 x \<Longrightarrow> wrap64 x = x"
  by (simp add: in64_def wrap64_def)

lemma wrap64_idem [simp]: "wrap64 (wrap64 x) = wrap64 x"
  by simp

lemma wrap64_add_left [simp]: "wrap64 (wrap64 x + y) = wrap64 (x + y)"
  unfolding wrap64_def by (simp add: mod_simps algebra_simps)

lemma wrap64_add_right [simp]: "wrap64 (x + wrap64 y) = wrap64 (x + y)"
  using wrap64_add_left [of y x] by (simp add: add.commute)

lemma wrap64_diff_left [simp]: "wrap64 (wrap64 x - y) = wrap64 (x - y)"
  using wrap64_add_left [of x "- y"] by simp

lemma in64_bounds: "\<bar>x\<bar> < 2 ^ 63 \<Longrightarrow> in64 x"
  by (auto simp: in64_def)

subsection \<open>Panics\<close>

datatype 'a outcome = Ok 'a | Panic string

fun bind_outcome :: "'a outcome \<Rightarrow> ('a \<Rightarrow> 'b outcome) \<Rightarrow> 'b outcome" where
  "bind_outcome (Ok a) f = f a"
| "bind_outcome (Panic m) f = Panic m"

subsection \<open>Sequencing state transformers that record their calls\<close>

fun seq :: "('s \<Rightarrow> 's \<times> 'c list) list \<Rightarrow> 's \<Rightarrow> 's \<times> 'c list" where
  "seq [] s = (s, [])"
| "seq (f # fs) s = (let (s1, cs) = f s; (s2, ds) = seq fs s1 in (s2, cs @ ds))"

lemma seq_keeps:
  assumes "P s" and "\<And>f t. f \<in> set fs \<Longrightarrow> P t \<Longrightarrow> P (fst (f t))"
  shows "P (fst (seq fs s))"
  using assms
proof (induction fs arbitrary: s)
  case Nil
  then show ?case by simp
next
  case (Cons f fs)
  then have "P (fst (seq fs (fst (f s))))" by simp
  then show ?case by (simp add: case_prod_beta Let_def)
qed

lemma seq_field:
  assumes "\<And>f t. f \<in> set fs \<Longrightarrow> g (fst (f t)) = g t"
  shows "g (fst (seq fs s)) = g s"
  using seq_keeps [where P = "\<lambda>t. g t = g s" and s = s and fs = fs] assms by simp

lemma seq_append: "seq (fs @ gs) s =
    (let (s1, cs) = seq fs s; (s2, ds) = seq gs s1 in (s2, cs @ ds))"
  by (induction fs arbitrary: s) (simp_all add: case_prod_beta Let_def)

subsection \<open>Buffered channels\<close>

definition chan_cap :: nat where
  "chan_cap = 32"

definition try_send :: "'e \<Rightarrow> 'e list \<Rightarrow> 'e list" where
  "try_send v ch = (if length ch < chan_cap then ch @ [v] else ch)"

subsection \<open>Lists\<close>

text \<open>\<^verbatim>\<open>for i := range xs { if p(xs[i]) { xs = slices.Delete(xs, i, i+1); break } }\<close>\<close>

fun delete_first :: "('a \<Rightarrow> bool) \<Rightarrow> 'a list \<Rightarrow> 'a list" where
  "delete_first p [] = []"
| "delete_first p (x # xs) = (if p x then xs else x # delete_first p xs)"

text \<open>\<^verbatim>\<open>for i := range xs { if p(xs[i]) { xs[i] = y; found = true; break } }\<close>\<close>

fun replace_first :: "('a \<Rightarrow> bool) \<Rightarrow> 'a \<Rightarrow> 'a list \<Rightarrow> 'a list" where
  "replace_first p y [] = []"
| "replace_first p y (x # xs) = (if p x then y # xs else x # replace_first p y xs)"

lemma delete_first_id [simp]: "\<not> list_ex p xs \<Longrightarrow> delete_first p xs = xs"
  by (induction xs) auto

lemma set_delete_first_subset: "set (delete_first p xs) \<subseteq> set xs"
  by (induction xs) auto

lemma set_delete_first_others: "x \<in> set xs \<Longrightarrow> \<not> p x \<Longrightarrow> x \<in> set (delete_first p xs)"
  by (induction xs) auto

lemma length_delete_first:
  "length (delete_first p xs) = (if list_ex p xs then length xs - 1 else length xs)"
  by (induction xs) (auto simp: list_ex_iff dest: length_pos_if_in_set)

lemma delete_first_split:
  "list_ex p xs \<Longrightarrow> \<exists>ys y zs. xs = ys @ y # zs \<and> p y \<and> \<not> list_ex p ys \<and> delete_first p xs = ys @ zs"
proof (induction xs)
  case (Cons x xs)
  show ?case
  proof (cases "p x")
    case True
    then show ?thesis by (auto intro!: exI [where x = "[]"])
  next
    case False
    with Cons obtain ys y zs where
      "xs = ys @ y # zs" "p y" "\<not> list_ex p ys" "delete_first p xs = ys @ zs"
      by auto
    with False show ?thesis by (intro exI [where x = "x # ys"]) auto
  qed
qed simp

lemma map_delete_first_distinct:
  "distinct (map f xs) \<Longrightarrow>
   map f (delete_first (\<lambda>x. f x = a) xs) = filter (\<lambda>b. b \<noteq> a) (map f xs)"
proof (induction xs)
  case (Cons x xs)
  then show ?case by (auto simp: filter_id_conv intro!: filter_True [symmetric])
qed simp

lemma length_replace_first [simp]: "length (replace_first p y xs) = length xs"
  by (induction xs) auto

lemma map_replace_first:
  "map f (replace_first (\<lambda>x. f x = f y) y xs) = map f xs"
  by (induction xs) auto

lemma replace_first_mem: "list_ex p xs \<Longrightarrow> y \<in> set (replace_first p y xs)"
  by (induction xs) auto

lemma set_replace_first: "set (replace_first p y xs) \<subseteq> insert y (set xs)"
  by (induction xs) auto

lemma find_split:
  "find p xs = Some x \<Longrightarrow> \<exists>ys zs. xs = ys @ x # zs \<and> p x \<and> (\<forall>y \<in> set ys. \<not> p y)"
proof (induction xs)
  case (Cons a xs)
  show ?case
  proof (cases "p a")
    case True
    with Cons.prems show ?thesis by (auto intro: exI [where x = "[]"])
  next
    case False
    with Cons obtain ys zs where "xs = ys @ x # zs" "p x" "\<forall>y \<in> set ys. \<not> p y" by auto
    with False show ?thesis by (intro exI [where x = "a # ys"] exI [where x = zs]) auto
  qed
qed simp

lemma find_skip: "\<forall>y \<in> set ys. \<not> p y \<Longrightarrow> find p (ys @ zs) = find p zs"
  by (induction ys) auto

end
