(* ===== verification/Json.thy ===== *)
theory Json
  imports Prelude "HOL-Library.Char_ord"
begin

section \<open>Integers as text, and JSON values\<close>

text \<open>
  What the program uses of the standard library's \<^verbatim>\<open>strconv\<close> and \<^verbatim>\<open>encoding/json\<close>.
  A JSON value is a tree; a number keeps its literal, because Go parses it with
  \<^verbatim>\<open>strconv.ParseInt\<close> when the target field is an integer. Reading the text of a message
  into a tree (the scanner) is not modelled: a text that is no JSON value is \<open>None\<close> where a
  message comes in. Strings are byte strings.

  \<^verbatim>\<open>json.Unmarshal\<close> into a struct walks the object's members in order, finds the field
  whose name is equal up to letter case, and stores the member; a member of the wrong type is
  skipped and makes the call return an error at the end, \<^verbatim>\<open>null\<close> leaves a field as it is,
  unknown members are ignored. So decoding returns the value reached and whether there was an
  error.
\<close>

subsection \<open>strconv\<close>

fun digits :: "nat \<Rightarrow> string" where
  "digits n = (if n < 10 then [char_of (48 + n)] else digits (n div 10) @ [char_of (48 + n mod 10)])"

declare digits.simps [simp del]

definition FormatInt :: "int \<Rightarrow> string" where
  "FormatInt i = (if i < 0 then CHR ''-'' # digits (nat (- i)) else digits (nat i))"

definition is_digit :: "char \<Rightarrow> bool" where
  "is_digit c \<longleftrightarrow> 48 \<le> (of_char c :: nat) \<and> (of_char c :: nat) \<le> 57"

fun parse_digits :: "nat \<Rightarrow> string \<Rightarrow> nat option" where
  "parse_digits acc [] = Some acc"
| "parse_digits acc (c # cs) =
     (if is_digit c then parse_digits (10 * acc + (of_char c - 48)) cs else None)"

definition parse_nat :: "string \<Rightarrow> nat option" where
  "parse_nat s = (if s = [] then None else parse_digits 0 s)"

text \<open>\<^verbatim>\<open>strconv.ParseInt(s, 10, 64)\<close>; \<open>None\<close> is a syntax or a range error.\<close>

definition ParseInt :: "string \<Rightarrow> int option" where
  "ParseInt s =
     (case s of
        [] \<Rightarrow> None
      | c # cs \<Rightarrow>
          let neg = (c = CHR ''-'');
              body = (if c = CHR ''-'' \<or> c = CHR ''+'' then cs else s)
          in case parse_nat body of
               None \<Rightarrow> None
             | Some n \<Rightarrow>
                 let v = (if neg then - int n else int n)
                 in if in64 v then Some v else None)"

lemma digits_not_Nil [simp]: "digits n \<noteq> []"
  by (subst digits.simps) simp

lemma of_char_digit: "n < 10 \<Longrightarrow> of_char (char_of (48 + n) :: char) = (48 + n :: nat)"
  by (simp add: of_char_of)

lemma is_digit_char_of [simp]: "n < 10 \<Longrightarrow> is_digit (char_of (48 + n :: nat))"
  by (simp add: is_digit_def of_char_digit del: of_char_of)

lemma digits_are_digits: "c \<in> set (digits n) \<Longrightarrow> is_digit c"
proof (induction n arbitrary: c rule: digits.induct)
  case (1 n)
  show ?case
  proof (cases "n < 10")
    case True
    with "1.prems" show ?thesis by (simp add: digits.simps [of n])
  next
    case False
    with "1.prems" have "c \<in> set (digits (n div 10)) \<or> c = char_of (48 + n mod 10)"
      by (auto simp: digits.simps [of n])
    then show ?thesis
    proof
      assume "c \<in> set (digits (n div 10))"
      with False show ?thesis by (rule "1.IH")
    next
      assume "c = char_of (48 + n mod 10)"
      then show ?thesis by simp
    qed
  qed
qed

lemma parse_digits_append:
  "parse_digits acc (xs @ ys) =
     (case parse_digits acc xs of None \<Rightarrow> None | Some v \<Rightarrow> parse_digits v ys)"
  by (induction xs arbitrary: acc) auto

lemma parse_digits_digits: "parse_digits 0 (digits n) = Some n"
proof (induction n rule: digits.induct)
  case (1 n)
  show ?case
  proof (cases "n < 10")
    case True
    then show ?thesis by (simp add: digits.simps [of n] of_char_digit del: of_char_of)
  next
    case False
    with "1.IH" have IH: "parse_digits 0 (digits (n div 10)) = Some (n div 10)" by simp
    have "of_char (char_of (48 + n mod 10) :: char) = (48 + n mod 10 :: nat)"
      by (rule of_char_digit) simp
    with False IH show ?thesis
      by (simp add: digits.simps [of n] parse_digits_append del: of_char_of)
  qed
qed

lemma parse_nat_digits [simp]: "parse_nat (digits n) = Some n"
  by (simp add: parse_nat_def parse_digits_digits)

lemma hd_digits: "digits n = c # cs \<Longrightarrow> c \<noteq> CHR ''-'' \<and> c \<noteq> CHR ''+''"
  using digits_are_digits [of c n] by (auto simp: is_digit_def)

lemma ParseInt_FormatInt [simp]: "in64 i \<Longrightarrow> ParseInt (FormatInt i) = Some i"
proof (cases "i < 0")
  case True
  assume "in64 i"
  with True show ?thesis by (simp add: ParseInt_def FormatInt_def)
next
  case False
  assume "in64 i"
  obtain c cs where d: "digits (nat i) = c # cs" by (cases "digits (nat i)") auto
  with hd_digits have "c \<noteq> CHR ''-''" "c \<noteq> CHR ''+''" by auto
  moreover have "parse_nat (c # cs) = Some (nat i)" using parse_nat_digits [of "nat i"] d by simp
  ultimately show ?thesis using False \<open>in64 i\<close> d
    by (simp add: ParseInt_def FormatInt_def)
qed

subsection \<open>JSON values\<close>

datatype json =
    JNull
  | JBool bool
  | JNum string
  | JStr string
  | JArr "json list"
  | JObj "(string \<times> json) list"

text \<open>Members of a struct: a plain member, and one with \<^verbatim>\<open>omitempty\<close>.\<close>

definition jmember :: "string \<Rightarrow> json \<Rightarrow> (string \<times> json) list" where
  "jmember n v = [(n, v)]"

definition jomit :: "bool \<Rightarrow> string \<Rightarrow> json \<Rightarrow> (string \<times> json) list" where
  "jomit isZero n v = (if isZero then [] else [(n, v)])"

definition jint :: "int \<Rightarrow> json" where
  "jint i = JNum (FormatInt i)"

subsection \<open>Decoding into a struct\<close>

definition fold_char :: "char \<Rightarrow> char" where
  "fold_char c = (let n = (of_char c :: nat) in if 65 \<le> n \<and> n \<le> 90 then char_of (n + 32) else c)"

definition fold_eq :: "string \<Rightarrow> string \<Rightarrow> bool" where
  "fold_eq a b \<longleftrightarrow> List.map fold_char a = List.map fold_char b"

type_synonym 'r setter = "json \<Rightarrow> 'r \<Rightarrow> 'r \<times> bool"

text \<open>One setter per field type; the boolean is the error flag.\<close>

definition into_string :: "(string \<Rightarrow> 'r \<Rightarrow> 'r) \<Rightarrow> 'r setter" where
  "into_string upd j r =
     (case j of JNull \<Rightarrow> (r, False) | JStr s \<Rightarrow> (upd s r, False) | _ \<Rightarrow> (r, True))"

definition into_bool :: "(bool \<Rightarrow> 'r \<Rightarrow> 'r) \<Rightarrow> 'r setter" where
  "into_bool upd j r =
     (case j of JNull \<Rightarrow> (r, False) | JBool b \<Rightarrow> (upd b r, False) | _ \<Rightarrow> (r, True))"

definition into_int :: "(int \<Rightarrow> 'r \<Rightarrow> 'r) \<Rightarrow> 'r setter" where
  "into_int upd j r =
     (case j of
        JNull \<Rightarrow> (r, False)
      | JNum l \<Rightarrow> (case ParseInt l of None \<Rightarrow> (r, True) | Some i \<Rightarrow> (upd i r, False))
      | _ \<Rightarrow> (r, True))"

text \<open>A \<^verbatim>\<open>json.RawMessage\<close> field takes any value, \<^verbatim>\<open>null\<close> included.\<close>

definition into_raw :: "(json \<Rightarrow> 'r \<Rightarrow> 'r) \<Rightarrow> 'r setter" where
  "into_raw upd j r = (upd j r, False)"

lemmas into_defs = into_string_def into_bool_def into_int_def into_raw_def

fun find_field :: "(string \<times> 'r setter) list \<Rightarrow> string \<Rightarrow> 'r setter option" where
  "find_field [] k = None"
| "find_field ((n, f) # fs) k = (if fold_eq n k then Some f else find_field fs k)"

fun decode_members ::
  "(string \<times> 'r setter) list \<Rightarrow> (string \<times> json) list \<Rightarrow> 'r \<times> bool \<Rightarrow> 'r \<times> bool" where
  "decode_members fs [] acc = acc"
| "decode_members fs ((k, v) # kvs) (r, e) =
     (case find_field fs k of
        None \<Rightarrow> decode_members fs kvs (r, e)
      | Some f \<Rightarrow> (let (r', e') = f v r in decode_members fs kvs (r', e \<or> e')))"

text \<open>
  \<^verbatim>\<open>json.Unmarshal(raw, &d)\<close> with \<open>d\<close> at its zero value; no bytes at all is an error.
\<close>

definition Unmarshal :: "(string \<times> 'r setter) list \<Rightarrow> 'r \<Rightarrow> json option \<Rightarrow> 'r \<times> bool" where
  "Unmarshal fs zero raw =
     (case raw of
        None \<Rightarrow> (zero, True)
      | Some JNull \<Rightarrow> (zero, False)
      | Some (JObj kvs) \<Rightarrow> decode_members fs kvs (zero, False)
      | Some _ \<Rightarrow> (zero, True))"

lemma decode_members_append:
  "decode_members fs (xs @ ys) acc = decode_members fs ys (decode_members fs xs acc)"
proof (induction xs arbitrary: acc)
  case (Cons x xs)
  then show ?case
    by (cases x; cases acc) (auto split: option.splits prod.splits)
qed simp

lemma decode_jmember [simp]:
  "decode_members fs (jmember n v) (r, e) =
     (case find_field fs n of None \<Rightarrow> (r, e) | Some f \<Rightarrow> (let (r', e') = f v r in (r', e \<or> e')))"
  by (simp add: jmember_def split: option.splits prod.splits)

lemma decode_jomit [simp]:
  "decode_members fs (jomit b n v) (r, e) =
     (if b then (r, e)
      else case find_field fs n of None \<Rightarrow> (r, e) | Some f \<Rightarrow> (let (r', e') = f v r in (r', e \<or> e')))"
  by (simp add: jomit_def split: option.splits prod.splits)

lemma fold_eq_refl [simp]: "fold_eq a a"
  by (simp add: fold_eq_def)

lemma into_int_jint [simp]: "in64 i \<Longrightarrow> into_int upd (jint i) r = (upd i r, False)"
  by (simp add: into_int_def jint_def)

lemma into_string_JStr [simp]: "into_string upd (JStr s) r = (upd s r, False)"
  by (simp add: into_string_def)

lemma into_bool_JBool [simp]: "into_bool upd (JBool b) r = (upd b r, False)"
  by (simp add: into_bool_def)

lemma into_raw_any [simp]: "into_raw upd j r = (upd j r, False)"
  by (simp add: into_raw_def)

end
