(* ===== verification/Protocol.thy ===== *)
theory Protocol
  imports Json
begin

section \<open>The wire protocol (internal/protocol/protocol.go)\<close>

text \<open>
  The message types, the structs the messages carry, the JSON member names of each struct and
  the settings' defaults and policies. A struct is a record whose fields carry the struct's
  name as a prefix; \<open>json_of_*\<close> is what \<^verbatim>\<open>json.Marshal\<close> makes of it (with \<^verbatim>\<open>omitempty\<close>
  where the tag says so) and \<open>*_fields\<close> is the table \<^verbatim>\<open>json.Unmarshal\<close> decodes it with.
  The lemmas show that every struct a client sends is read back as it was written.
\<close>

subsection \<open>Envelopes\<close>

text \<open>\<open>env_Data\<close> is \<open>None\<close> for an empty \<^verbatim>\<open>json.RawMessage\<close>.\<close>

record Envelope =
  env_Type :: string
  env_Data :: "json option"

text \<open>
  \<^verbatim>\<open>json.Marshal\<close> returns an error for channels, functions, cyclic values and NaN only; the
  program encodes none of these, so neither \<^verbatim>\<open>Encode\<close>'s error nor \<^verbatim>\<open>MustEncode\<close>'s panic
  has a value here, and both are the envelope.
\<close>

definition Encode :: "string \<Rightarrow> json \<Rightarrow> Envelope" where
  "Encode typ data = \<lparr>env_Type = typ, env_Data = Some data\<rparr>"

definition MustEncode :: "string \<Rightarrow> json \<Rightarrow> Envelope" where
  "MustEncode typ data = Encode typ data"

lemma env_MustEncode [simp]:
  "env_Type (MustEncode t d) = t" "env_Data (MustEncode t d) = Some d"
  by (simp_all add: MustEncode_def Encode_def)

lemma MustEncode_inj [simp]: "MustEncode t d = MustEncode t' d' \<longleftrightarrow> t = t' \<and> d = d'"
  by (auto simp: MustEncode_def Encode_def)

definition Envelope_fields :: "(string \<times> Envelope setter) list" where
  "Envelope_fields =
     [(''type'', into_string (\<lambda>s e. e\<lparr>env_Type := s\<rparr>)),
      (''data'', into_raw (\<lambda>j e. e\<lparr>env_Data := Some j\<rparr>))]"

definition Envelope_zero :: Envelope where
  "Envelope_zero = \<lparr>env_Type = [], env_Data = None\<rparr>"

definition json_of_Envelope :: "Envelope \<Rightarrow> json" where
  "json_of_Envelope e =
     JObj (jmember ''type'' (JStr (env_Type e))
       @ (case env_Data e of None \<Rightarrow> [] | Some d \<Rightarrow> jmember ''data'' d))"

subsection \<open>Message types\<close>

definition TypeCreate :: string where "TypeCreate = ''create''"
definition TypeJoin :: string where "TypeJoin = ''join''"
definition TypeEnqueue :: string where "TypeEnqueue = ''enqueue''"
definition TypeSkip :: string where "TypeSkip = ''skip''"
definition TypeRemove :: string where "TypeRemove = ''remove''"
definition TypeControl :: string where "TypeControl = ''control''"
definition TypeSetSettings :: string where "TypeSetSettings = ''set_settings''"
definition TypeReady :: string where "TypeReady = ''ready''"
definition TypeProgress :: string where "TypeProgress = ''progress''"
definition TypeBye :: string where "TypeBye = ''bye''"
definition TypePing :: string where "TypePing = ''ping''"
definition TypeRTC :: string where "TypeRTC = ''rtc''"

definition TypeRoomState :: string where "TypeRoomState = ''room_state''"
definition TypeNowPlaying :: string where "TypeNowPlaying = ''now_playing''"
definition TypePrepare :: string where "TypePrepare = ''prepare''"
definition TypePong :: string where "TypePong = ''pong''"
definition TypeError :: string where "TypeError = ''error''"

lemmas server_type_defs = TypeRoomState_def TypeNowPlaying_def TypePrepare_def TypePong_def
  TypeError_def TypeRTC_def

lemma server_types_distinct [simp]:
  "TypeRoomState \<noteq> TypeNowPlaying" "TypeNowPlaying \<noteq> TypeRoomState"
  "TypeRoomState \<noteq> TypePrepare" "TypePrepare \<noteq> TypeRoomState"
  "TypeNowPlaying \<noteq> TypePrepare" "TypePrepare \<noteq> TypeNowPlaying"
  by (simp_all add: server_type_defs)

subsection \<open>Modes, statuses, policies, limits\<close>

type_synonym RoomMode = string
type_synonym Policy = string
type_synonym SyncMode = string

definition ModeSignal :: RoomMode where "ModeSignal = ''signal''"
definition ModeStream :: RoomMode where "ModeStream = ''stream''"

lemma modes_distinct [simp]: "ModeSignal \<noteq> ModeStream" "ModeStream \<noteq> ModeSignal"
  by (simp_all add: ModeSignal_def ModeStream_def)

definition StatusResolving :: string where "StatusResolving = ''resolving''"
definition StatusReady :: string where "StatusReady = ''ready''"
definition StatusError :: string where "StatusError = ''error''"

definition PolicyEveryone :: Policy where "PolicyEveryone = ''everyone''"
definition PolicyHost :: Policy where "PolicyHost = ''host''"

lemma policies_distinct [simp]: "PolicyEveryone \<noteq> PolicyHost" "PolicyHost \<noteq> PolicyEveryone"
  by (simp_all add: PolicyEveryone_def PolicyHost_def)

definition SyncResponsive :: SyncMode where "SyncResponsive = ''responsive''"
definition SyncTight :: SyncMode where "SyncTight = ''tight''"

lemma syncs_distinct [simp]: "SyncResponsive \<noteq> SyncTight" "SyncTight \<noteq> SyncResponsive"
  by (simp_all add: SyncResponsive_def SyncTight_def)

definition ScopeEnqueue :: string where "ScopeEnqueue = ''enqueue''"
definition ScopeSkip :: string where "ScopeSkip = ''skip''"
definition ScopeRemove :: string where "ScopeRemove = ''remove''"
definition ScopeControl :: string where "ScopeControl = ''control''"

lemmas scope_defs = ScopeEnqueue_def ScopeSkip_def ScopeRemove_def ScopeControl_def

definition ControlPause :: string where "ControlPause = ''pause''"
definition ControlResume :: string where "ControlResume = ''resume''"
definition ControlSeek :: string where "ControlSeek = ''seek''"

definition MemLimitMinMB :: int where "MemLimitMinMB = 2"
definition MemLimitMaxMB :: int where "MemLimitMaxMB = 100"
definition MemLimitDefaultMB :: int where "MemLimitDefaultMB = 50"

definition StreamBitrateMinKbps :: int where "StreamBitrateMinKbps = 16"
definition StreamBitrateMaxKbps :: int where "StreamBitrateMaxKbps = 256"
definition StreamBitrateDefaultKbps :: int where "StreamBitrateDefaultKbps = 64"

lemmas limit_defs = MemLimitMinMB_def MemLimitMaxMB_def MemLimitDefaultMB_def
  StreamBitrateMinKbps_def StreamBitrateMaxKbps_def StreamBitrateDefaultKbps_def

subsection \<open>Room settings\<close>

record RoomSettings =
  set_Enqueue :: Policy
  set_Skip :: Policy
  set_Remove :: Policy
  set_Control :: Policy
  set_Sync :: SyncMode
  set_MemLimitMB :: int
  set_StreamBitrateKbps :: int

definition DefaultSettings :: RoomSettings where
  "DefaultSettings =
     \<lparr>set_Enqueue = PolicyEveryone, set_Skip = PolicyEveryone, set_Remove = PolicyEveryone,
      set_Control = PolicyEveryone, set_Sync = SyncResponsive,
      set_MemLimitMB = MemLimitDefaultMB, set_StreamBitrateKbps = StreamBitrateDefaultKbps\<rparr>"

definition PolicyFor :: "RoomSettings \<Rightarrow> string \<Rightarrow> Policy" where
  "PolicyFor s scope =
     (if scope = ScopeEnqueue then set_Enqueue s
      else if scope = ScopeSkip then set_Skip s
      else if scope = ScopeRemove then set_Remove s
      else if scope = ScopeControl then set_Control s
      else PolicyHost)"

definition RoomSettings_zero :: RoomSettings where
  "RoomSettings_zero =
     \<lparr>set_Enqueue = [], set_Skip = [], set_Remove = [], set_Control = [], set_Sync = [],
      set_MemLimitMB = 0, set_StreamBitrateKbps = 0\<rparr>"

definition RoomSettings_fields :: "(string \<times> RoomSettings setter) list" where
  "RoomSettings_fields =
     [(''enqueue'', into_string (\<lambda>v s. s\<lparr>set_Enqueue := v\<rparr>)),
      (''skip'', into_string (\<lambda>v s. s\<lparr>set_Skip := v\<rparr>)),
      (''remove'', into_string (\<lambda>v s. s\<lparr>set_Remove := v\<rparr>)),
      (''control'', into_string (\<lambda>v s. s\<lparr>set_Control := v\<rparr>)),
      (''sync'', into_string (\<lambda>v s. s\<lparr>set_Sync := v\<rparr>)),
      (''memLimitMb'', into_int (\<lambda>v s. s\<lparr>set_MemLimitMB := v\<rparr>)),
      (''streamBitrateKbps'', into_int (\<lambda>v s. s\<lparr>set_StreamBitrateKbps := v\<rparr>))]"

definition json_of_RoomSettings :: "RoomSettings \<Rightarrow> json" where
  "json_of_RoomSettings s =
     JObj (jmember ''enqueue'' (JStr (set_Enqueue s))
       @ jmember ''skip'' (JStr (set_Skip s))
       @ jmember ''remove'' (JStr (set_Remove s))
       @ jmember ''control'' (JStr (set_Control s))
       @ jmember ''sync'' (JStr (set_Sync s))
       @ jmember ''memLimitMb'' (jint (set_MemLimitMB s))
       @ jmember ''streamBitrateKbps'' (jint (set_StreamBitrateKbps s)))"

subsection \<open>Messages of the client\<close>

record CreateData =
  create_Mode :: RoomMode
  create_Nick :: string

record JoinData =
  join_RoomCode :: string
  join_Nick :: string
  join_ResumeToken :: string

record ProgressData =
  prog_TrackID :: string
  prog_HaveMs :: int
  prog_TotalMs :: int
  prog_Bps :: int
  prog_Ready :: bool
  prog_Confidence :: int

record EnqueueData =
  enq_SourceURL :: string

record RemoveData =
  rem_TrackID :: string

record ControlData =
  ctl_Action :: string
  ctl_SeekMs :: int

record PingData =
  ping_T0 :: int

definition RTCJoin :: string where "RTCJoin = ''join''"
definition RTCOffer :: string where "RTCOffer = ''offer''"
definition RTCAnswer :: string where "RTCAnswer = ''answer''"
definition RTCICE :: string where "RTCICE = ''ice''"

record RTCSignal =
  rtc_Kind :: string
  rtc_SDP :: string
  rtc_Candidate :: "json option"

record ReadyData =
  ready_TrackID :: string

definition CreateData_fields :: "(string \<times> CreateData setter) list" where
  "CreateData_fields =
     [(''mode'', into_string (\<lambda>v d. d\<lparr>create_Mode := v\<rparr>)),
      (''nick'', into_string (\<lambda>v d. d\<lparr>create_Nick := v\<rparr>))]"

definition JoinData_fields :: "(string \<times> JoinData setter) list" where
  "JoinData_fields =
     [(''roomCode'', into_string (\<lambda>v d. d\<lparr>join_RoomCode := v\<rparr>)),
      (''nick'', into_string (\<lambda>v d. d\<lparr>join_Nick := v\<rparr>)),
      (''resumeToken'', into_string (\<lambda>v d. d\<lparr>join_ResumeToken := v\<rparr>))]"

definition ProgressData_fields :: "(string \<times> ProgressData setter) list" where
  "ProgressData_fields =
     [(''trackId'', into_string (\<lambda>v d. d\<lparr>prog_TrackID := v\<rparr>)),
      (''haveMs'', into_int (\<lambda>v d. d\<lparr>prog_HaveMs := v\<rparr>)),
      (''totalMs'', into_int (\<lambda>v d. d\<lparr>prog_TotalMs := v\<rparr>)),
      (''bps'', into_int (\<lambda>v d. d\<lparr>prog_Bps := v\<rparr>)),
      (''ready'', into_bool (\<lambda>v d. d\<lparr>prog_Ready := v\<rparr>)),
      (''confidence'', into_int (\<lambda>v d. d\<lparr>prog_Confidence := v\<rparr>))]"

definition EnqueueData_fields :: "(string \<times> EnqueueData setter) list" where
  "EnqueueData_fields = [(''sourceUrl'', into_string (\<lambda>v d. d\<lparr>enq_SourceURL := v\<rparr>))]"

definition RemoveData_fields :: "(string \<times> RemoveData setter) list" where
  "RemoveData_fields = [(''trackId'', into_string (\<lambda>v d. d\<lparr>rem_TrackID := v\<rparr>))]"

definition ControlData_fields :: "(string \<times> ControlData setter) list" where
  "ControlData_fields =
     [(''action'', into_string (\<lambda>v d. d\<lparr>ctl_Action := v\<rparr>)),
      (''seekMs'', into_int (\<lambda>v d. d\<lparr>ctl_SeekMs := v\<rparr>))]"

definition PingData_fields :: "(string \<times> PingData setter) list" where
  "PingData_fields = [(''t0'', into_int (\<lambda>v d. d\<lparr>ping_T0 := v\<rparr>))]"

definition RTCSignal_fields :: "(string \<times> RTCSignal setter) list" where
  "RTCSignal_fields =
     [(''kind'', into_string (\<lambda>v d. d\<lparr>rtc_Kind := v\<rparr>)),
      (''sdp'', into_string (\<lambda>v d. d\<lparr>rtc_SDP := v\<rparr>)),
      (''candidate'', into_raw (\<lambda>v d. d\<lparr>rtc_Candidate := Some v\<rparr>))]"

definition ReadyData_fields :: "(string \<times> ReadyData setter) list" where
  "ReadyData_fields = [(''trackId'', into_string (\<lambda>v d. d\<lparr>ready_TrackID := v\<rparr>))]"

definition CreateData_zero :: CreateData where
  "CreateData_zero = \<lparr>create_Mode = [], create_Nick = []\<rparr>"
definition JoinData_zero :: JoinData where
  "JoinData_zero = \<lparr>join_RoomCode = [], join_Nick = [], join_ResumeToken = []\<rparr>"
definition ProgressData_zero :: ProgressData where
  "ProgressData_zero = \<lparr>prog_TrackID = [], prog_HaveMs = 0, prog_TotalMs = 0, prog_Bps = 0,
     prog_Ready = False, prog_Confidence = 0\<rparr>"
definition EnqueueData_zero :: EnqueueData where
  "EnqueueData_zero = \<lparr>enq_SourceURL = []\<rparr>"
definition RemoveData_zero :: RemoveData where
  "RemoveData_zero = \<lparr>rem_TrackID = []\<rparr>"
definition ControlData_zero :: ControlData where
  "ControlData_zero = \<lparr>ctl_Action = [], ctl_SeekMs = 0\<rparr>"
definition PingData_zero :: PingData where
  "PingData_zero = \<lparr>ping_T0 = 0\<rparr>"
definition RTCSignal_zero :: RTCSignal where
  "RTCSignal_zero = \<lparr>rtc_Kind = [], rtc_SDP = [], rtc_Candidate = None\<rparr>"
definition ReadyData_zero :: ReadyData where
  "ReadyData_zero = \<lparr>ready_TrackID = []\<rparr>"

lemmas zero_defs = CreateData_zero_def JoinData_zero_def ProgressData_zero_def EnqueueData_zero_def
  RemoveData_zero_def ControlData_zero_def PingData_zero_def RTCSignal_zero_def ReadyData_zero_def
  RoomSettings_zero_def Envelope_zero_def

definition json_of_CreateData :: "CreateData \<Rightarrow> json" where
  "json_of_CreateData d =
     JObj (jmember ''mode'' (JStr (create_Mode d)) @ jmember ''nick'' (JStr (create_Nick d)))"

definition json_of_JoinData :: "JoinData \<Rightarrow> json" where
  "json_of_JoinData d =
     JObj (jmember ''roomCode'' (JStr (join_RoomCode d)) @ jmember ''nick'' (JStr (join_Nick d))
       @ jomit (join_ResumeToken d = []) ''resumeToken'' (JStr (join_ResumeToken d)))"

definition json_of_ProgressData :: "ProgressData \<Rightarrow> json" where
  "json_of_ProgressData d =
     JObj (jmember ''trackId'' (JStr (prog_TrackID d)) @ jmember ''haveMs'' (jint (prog_HaveMs d))
       @ jmember ''totalMs'' (jint (prog_TotalMs d)) @ jmember ''bps'' (jint (prog_Bps d))
       @ jmember ''ready'' (JBool (prog_Ready d))
       @ jmember ''confidence'' (jint (prog_Confidence d)))"

definition json_of_EnqueueData :: "EnqueueData \<Rightarrow> json" where
  "json_of_EnqueueData d = JObj (jmember ''sourceUrl'' (JStr (enq_SourceURL d)))"

definition json_of_RemoveData :: "RemoveData \<Rightarrow> json" where
  "json_of_RemoveData d = JObj (jmember ''trackId'' (JStr (rem_TrackID d)))"

definition json_of_ControlData :: "ControlData \<Rightarrow> json" where
  "json_of_ControlData d =
     JObj (jmember ''action'' (JStr (ctl_Action d))
       @ jomit (ctl_SeekMs d = 0) ''seekMs'' (jint (ctl_SeekMs d)))"

definition json_of_PingData :: "PingData \<Rightarrow> json" where
  "json_of_PingData d = JObj (jmember ''t0'' (jint (ping_T0 d)))"

definition json_of_RTCSignal :: "RTCSignal \<Rightarrow> json" where
  "json_of_RTCSignal d =
     JObj (jmember ''kind'' (JStr (rtc_Kind d))
       @ jomit (rtc_SDP d = []) ''sdp'' (JStr (rtc_SDP d))
       @ (case rtc_Candidate d of None \<Rightarrow> [] | Some c \<Rightarrow> jmember ''candidate'' c))"

definition json_of_ReadyData :: "ReadyData \<Rightarrow> json" where
  "json_of_ReadyData d = JObj (jmember ''trackId'' (JStr (ready_TrackID d)))"

subsection \<open>Messages of the server\<close>

record Health =
  hl_Confidence :: int
  hl_BufferedMs :: int
  hl_Bps :: int
  hl_Ready :: bool

record Member =
  mb_ID :: string
  mb_Nick :: string
  mb_Health :: "Health option"

record Track =
  tr_ID :: string
  tr_SourceURL :: string
  tr_Status :: string
  tr_Title :: string
  tr_FileURL :: string
  tr_DurationMs :: int

record RoomStateData =
  rs_RoomCode :: string
  rs_Mode :: RoomMode
  rs_SelfID :: string
  rs_HostID :: string
  rs_Settings :: RoomSettings
  rs_Members :: "Member list"
  rs_Queue :: "Track list"
  rs_Playing :: string
  rs_UDPPort :: int
  rs_ResumeToken :: string

record PrepareData =
  prep_TrackID :: string
  prep_FileURL :: string
  prep_DurationMs :: int
  prep_Title :: string

record NowPlayingData =
  np_TrackID :: string
  np_T0 :: int
  np_S :: int
  np_Paused :: bool

record PongData =
  pong_T0 :: int
  pong_T1 :: int
  pong_T2 :: int

record ErrorData =
  err_Code :: string
  err_Message :: string

definition json_of_Health :: "Health \<Rightarrow> json" where
  "json_of_Health h =
     JObj (jmember ''confidence'' (jint (hl_Confidence h))
       @ jmember ''bufferedMs'' (jint (hl_BufferedMs h))
       @ jmember ''bps'' (jint (hl_Bps h))
       @ jmember ''ready'' (JBool (hl_Ready h)))"

definition json_of_Member :: "Member \<Rightarrow> json" where
  "json_of_Member m =
     JObj (jmember ''id'' (JStr (mb_ID m)) @ jmember ''nick'' (JStr (mb_Nick m))
       @ (case mb_Health m of None \<Rightarrow> [] | Some h \<Rightarrow> jmember ''health'' (json_of_Health h)))"

definition json_of_Track :: "Track \<Rightarrow> json" where
  "json_of_Track t =
     JObj (jmember ''id'' (JStr (tr_ID t)) @ jmember ''sourceUrl'' (JStr (tr_SourceURL t))
       @ jmember ''status'' (JStr (tr_Status t))
       @ jomit (tr_Title t = []) ''title'' (JStr (tr_Title t))
       @ jomit (tr_FileURL t = []) ''fileUrl'' (JStr (tr_FileURL t))
       @ jomit (tr_DurationMs t = 0) ''durationMs'' (jint (tr_DurationMs t)))"

definition json_of_RoomStateData :: "RoomStateData \<Rightarrow> json" where
  "json_of_RoomStateData d =
     JObj (jmember ''roomCode'' (JStr (rs_RoomCode d)) @ jmember ''mode'' (JStr (rs_Mode d))
       @ jmember ''selfId'' (JStr (rs_SelfID d)) @ jmember ''hostId'' (JStr (rs_HostID d))
       @ jmember ''settings'' (json_of_RoomSettings (rs_Settings d))
       @ jmember ''members'' (JArr (List.map json_of_Member (rs_Members d)))
       @ jmember ''queue'' (JArr (List.map json_of_Track (rs_Queue d)))
       @ jomit (rs_Playing d = []) ''playingTrackId'' (JStr (rs_Playing d))
       @ jomit (rs_UDPPort d = 0) ''udpPort'' (jint (rs_UDPPort d))
       @ jomit (rs_ResumeToken d = []) ''resumeToken'' (JStr (rs_ResumeToken d)))"

definition json_of_PrepareData :: "PrepareData \<Rightarrow> json" where
  "json_of_PrepareData d =
     JObj (jmember ''trackId'' (JStr (prep_TrackID d)) @ jmember ''fileUrl'' (JStr (prep_FileURL d))
       @ jomit (prep_DurationMs d = 0) ''durationMs'' (jint (prep_DurationMs d))
       @ jomit (prep_Title d = []) ''title'' (JStr (prep_Title d)))"

definition json_of_NowPlayingData :: "NowPlayingData \<Rightarrow> json" where
  "json_of_NowPlayingData d =
     JObj (jmember ''trackId'' (JStr (np_TrackID d)) @ jmember ''t0'' (jint (np_T0 d))
       @ jmember ''s'' (jint (np_S d)) @ jmember ''paused'' (JBool (np_Paused d)))"

definition json_of_PongData :: "PongData \<Rightarrow> json" where
  "json_of_PongData d =
     JObj (jmember ''t0'' (jint (pong_T0 d)) @ jmember ''t1'' (jint (pong_T1 d))
       @ jmember ''t2'' (jint (pong_T2 d)))"

definition json_of_ErrorData :: "ErrorData \<Rightarrow> json" where
  "json_of_ErrorData d =
     JObj (jmember ''code'' (JStr (err_Code d)) @ jmember ''message'' (JStr (err_Message d)))"

subsection \<open>Reading back what was written\<close>

lemmas fields_defs = Envelope_fields_def RoomSettings_fields_def CreateData_fields_def
  JoinData_fields_def ProgressData_fields_def EnqueueData_fields_def RemoveData_fields_def
  ControlData_fields_def PingData_fields_def RTCSignal_fields_def ReadyData_fields_def

lemmas fold_eval = fold_eq_def fold_char_def Let_def

lemma Unmarshal_obj [simp]:
  "Unmarshal fs z (Some (JObj kvs)) = decode_members fs kvs (z, False)"
  by (simp add: Unmarshal_def)

lemma decode_settings:
  assumes "in64 (set_MemLimitMB s)" "in64 (set_StreamBitrateKbps s)"
  shows "Unmarshal RoomSettings_fields RoomSettings_zero (Some (json_of_RoomSettings s)) = (s, False)"
  using assms
  by (simp add: json_of_RoomSettings_def decode_members_append RoomSettings_fields_def
      RoomSettings_zero_def fold_eval)

lemma decode_create:
  "Unmarshal CreateData_fields CreateData_zero (Some (json_of_CreateData d)) = (d, False)"
  by (simp add: json_of_CreateData_def decode_members_append CreateData_fields_def
      CreateData_zero_def fold_eval)

lemma decode_join:
  "Unmarshal JoinData_fields JoinData_zero (Some (json_of_JoinData d)) = (d, False)"
  by (cases "join_ResumeToken d = []")
    (simp_all add: json_of_JoinData_def decode_members_append JoinData_fields_def
      JoinData_zero_def fold_eval)

lemma decode_progress:
  assumes "in64 (prog_HaveMs d)" "in64 (prog_TotalMs d)" "in64 (prog_Bps d)"
    "in64 (prog_Confidence d)"
  shows "Unmarshal ProgressData_fields ProgressData_zero (Some (json_of_ProgressData d)) = (d, False)"
  using assms
  by (simp add: json_of_ProgressData_def decode_members_append ProgressData_fields_def
      ProgressData_zero_def fold_eval)

lemma decode_enqueue:
  "Unmarshal EnqueueData_fields EnqueueData_zero (Some (json_of_EnqueueData d)) = (d, False)"
  by (simp add: json_of_EnqueueData_def EnqueueData_fields_def EnqueueData_zero_def fold_eval)

lemma decode_remove:
  "Unmarshal RemoveData_fields RemoveData_zero (Some (json_of_RemoveData d)) = (d, False)"
  by (simp add: json_of_RemoveData_def RemoveData_fields_def RemoveData_zero_def fold_eval)

lemma decode_control:
  assumes "in64 (ctl_SeekMs d)"
  shows "Unmarshal ControlData_fields ControlData_zero (Some (json_of_ControlData d)) = (d, False)"
  using assms
  by (cases "ctl_SeekMs d = 0")
    (simp_all add: json_of_ControlData_def decode_members_append ControlData_fields_def
      ControlData_zero_def fold_eval)

lemma decode_ping:
  assumes "in64 (ping_T0 d)"
  shows "Unmarshal PingData_fields PingData_zero (Some (json_of_PingData d)) = (d, False)"
  using assms
  by (simp add: json_of_PingData_def PingData_fields_def PingData_zero_def fold_eval)

lemma decode_rtc:
  "Unmarshal RTCSignal_fields RTCSignal_zero (Some (json_of_RTCSignal d)) = (d, False)"
  by (cases "rtc_SDP d = []"; cases "rtc_Candidate d")
    (simp_all add: json_of_RTCSignal_def decode_members_append RTCSignal_fields_def
      RTCSignal_zero_def fold_eval)

lemma decode_ready:
  "Unmarshal ReadyData_fields ReadyData_zero (Some (json_of_ReadyData d)) = (d, False)"
  by (simp add: json_of_ReadyData_def ReadyData_fields_def ReadyData_zero_def fold_eval)

lemma decode_envelope:
  "Unmarshal Envelope_fields Envelope_zero (Some (json_of_Envelope e)) = (e, False)"
  by (cases "env_Data e")
    (simp_all add: json_of_Envelope_def decode_members_append Envelope_fields_def
      Envelope_zero_def fold_eval)

lemmas decode_structs = decode_envelope decode_create decode_join decode_progress decode_enqueue
  decode_remove decode_control decode_ping decode_rtc decode_ready decode_settings

end
