(* ===== verification/Cache_Plan.thy ===== *)
theory Cache_Plan
  imports Protocol "HOL-Library.Signed_Division" "HOL-Library.Sublist"
begin

section \<open>Which tracks are cached in full (internal/media/cache.go)\<close>

text \<open>
  \<open>planFull\<close> walks the tracks of a room in queue order and decides for each long remote track
  whether its complete file fits the room's memory budget; short tracks and uploads are only
  charged. Sizes and the running total are \<open>int64\<close>, with the wrap-around written out; Go's
  division truncates towards zero (\<open>sdiv\<close>).
\<close>

definition uploadPrefix :: string where
  "uploadPrefix = ''upload://''"

definition hlsDurationThresholdMs :: int where
  "hlsDurationThresholdMs = 10 * 60 * 1000"

definition m4aBytesPerSec :: int where "m4aBytesPerSec = 16500"
definition opusBytesPerSec :: int where "opusBytesPerSec = 12500"

record ReconcileTrack =
  rt_ID :: string
  rt_SourceURL :: string
  rt_DurationMs :: int
  rt_Playing :: bool

definition estimateM4ABytes :: "int \<Rightarrow> int" where
  "estimateM4ABytes durMs = wrap64 (durMs sdiv 1000 * m4aBytesPerSec)"

definition estimateOpusBytes :: "int \<Rightarrow> int" where
  "estimateOpusBytes durMs = wrap64 (durMs sdiv 1000 * opusBytesPerSec)"

text \<open>The test that makes a track charged but never planned.\<close>

definition not_full_candidate :: "ReconcileTrack \<Rightarrow> bool" where
  "not_full_candidate t \<longleftrightarrow>
     prefix uploadPrefix (rt_SourceURL t) \<or> rt_DurationMs t < hlsDurationThresholdMs"

text \<open>The loop of \<^verbatim>\<open>planFull\<close>: the running total and the plan built so far.\<close>

fun planFull_loop ::
  "int \<Rightarrow> ReconcileTrack list \<Rightarrow> int \<Rightarrow> (string, bool) gomap \<Rightarrow> (string, bool) gomap" where
  "planFull_loop budget [] used plan = plan"
| "planFull_loop budget (t # ts) used plan =
     (if not_full_candidate t
      then planFull_loop budget ts (wrap64 (used + estimateOpusBytes (rt_DurationMs t))) plan
      else
        let size = estimateM4ABytes (rt_DurationMs t) in
        if wrap64 (used + size) \<le> budget
        then planFull_loop budget ts (wrap64 (used + size)) (gset (rt_ID t) True plan)
        else planFull_loop budget ts used (gset (rt_ID t) False plan))"

definition planFull :: "ReconcileTrack list \<Rightarrow> int \<Rightarrow> (string, bool) gomap" where
  "planFull tracks budgetMB = planFull_loop (wrap64 (budgetMB * 2 ^ 20)) tracks 0 []"

text \<open>
  \<^verbatim>\<open>Reconcile\<close> carries the plan out track by track: what it asks the pipeline to do, in order.
\<close>

datatype cache_action =
    EnsureFull string string
  | EvictFull string

fun reconcile_loop :: "(string, bool) gomap \<Rightarrow> ReconcileTrack list \<Rightarrow> cache_action list" where
  "reconcile_loop plan [] = []"
| "reconcile_loop plan (t # ts) =
     (case gget plan (rt_ID t) of
        None \<Rightarrow> reconcile_loop plan ts
      | Some full \<Rightarrow>
          if full then EnsureFull (rt_ID t) (rt_SourceURL t) # reconcile_loop plan ts
          else if \<not> rt_Playing t then EvictFull (rt_ID t) # reconcile_loop plan ts
          else reconcile_loop plan ts)"

definition Reconcile_actions :: "ReconcileTrack list \<Rightarrow> int \<Rightarrow> cache_action list" where
  "Reconcile_actions tracks budgetMB = reconcile_loop (planFull tracks budgetMB) tracks"

end
