(* ===== verification/Room_State.thy ===== *)
theory Room_State
  imports Cache_Plan
begin

section \<open>The state of a room (internal/room/room.go, playback.go)\<close>

text \<open>
  The structs of the room package, the timers a room arms, the calls a room makes to other parts
  of the program, and the reading operations that every other part of the room uses: the state
  snapshot and the ways to send to clients.

  A \<^verbatim>\<open>*Client\<close> is a record with the pointer's identity in \<open>cl_ref\<close>; the client's channel is
  named by the same number. The room keeps the pointer, so a room entry carries the client's
  fields: no field of a client is written while the room holds it.

  The runtime's timers are part of the room's state: \<open>rm_timers\<close> holds the armed ones under the
  numbers that stand for \<^verbatim>\<open>*time.Timer\<close> pointers, with the waiting time in nanoseconds and the
  function that runs when it is over. \<^verbatim>\<open>Stop\<close> takes a timer out of it.

  A method of \<^verbatim>\<open>*Room\<close> is a function from the room to the room and the list of calls it makes
  to the outside, in their order.
\<close>

subsection \<open>Types\<close>

record Client =
  cl_ref :: nat
  cl_ID :: string
  cl_Nick :: string
  cl_Seq :: int
  cl_Token :: string

record pendingClient =
  pc_seq :: int
  pc_token :: string
  pc_nick :: string
  pc_timer :: "nat option"

text \<open>\<open>pb_ready\<close> is \<open>None\<close> for a nil map.\<close>

record playback =
  pb_trackID :: string
  pb_fileURL :: string
  pb_title :: string
  pb_durationMs :: int
  pb_ready :: "(string, bool) gomap option"
  pb_started :: bool
  pb_paused :: bool
  pb_t0 :: int
  pb_s :: int
  pb_readyTimer :: "nat option"
  pb_endTimer :: "nat option"

text \<open>What runs when a timer is over: the closures given to \<^verbatim>\<open>time.AfterFunc\<close>.\<close>

datatype callback =
    CbStart string     \<comment> \<open>\<^verbatim>\<open>room.startPlayback(trackID)\<close>\<close>
  | CbEnd string       \<comment> \<open>\<^verbatim>\<open>room.endTrack(trackID)\<close>\<close>
  | CbFinalize string  \<comment> \<open>\<^verbatim>\<open>room.finalizeLeave(reg, clientID)\<close>\<close>
  | CbEmpty            \<comment> \<open>remove the room if it has no clients\<close>

record timer =
  tm_wait :: int
  tm_cb :: callback

text \<open>The last fields of the struct are functions and interfaces: whether they are non-nil.\<close>

record Room =
  rm_Code :: string
  rm_Mode :: RoomMode
  rm_clients :: "(string, Client) gomap"
  rm_queue :: "Track list"
  rm_playing :: "playback option"
  rm_hostID :: string
  rm_seqCounter :: int
  rm_settings :: RoomSettings
  rm_health :: "(string, Health) gomap"
  rm_udpPort :: int
  rm_tokens :: "(string, string) gomap"
  rm_pending :: "(string, pendingClient) gomap"
  rm_emptyTimer :: "nat option"
  rm_cleanTrack :: bool
  rm_cache :: bool
  rm_broadcaster :: bool
  rm_streamSrc :: bool
  rm_timers :: "(nat, timer) gomap"
  rm_nextTimer :: nat

text \<open>
  Calls to the outside: a non-blocking send on a client's channel, the track cleaner, the cache
  manager, the broadcaster of a stream room, and the stream resolver's goroutine.
\<close>

datatype call =
    Send nat Envelope
  | CleanTrack string
  | Reconcile "ReconcileTrack list" int
  | BcSetBitrate int
  | BcPause
  | BcResume
  | BcStop
  | BcClose
  | BcPlay Track
  | BcRemovePeer string
  | BcHandleSignal string RTCSignal
  | StreamInput Track

type_synonym room_op = "Room \<Rightarrow> Room \<times> call list"

text \<open>The successive readings of the wall clock during one call, in milliseconds.\<close>

type_synonym clock = "nat \<Rightarrow> int"

subsection \<open>Timers\<close>

definition second :: int where "second = 1000000000"
definition millisecond :: int where "millisecond = 1000000"

definition AfterFunc :: "int \<Rightarrow> callback \<Rightarrow> Room \<Rightarrow> nat \<times> Room" where
  "AfterFunc d cb rm =
     (rm_nextTimer rm,
      rm\<lparr>rm_timers := gset (rm_nextTimer rm) \<lparr>tm_wait = d, tm_cb = cb\<rparr> (rm_timers rm),
         rm_nextTimer := Suc (rm_nextTimer rm)\<rparr>)"

text \<open>\<^verbatim>\<open>if t != nil { t.Stop() }\<close>\<close>

definition StopTimer :: "nat option \<Rightarrow> Room \<Rightarrow> Room" where
  "StopTimer t rm = (case t of None \<Rightarrow> rm | Some i \<Rightarrow> rm\<lparr>rm_timers := gdel i (rm_timers rm)\<rparr>)"

lemma AfterFunc_simps [simp]:
  "fst (AfterFunc d cb rm) = rm_nextTimer rm"
  "rm_Code (snd (AfterFunc d cb rm)) = rm_Code rm"
  "rm_Mode (snd (AfterFunc d cb rm)) = rm_Mode rm"
  "rm_clients (snd (AfterFunc d cb rm)) = rm_clients rm"
  "rm_queue (snd (AfterFunc d cb rm)) = rm_queue rm"
  "rm_playing (snd (AfterFunc d cb rm)) = rm_playing rm"
  "rm_hostID (snd (AfterFunc d cb rm)) = rm_hostID rm"
  "rm_seqCounter (snd (AfterFunc d cb rm)) = rm_seqCounter rm"
  "rm_settings (snd (AfterFunc d cb rm)) = rm_settings rm"
  "rm_health (snd (AfterFunc d cb rm)) = rm_health rm"
  "rm_udpPort (snd (AfterFunc d cb rm)) = rm_udpPort rm"
  "rm_tokens (snd (AfterFunc d cb rm)) = rm_tokens rm"
  "rm_pending (snd (AfterFunc d cb rm)) = rm_pending rm"
  "rm_emptyTimer (snd (AfterFunc d cb rm)) = rm_emptyTimer rm"
  "rm_cleanTrack (snd (AfterFunc d cb rm)) = rm_cleanTrack rm"
  "rm_cache (snd (AfterFunc d cb rm)) = rm_cache rm"
  "rm_broadcaster (snd (AfterFunc d cb rm)) = rm_broadcaster rm"
  "rm_streamSrc (snd (AfterFunc d cb rm)) = rm_streamSrc rm"
  by (simp_all add: AfterFunc_def)

lemma StopTimer_simps [simp]:
  "rm_Code (StopTimer t rm) = rm_Code rm"
  "rm_Mode (StopTimer t rm) = rm_Mode rm"
  "rm_clients (StopTimer t rm) = rm_clients rm"
  "rm_queue (StopTimer t rm) = rm_queue rm"
  "rm_playing (StopTimer t rm) = rm_playing rm"
  "rm_hostID (StopTimer t rm) = rm_hostID rm"
  "rm_seqCounter (StopTimer t rm) = rm_seqCounter rm"
  "rm_settings (StopTimer t rm) = rm_settings rm"
  "rm_health (StopTimer t rm) = rm_health rm"
  "rm_udpPort (StopTimer t rm) = rm_udpPort rm"
  "rm_tokens (StopTimer t rm) = rm_tokens rm"
  "rm_pending (StopTimer t rm) = rm_pending rm"
  "rm_emptyTimer (StopTimer t rm) = rm_emptyTimer rm"
  "rm_cleanTrack (StopTimer t rm) = rm_cleanTrack rm"
  "rm_cache (StopTimer t rm) = rm_cache rm"
  "rm_broadcaster (StopTimer t rm) = rm_broadcaster rm"
  "rm_streamSrc (StopTimer t rm) = rm_streamSrc rm"
  "rm_nextTimer (StopTimer t rm) = rm_nextTimer rm"
  by (simp_all add: StopTimer_def split: option.splits)

lemma StopTimer_None [simp]: "StopTimer None rm = rm"
  by (simp add: StopTimer_def)

subsection \<open>Reading the room\<close>

definition isStream :: "Room \<Rightarrow> bool" where
  "isStream rm \<longleftrightarrow> rm_Mode rm = ModeStream"

definition playingID :: "Room \<Rightarrow> string option" where
  "playingID rm = map_option pb_trackID (rm_playing rm)"

definition snapshot :: "string \<Rightarrow> Room \<Rightarrow> RoomStateData" where
  "snapshot selfID rm =
     \<lparr>rs_RoomCode = rm_Code rm,
      rs_Mode = rm_Mode rm,
      rs_SelfID = selfID,
      rs_HostID = rm_hostID rm,
      rs_Settings = rm_settings rm,
      rs_Members =
        List.map (\<lambda>(_, c). \<lparr>mb_ID = cl_ID c, mb_Nick = cl_Nick c,
                       mb_Health = gget (rm_health rm) (cl_ID c)\<rparr>) (rm_clients rm)
        @ List.map (\<lambda>(id, p). \<lparr>mb_ID = id, mb_Nick = pc_nick p,
                         mb_Health = gget (rm_health rm) id\<rparr>) (rm_pending rm),
      rs_Queue = rm_queue rm,
      rs_Playing = (case rm_playing rm of None \<Rightarrow> [] | Some pb \<Rightarrow> pb_trackID pb),
      rs_UDPPort = rm_udpPort rm,
      rs_ResumeToken = (case gget (rm_clients rm) selfID of None \<Rightarrow> [] | Some c \<Rightarrow> cl_Token c)\<rparr>"

definition referencesTrack :: "string \<Rightarrow> Room \<Rightarrow> bool" where
  "referencesTrack trackID rm \<longleftrightarrow>
     (case rm_playing rm of Some pb \<Rightarrow> pb_trackID pb = trackID | None \<Rightarrow> False)
     \<or> list_ex (\<lambda>t. tr_ID t = trackID) (rm_queue rm)"

subsection \<open>Sending\<close>

definition sendTo :: "string \<Rightarrow> Envelope \<Rightarrow> room_op" where
  "sendTo clientID env rm =
     (rm, case gget (rm_clients rm) clientID of None \<Rightarrow> [] | Some c \<Rightarrow> [Send (cl_ref c) env])"

definition sendAll :: "Envelope \<Rightarrow> room_op" where
  "sendAll env rm = (rm, List.map (\<lambda>(_, c). Send (cl_ref c) env) (rm_clients rm))"

definition broadcastState :: room_op where
  "broadcastState rm =
     (rm, List.map (\<lambda>(id, c). Send (cl_ref c)
             (MustEncode TypeRoomState (json_of_RoomStateData (snapshot id rm)))) (rm_clients rm))"

definition cleanTrackFile :: "string \<Rightarrow> room_op" where
  "cleanTrackFile trackID rm = (rm, if rm_cleanTrack rm then [CleanTrack trackID] else [])"

definition reconcileCache :: room_op where
  "reconcileCache rm =
     (rm,
      if isStream rm then []
      else if \<not> rm_cache rm then []
      else [Reconcile
              (List.map (\<lambda>t. \<lparr>rt_ID = tr_ID t, rt_SourceURL = tr_SourceURL t,
                         rt_DurationMs = tr_DurationMs t,
                         rt_Playing = (case rm_playing rm of Some pb \<Rightarrow> pb_trackID pb = tr_ID t
                                       | None \<Rightarrow> False)\<rparr>) (rm_queue rm))
              (set_MemLimitMB (rm_settings rm))])"

lemma read_only [simp]:
  "fst (sendTo i e rm) = rm" "fst (sendAll e rm) = rm" "fst (broadcastState rm) = rm"
  "fst (cleanTrackFile i rm) = rm" "fst (reconcileCache rm) = rm"
  by (simp_all add: sendTo_def sendAll_def broadcastState_def cleanTrackFile_def reconcileCache_def)

end
