(* ===== verification/Stream_Mode.thy ===== *)
theory Stream_Mode
  imports Room_State
begin

section \<open>Stream mode (internal/room/stream.go)\<close>

text \<open>
  In a stream room the server plays one track at a time through its broadcaster. A function
  whose name ends in \<open>_locked\<close> is the section of the method that runs under the room's mutex;
  \<open>None\<close> is its early return. The method itself puts the section and the calls after it in
  sequence.
\<close>

definition firstReady :: "Track list \<Rightarrow> Track option" where
  "firstReady q = find (\<lambda>t. tr_Status t = StatusReady) q"

definition HandleRTC :: "string \<Rightarrow> RTCSignal \<Rightarrow> room_op" where
  "HandleRTC clientID sig rm =
     (rm, if rm_broadcaster rm then [BcHandleSignal clientID sig] else [])"

definition removeStreamPeer :: "string \<Rightarrow> Room \<Rightarrow> call list" where
  "removeStreamPeer clientID rm = (if rm_broadcaster rm then [BcRemovePeer clientID] else [])"

text \<open>The scan of \<^verbatim>\<open>streamPreloadNext\<close>: the flag is \<^verbatim>\<open>passedPlaying\<close>.\<close>

fun preload_scan :: "string option \<Rightarrow> bool \<Rightarrow> Track list \<Rightarrow> Track option" where
  "preload_scan pl passed [] = None"
| "preload_scan pl passed (t # ts) =
     (if pl = Some (tr_ID t) then preload_scan pl True ts
      else if passed \<and> tr_Status t = StatusReady then Some t
      else preload_scan pl passed ts)"

definition streamPreloadNext :: room_op where
  "streamPreloadNext rm =
     (rm,
      case preload_scan (playingID rm) (rm_playing rm = None) (rm_queue rm) of
        None \<Rightarrow> []
      | Some next \<Rightarrow> if rm_streamSrc rm then [StreamInput next] else [])"

definition streamMaybeStart_locked :: "Room \<Rightarrow> (Room \<times> Track) option" where
  "streamMaybeStart_locked rm =
     (if \<not> rm_broadcaster rm \<or> rm_playing rm \<noteq> None then None
      else case firstReady (rm_queue rm) of
        None \<Rightarrow> None
      | Some track \<Rightarrow>
          Some (rm\<lparr>rm_playing := Some
                  \<lparr>pb_trackID = tr_ID track, pb_fileURL = [], pb_title = tr_Title track,
                   pb_durationMs = tr_DurationMs track, pb_ready = None, pb_started = False,
                   pb_paused = False, pb_t0 = 0, pb_s = 0, pb_readyTimer = None,
                   pb_endTimer = None\<rparr>\<rparr>, track))"

definition streamMaybeStart :: room_op where
  "streamMaybeStart rm =
     (case streamMaybeStart_locked rm of
        None \<Rightarrow> (rm, [])
      | Some (rm', track) \<Rightarrow>
          seq [\<lambda>r. (r, [BcPlay track]), broadcastState, streamPreloadNext] rm')"

definition streamEndTrack_locked :: "string \<Rightarrow> Room \<Rightarrow> Room option" where
  "streamEndTrack_locked trackID rm =
     (case rm_playing rm of
        None \<Rightarrow> None
      | Some pb \<Rightarrow>
          if pb_trackID pb \<noteq> trackID then None
          else Some (rm\<lparr>rm_queue := delete_first (\<lambda>t. tr_ID t = trackID) (rm_queue rm),
                        rm_playing := None\<rparr>))"

definition streamEndTrack :: "string \<Rightarrow> room_op" where
  "streamEndTrack trackID rm =
     (case streamEndTrack_locked trackID rm of
        None \<Rightarrow> (rm, [])
      | Some rm' \<Rightarrow> seq [cleanTrackFile trackID, broadcastState, streamMaybeStart] rm')"

definition streamSkip :: room_op where
  "streamSkip rm =
     (let trackID = (case rm_playing rm of None \<Rightarrow> [] | Some pb \<Rightarrow> pb_trackID pb) in
      if \<not> rm_broadcaster rm \<or> trackID = [] then (rm, [])
      else seq [\<lambda>r. (r, [BcStop]), streamEndTrack trackID] rm)"

lemma streamPreloadNext_fst [simp]: "fst (streamPreloadNext rm) = rm"
  by (simp add: streamPreloadNext_def)

end
