(* ===== verification/Playback.thy ===== *)
theory Playback
  imports Stream_Mode
begin

section \<open>Scheduled playback (internal/room/playback.go)\<close>

text \<open>
  Signal mode: a track is prepared (every client is told to fetch it), then started at a common
  server time once every connected client is ready or the deadline is over, then paused,
  resumed, seeked, ended or skipped. \<open>clk i\<close> is the \<open>i\<close>-th reading of the clock in the call.
\<close>

subsection \<open>Deadlines and messages\<close>

definition startBufferMs :: int where "startBufferMs = 2000"
definition responsiveReadyTimeout :: int where "responsiveReadyTimeout = 6 * second"
definition tightReadyTimeout :: int where "tightReadyTimeout = 20 * second"
definition endGraceMs :: int where "endGraceMs = 750"

definition readyDeadline :: "Room \<Rightarrow> int" where
  "readyDeadline rm =
     (if set_Sync (rm_settings rm) = SyncTight then tightReadyTimeout else responsiveReadyTimeout)"

definition nowPlayingEnv :: "playback \<Rightarrow> Envelope" where
  "nowPlayingEnv pb =
     MustEncode TypeNowPlaying
       (json_of_NowPlayingData
          \<lparr>np_TrackID = pb_trackID pb, np_T0 = pb_t0 pb, np_S = pb_s pb, np_Paused = pb_paused pb\<rparr>)"

definition prepareEnv :: "playback \<Rightarrow> Envelope" where
  "prepareEnv pb =
     MustEncode TypePrepare
       (json_of_PrepareData
          \<lparr>prep_TrackID = pb_trackID pb, prep_FileURL = pb_fileURL pb,
           prep_DurationMs = pb_durationMs pb, prep_Title = pb_title pb\<rparr>)"

definition scheduleEnd :: "int \<Rightarrow> playback \<Rightarrow> Room \<Rightarrow> playback \<times> Room" where
  "scheduleEnd now pb rm =
     (let rm = StopTimer (pb_endTimer pb) rm;
          pb = pb\<lparr>pb_endTimer := None\<rparr>
      in if pb_paused pb \<or> pb_durationMs pb \<le> 0 then (pb, rm)
         else
           let remaining = wrap64 (pb_durationMs pb - pb_s pb);
               remaining = (if remaining < 0 then 0 else remaining);
               wait = wrap64 (wrap64 (wrap64 (wrap64 (pb_t0 pb - now) + remaining) + endGraceMs)
                              * millisecond);
               (i, rm) = AfterFunc wait (CbEnd (pb_trackID pb)) rm
           in (pb\<lparr>pb_endTimer := Some i\<rparr>, rm))"

subsection \<open>Preparing and starting\<close>

definition maybeStart_locked :: "Room \<Rightarrow> (Room \<times> playback) option" where
  "maybeStart_locked rm =
     (if rm_playing rm \<noteq> None then None
      else case firstReady (rm_queue rm) of
        None \<Rightarrow> None
      | Some chosen \<Rightarrow>
          let (i, rm') = AfterFunc (readyDeadline rm) (CbStart (tr_ID chosen)) rm;
              pb = \<lparr>pb_trackID = tr_ID chosen, pb_fileURL = tr_FileURL chosen,
                    pb_title = tr_Title chosen, pb_durationMs = tr_DurationMs chosen,
                    pb_ready = Some [], pb_started = False, pb_paused = False, pb_t0 = 0,
                    pb_s = 0, pb_readyTimer = Some i, pb_endTimer = None\<rparr>
          in Some (rm'\<lparr>rm_playing := Some pb\<rparr>, pb))"

definition maybeStart :: room_op where
  "maybeStart rm =
     (case maybeStart_locked rm of
        None \<Rightarrow> (rm, [])
      | Some (rm', pb) \<Rightarrow> sendAll (prepareEnv pb) rm')"

definition startPlayback_locked :: "clock \<Rightarrow> string \<Rightarrow> Room \<Rightarrow> (Room \<times> playback) option" where
  "startPlayback_locked clk trackID rm =
     (case rm_playing rm of
        None \<Rightarrow> None
      | Some pb \<Rightarrow>
          if pb_trackID pb \<noteq> trackID \<or> pb_started pb then None
          else
            let pb = pb\<lparr>pb_started := True, pb_t0 := wrap64 (clk 0 + startBufferMs), pb_s := 0\<rparr>;
                rm = StopTimer (pb_readyTimer pb) rm;
                (pb, rm) = scheduleEnd (clk 1) pb rm
            in Some (rm\<lparr>rm_playing := Some pb\<rparr>, pb))"

definition startPlayback :: "clock \<Rightarrow> string \<Rightarrow> room_op" where
  "startPlayback clk trackID rm =
     (case startPlayback_locked clk trackID rm of
        None \<Rightarrow> (rm, [])
      | Some (rm', pb) \<Rightarrow> sendAll (nowPlayingEnv pb) rm')"

text \<open>\<^verbatim>\<open>pb.ready[id]\<close>: reading a nil map gives false, writing to it panics.\<close>

definition ready_get :: "playback \<Rightarrow> string \<Rightarrow> bool" where
  "ready_get pb clientID =
     (case pb_ready pb of None \<Rightarrow> False | Some m \<Rightarrow> gget m clientID = Some True)"

definition ready_set :: "string \<Rightarrow> playback \<Rightarrow> playback outcome" where
  "ready_set clientID pb =
     (case pb_ready pb of
        None \<Rightarrow> Panic ''assignment to entry in nil map''
      | Some m \<Rightarrow> Ok (pb\<lparr>pb_ready := Some (gset clientID True m)\<rparr>))"

definition allReady :: "playback \<Rightarrow> Room \<Rightarrow> bool" where
  "allReady pb rm \<longleftrightarrow> list_all (ready_get pb) (gkeys (rm_clients rm))"

text \<open>
  The locked section of \<^verbatim>\<open>MarkReady\<close>: the new room, the message to this client alone, and
  whether playback is to start now.
\<close>

definition MarkReady_locked ::
  "string \<Rightarrow> string \<Rightarrow> Room \<Rightarrow> (Room \<times> Envelope option \<times> bool) outcome" where
  "MarkReady_locked clientID trackID rm =
     (case rm_playing rm of
        None \<Rightarrow> Ok (rm, None, False)
      | Some pb \<Rightarrow>
          if pb_trackID pb \<noteq> trackID then Ok (rm, None, False)
          else if pb_started pb \<and> ready_get pb clientID then Ok (rm, None, False)
          else bind_outcome (ready_set clientID pb) (\<lambda>pb'.
            let rm' = rm\<lparr>rm_playing := Some pb'\<rparr> in
            if pb_started pb then Ok (rm', Some (nowPlayingEnv pb'), False)
            else Ok (rm', None, allReady pb' rm')))"

definition MarkReady :: "clock \<Rightarrow> string \<Rightarrow> string \<Rightarrow> Room \<Rightarrow> (Room \<times> call list) outcome" where
  "MarkReady clk clientID trackID rm =
     bind_outcome (MarkReady_locked clientID trackID rm) (\<lambda>(rm', np, start).
       Ok (case np of
             Some env \<Rightarrow> sendTo clientID env rm'
           | None \<Rightarrow> if start then startPlayback clk trackID rm' else (rm', [])))"

text \<open>The locked section of \<^verbatim>\<open>recheckReady\<close>: the track to start, if any.\<close>

definition recheckReady_locked :: "Room \<Rightarrow> string option" where
  "recheckReady_locked rm =
     (case rm_playing rm of
        None \<Rightarrow> None
      | Some pb \<Rightarrow>
          if pb_started pb \<or> rm_clients rm = [] then None
          else if allReady pb rm then Some (pb_trackID pb) else None)"

definition recheckReady :: "clock \<Rightarrow> room_op" where
  "recheckReady clk rm =
     (case recheckReady_locked rm of
        None \<Rightarrow> (rm, [])
      | Some trackID \<Rightarrow> startPlayback clk trackID rm)"

subsection \<open>Pause, resume, seek\<close>

definition Pause_locked :: "clock \<Rightarrow> Room \<Rightarrow> (Room \<times> playback) option" where
  "Pause_locked clk rm =
     (case rm_playing rm of
        None \<Rightarrow> None
      | Some pb \<Rightarrow>
          if \<not> pb_started pb \<or> pb_paused pb then None
          else
            let pb = pb\<lparr>pb_s := wrap64 (pb_s pb + wrap64 (clk 0 - pb_t0 pb)), pb_t0 := clk 1,
                        pb_paused := True\<rparr>;
                (pb, rm) = scheduleEnd (clk 2) pb rm
            in Some (rm\<lparr>rm_playing := Some pb\<rparr>, pb))"

definition Pause :: "clock \<Rightarrow> room_op" where
  "Pause clk rm =
     (if isStream rm then (rm, if rm_broadcaster rm then [BcPause] else [])
      else case Pause_locked clk rm of
        None \<Rightarrow> (rm, [])
      | Some (rm', pb) \<Rightarrow> sendAll (nowPlayingEnv pb) rm')"

definition Resume_locked :: "clock \<Rightarrow> Room \<Rightarrow> (Room \<times> playback) option" where
  "Resume_locked clk rm =
     (case rm_playing rm of
        None \<Rightarrow> None
      | Some pb \<Rightarrow>
          if \<not> pb_started pb \<or> \<not> pb_paused pb then None
          else
            let pb = pb\<lparr>pb_t0 := wrap64 (clk 0 + startBufferMs), pb_paused := False\<rparr>;
                (pb, rm) = scheduleEnd (clk 1) pb rm
            in Some (rm\<lparr>rm_playing := Some pb\<rparr>, pb))"

definition Resume :: "clock \<Rightarrow> room_op" where
  "Resume clk rm =
     (if isStream rm then (rm, if rm_broadcaster rm then [BcResume] else [])
      else case Resume_locked clk rm of
        None \<Rightarrow> (rm, [])
      | Some (rm', pb) \<Rightarrow> sendAll (nowPlayingEnv pb) rm')"

definition SeekTo_locked :: "clock \<Rightarrow> int \<Rightarrow> Room \<Rightarrow> (Room \<times> playback) option" where
  "SeekTo_locked clk ms rm =
     (case rm_playing rm of
        None \<Rightarrow> None
      | Some pb \<Rightarrow>
          if \<not> pb_started pb then None
          else
            let ms = (if ms < 0 then 0 else ms);
                pb = pb\<lparr>pb_s := ms,
                        pb_t0 := (if pb_paused pb then clk 0 else wrap64 (clk 0 + startBufferMs))\<rparr>;
                (pb, rm) = scheduleEnd (clk 1) pb rm
            in Some (rm\<lparr>rm_playing := Some pb\<rparr>, pb))"

definition SeekTo :: "clock \<Rightarrow> int \<Rightarrow> room_op" where
  "SeekTo clk ms rm =
     (if isStream rm then (rm, [])
      else case SeekTo_locked clk ms rm of
        None \<Rightarrow> (rm, [])
      | Some (rm', pb) \<Rightarrow> sendAll (nowPlayingEnv pb) rm')"

subsection \<open>Ending and catching up\<close>

definition endTrack_locked :: "string \<Rightarrow> Room \<Rightarrow> Room option" where
  "endTrack_locked trackID rm =
     (case rm_playing rm of
        None \<Rightarrow> None
      | Some pb \<Rightarrow>
          if pb_trackID pb \<noteq> trackID then None
          else
            let rm = StopTimer (pb_endTimer pb) rm
            in Some (rm\<lparr>rm_queue := delete_first (\<lambda>t. tr_ID t = trackID) (rm_queue rm),
                        rm_playing := None\<rparr>))"

definition endTrack :: "string \<Rightarrow> room_op" where
  "endTrack trackID rm =
     (case endTrack_locked trackID rm of
        None \<Rightarrow> (rm, [])
      | Some rm' \<Rightarrow> seq [cleanTrackFile trackID, broadcastState, maybeStart, reconcileCache] rm')"

definition Skip :: room_op where
  "Skip rm =
     (if isStream rm then streamSkip rm
      else case rm_playing rm of
        None \<Rightarrow> (rm, [])
      | Some pb \<Rightarrow> endTrack (pb_trackID pb) rm)"

definition catchUp :: "Client \<Rightarrow> room_op" where
  "catchUp c rm =
     (rm,
      if isStream rm then []
      else case rm_playing rm of
        None \<Rightarrow> []
      | Some pb \<Rightarrow>
          Send (cl_ref c) (prepareEnv pb)
          # (if pb_started pb then [Send (cl_ref c) (nowPlayingEnv pb)] else []))"

subsection \<open>What each section leaves alone\<close>

text \<open>
  Apart from the playback itself, the sections above write timers only. \<open>plays rm pb rm'\<close> says
  that \<open>rm'\<close> is \<open>rm\<close> with playback \<open>pb\<close> and other timers.
\<close>

definition plays :: "Room \<Rightarrow> playback \<Rightarrow> Room \<Rightarrow> bool" where
  "plays rm pb rm' \<longleftrightarrow>
     rm' = rm\<lparr>rm_timers := rm_timers rm', rm_nextTimer := rm_nextTimer rm', rm_playing := Some pb\<rparr>"

lemma plays_fields [frame]:
  assumes "plays rm pb rm'"
  shows "rm_clients rm' = rm_clients rm" "rm_pending rm' = rm_pending rm"
    "rm_tokens rm' = rm_tokens rm" "rm_seqCounter rm' = rm_seqCounter rm"
    "rm_queue rm' = rm_queue rm" "rm_playing rm' = Some pb" "rm_hostID rm' = rm_hostID rm"
    "rm_Mode rm' = rm_Mode rm" "rm_emptyTimer rm' = rm_emptyTimer rm"
    "rm_settings rm' = rm_settings rm" "isStream rm' = isStream rm"
  by (subst assms [unfolded plays_def], simp add: isStream_def)+

lemma plays_StopTimer: "plays (StopTimer t rm) pb rm' \<longleftrightarrow> plays rm pb rm'"
  by (simp add: plays_def StopTimer_def split: option.splits)

lemma plays_AfterFunc: "plays rm pb ((snd (AfterFunc d cb rm))\<lparr>rm_playing := Some pb\<rparr>)"
  by (simp add: plays_def AfterFunc_def)

lemma plays_scheduleEnd:
  assumes "scheduleEnd now pb rm = (pb', rm')"
  shows "plays rm pb' (rm'\<lparr>rm_playing := Some pb'\<rparr>)"
  using assms
  by (auto simp: scheduleEnd_def Let_def AfterFunc_def plays_def StopTimer_def
      split: if_splits option.splits)

text \<open>\<open>scheduleEnd\<close> changes the end timer of the playback and nothing else of it.\<close>

lemma scheduleEnd_playback:
  assumes "scheduleEnd now pb rm = (pb', rm')"
  shows "pb' = pb\<lparr>pb_endTimer := pb_endTimer pb'\<rparr>"
    and "pb_endTimer pb' = None \<longleftrightarrow> pb_paused pb \<or> pb_durationMs pb \<le> 0"
  using assms by (auto simp: scheduleEnd_def Let_def AfterFunc_def split: if_splits)

lemma maybeStart_acts:
  assumes "maybeStart_locked rm = Some (rm', pb)"
  shows "rm_playing rm = None" "plays rm pb rm'"
    "\<exists>t. firstReady (rm_queue rm) = Some t \<and> pb_trackID pb = tr_ID t \<and> pb_fileURL pb = tr_FileURL t
       \<and> pb_title pb = tr_Title t \<and> pb_durationMs pb = tr_DurationMs t"
    "pb_ready pb = Some []" "\<not> pb_started pb" "\<not> pb_paused pb" "pb_endTimer pb = None"
  using assms plays_AfterFunc
  by (auto simp: maybeStart_locked_def Let_def case_prod_beta split: if_splits option.splits)

lemma startPlayback_acts:
  assumes "startPlayback_locked clk trackID rm = Some (rm', pb)"
  obtains pb0 e where "rm_playing rm = Some pb0" "pb_trackID pb0 = trackID" "\<not> pb_started pb0"
    "plays rm pb rm'"
    "pb = pb0\<lparr>pb_started := True, pb_t0 := wrap64 (clk 0 + startBufferMs), pb_s := 0,
              pb_endTimer := e\<rparr>"
    "e = None \<longleftrightarrow> pb_paused pb0 \<or> pb_durationMs pb0 \<le> 0"
proof -
  from assms obtain pb0 where p: "rm_playing rm = Some pb0" "pb_trackID pb0 = trackID"
    "\<not> pb_started pb0"
    by (auto simp: startPlayback_locked_def split: option.splits if_splits)
  let ?pb = "pb0\<lparr>pb_started := True, pb_t0 := wrap64 (clk 0 + startBufferMs), pb_s := 0\<rparr>"
  obtain rm1 where s: "scheduleEnd (clk 1) ?pb (StopTimer (pb_readyTimer pb0) rm) = (pb, rm1)"
    and rm': "rm' = rm1\<lparr>rm_playing := Some pb\<rparr>"
    using assms p by (auto simp: startPlayback_locked_def Let_def split: prod.splits)
  show ?thesis
    using that [OF p, of "pb_endTimer pb"] plays_scheduleEnd [OF s] scheduleEnd_playback [OF s] rm'
    by (simp add: plays_StopTimer)
qed

lemma Pause_acts:
  assumes "Pause_locked clk rm = Some (rm', pb)"
  obtains pb0 where "rm_playing rm = Some pb0" "pb_started pb0" "\<not> pb_paused pb0" "plays rm pb rm'"
    "pb = pb0\<lparr>pb_s := wrap64 (pb_s pb0 + (clk 0 - pb_t0 pb0)), pb_t0 := clk 1, pb_paused := True,
              pb_endTimer := None\<rparr>"
proof -
  from assms obtain pb0 where p: "rm_playing rm = Some pb0" "pb_started pb0" "\<not> pb_paused pb0"
    by (auto simp: Pause_locked_def split: option.splits if_splits)
  let ?pb = "pb0\<lparr>pb_s := wrap64 (pb_s pb0 + wrap64 (clk 0 - pb_t0 pb0)), pb_t0 := clk 1,
                 pb_paused := True\<rparr>"
  obtain rm1 where s: "scheduleEnd (clk 2) ?pb rm = (pb, rm1)"
    and rm': "rm' = rm1\<lparr>rm_playing := Some pb\<rparr>"
    using assms p by (auto simp: Pause_locked_def Let_def split: prod.splits)
  show ?thesis
    using that [OF p] plays_scheduleEnd [OF s] scheduleEnd_playback [OF s] rm' by simp
qed

lemma Resume_acts:
  assumes "Resume_locked clk rm = Some (rm', pb)"
  obtains pb0 e where "rm_playing rm = Some pb0" "pb_started pb0" "pb_paused pb0" "plays rm pb rm'"
    "pb = pb0\<lparr>pb_t0 := wrap64 (clk 0 + startBufferMs), pb_paused := False,
              pb_endTimer := e\<rparr>"
    "e = None \<longleftrightarrow> pb_durationMs pb0 \<le> 0"
proof -
  from assms obtain pb0 where p: "rm_playing rm = Some pb0" "pb_started pb0" "pb_paused pb0"
    by (auto simp: Resume_locked_def split: option.splits if_splits)
  let ?pb = "pb0\<lparr>pb_t0 := wrap64 (clk 0 + startBufferMs), pb_paused := False\<rparr>"
  obtain rm1 where s: "scheduleEnd (clk 1) ?pb rm = (pb, rm1)"
    and rm': "rm' = rm1\<lparr>rm_playing := Some pb\<rparr>"
    using assms p by (auto simp: Resume_locked_def Let_def split: prod.splits)
  show ?thesis
    using that [OF p, of "pb_endTimer pb"] plays_scheduleEnd [OF s] scheduleEnd_playback [OF s] rm' by simp
qed

lemma SeekTo_acts:
  assumes "SeekTo_locked clk ms rm = Some (rm', pb)"
  obtains pb0 e where "rm_playing rm = Some pb0" "pb_started pb0" "plays rm pb rm'"
    "pb = pb0\<lparr>pb_s := max 0 ms,
              pb_t0 := (if pb_paused pb0 then clk 0 else wrap64 (clk 0 + startBufferMs)),
              pb_endTimer := e\<rparr>"
    "e = None \<longleftrightarrow> pb_paused pb0 \<or> pb_durationMs pb0 \<le> 0"
proof -
  from assms obtain pb0 where p: "rm_playing rm = Some pb0" "pb_started pb0"
    by (auto simp: SeekTo_locked_def split: option.splits if_splits)
  let ?pb = "pb0\<lparr>pb_s := (if ms < 0 then 0 else ms),
                 pb_t0 := (if pb_paused pb0 then clk 0 else wrap64 (clk 0 + startBufferMs))\<rparr>"
  obtain rm1 where s: "scheduleEnd (clk 1) ?pb rm = (pb, rm1)"
    and rm': "rm' = rm1\<lparr>rm_playing := Some pb\<rparr>"
    using assms p by (auto simp: SeekTo_locked_def Let_def split: prod.splits)
  have "(if ms < 0 then 0 else ms) = max 0 ms" by simp
  then show ?thesis
    using that [OF p, of "pb_endTimer pb"] plays_scheduleEnd [OF s] scheduleEnd_playback [OF s] rm' by simp
qed

lemma locked_plays:
  "maybeStart_locked rm = Some (rm', pb) \<Longrightarrow> plays rm pb rm'"
  "startPlayback_locked clk trackID rm = Some (rm', pb) \<Longrightarrow> plays rm pb rm'"
  "Pause_locked clk rm = Some (rm', pb) \<Longrightarrow> plays rm pb rm'"
  "Resume_locked clk rm = Some (rm', pb) \<Longrightarrow> plays rm pb rm'"
  "SeekTo_locked clk ms rm = Some (rm', pb) \<Longrightarrow> plays rm pb rm'"
  by (rule maybeStart_acts(2), assumption)
    (erule startPlayback_acts Pause_acts Resume_acts SeekTo_acts, assumption)+

lemma MarkReady_locked_cases:
  assumes "MarkReady_locked clientID trackID rm = Ok (rm', np, start)"
  obtains (ignored) "rm' = rm" "np = None" "\<not> start"
    "\<And>pb. rm_playing rm = Some pb \<Longrightarrow> pb_trackID pb = trackID \<Longrightarrow> pb_started pb \<and> ready_get pb clientID"
  | (marked) pb m where "rm_playing rm = Some pb" "pb_trackID pb = trackID" "pb_ready pb = Some m"
    "\<not> (pb_started pb \<and> ready_get pb clientID)"
    "rm' = rm\<lparr>rm_playing := Some (pb\<lparr>pb_ready := Some (gset clientID True m)\<rparr>)\<rparr>"
    "np = (if pb_started pb then Some (nowPlayingEnv pb) else None)"
    "start \<longleftrightarrow> \<not> pb_started pb \<and> allReady (pb\<lparr>pb_ready := Some (gset clientID True m)\<rparr>) rm'"
proof (cases "rm_playing rm")
  case None
  with assms show ?thesis by (intro ignored) (auto simp: MarkReady_locked_def)
next
  case (Some pb)
  show ?thesis
  proof (cases "pb_trackID pb = trackID \<and> \<not> (pb_started pb \<and> ready_get pb clientID)")
    case False
    with Some assms show ?thesis by (intro ignored) (auto simp: MarkReady_locked_def split: if_splits)
  next
    case True
    with Some assms obtain m where "pb_ready pb = Some m"
      by (auto simp: MarkReady_locked_def ready_set_def split: option.splits if_splits)
    with True Some assms show ?thesis
      by (intro marked [of pb m])
        (auto simp: MarkReady_locked_def ready_set_def nowPlayingEnv_def Let_def split: if_splits)
  qed
qed

subsection \<open>The methods, field by field\<close>

lemma sendAll_Pair: "sendAll env rm = (rm, List.map (\<lambda>(_, c). Send (cl_ref c) env) (rm_clients rm))"
  by (simp add: sendAll_def)

lemma startPlayback_fields [simp]:
  "rm_clients (fst (startPlayback clk t rm)) = rm_clients rm"
  "rm_pending (fst (startPlayback clk t rm)) = rm_pending rm"
  "rm_tokens (fst (startPlayback clk t rm)) = rm_tokens rm"
  "rm_seqCounter (fst (startPlayback clk t rm)) = rm_seqCounter rm"
  "rm_hostID (fst (startPlayback clk t rm)) = rm_hostID rm"
  "rm_queue (fst (startPlayback clk t rm)) = rm_queue rm"
  "rm_Mode (fst (startPlayback clk t rm)) = rm_Mode rm"
  "rm_emptyTimer (fst (startPlayback clk t rm)) = rm_emptyTimer rm"
  "rm_settings (fst (startPlayback clk t rm)) = rm_settings rm"
  by (cases "startPlayback_locked clk t rm";
      auto simp: startPlayback_def sendAll_def plays_fields elim: startPlayback_acts)+

lemma recheckReady_fields [simp]:
  "rm_clients (fst (recheckReady clk rm)) = rm_clients rm"
  "rm_pending (fst (recheckReady clk rm)) = rm_pending rm"
  "rm_tokens (fst (recheckReady clk rm)) = rm_tokens rm"
  "rm_seqCounter (fst (recheckReady clk rm)) = rm_seqCounter rm"
  "rm_hostID (fst (recheckReady clk rm)) = rm_hostID rm"
  "rm_queue (fst (recheckReady clk rm)) = rm_queue rm"
  "rm_Mode (fst (recheckReady clk rm)) = rm_Mode rm"
  "rm_emptyTimer (fst (recheckReady clk rm)) = rm_emptyTimer rm"
  "rm_settings (fst (recheckReady clk rm)) = rm_settings rm"
  by (simp_all add: recheckReady_def split: option.splits)

lemma maybeStart_fields [simp]:
  "rm_clients (fst (maybeStart rm)) = rm_clients rm"
  "rm_pending (fst (maybeStart rm)) = rm_pending rm"
  "rm_tokens (fst (maybeStart rm)) = rm_tokens rm"
  "rm_hostID (fst (maybeStart rm)) = rm_hostID rm"
  "rm_queue (fst (maybeStart rm)) = rm_queue rm"
  "rm_Mode (fst (maybeStart rm)) = rm_Mode rm"
  "rm_settings (fst (maybeStart rm)) = rm_settings rm"
  by (cases "maybeStart_locked rm";
      auto simp: maybeStart_def sendAll_def dest: maybeStart_acts(2) [THEN plays_fields(1)]
        maybeStart_acts(2) [THEN plays_fields(2)] maybeStart_acts(2) [THEN plays_fields(3)]
        maybeStart_acts(2) [THEN plays_fields(5)] maybeStart_acts(2) [THEN plays_fields(7)]
        maybeStart_acts(2) [THEN plays_fields(8)] maybeStart_acts(2) [THEN plays_fields(10)])+

lemma catchUp_fst [simp]: "fst (catchUp c rm) = rm"
  by (simp add: catchUp_def)

lemma seq2_read_only:
  "fst (f rm) = rm \<Longrightarrow> fst (g rm) = rm \<Longrightarrow> seq [f, g] rm = (rm, snd (f rm) @ snd (g rm))"
  by (cases "f rm"; cases "g rm") auto

end
