(* ===== verification/Membership.thy ===== *)
theory Membership
  imports Playback
begin

section \<open>Members, permissions and the queue (internal/room/room.go)\<close>

text \<open>
  Joining with and without a resume token, the three ways to leave (socket drop, \<^verbatim>\<open>bye\<close>,
  expired grace), the host's succession, the permission checks, the settings, and the operations
  on the queue.
\<close>

definition resumeTTL :: int where "resumeTTL = 60 * second"
definition emptyRoomTTL :: int where "emptyRoomTTL = 2 * 60 * second"

subsection \<open>The timer of an empty room\<close>

definition stopEmptyTimerLocked :: "Room \<Rightarrow> Room" where
  "stopEmptyTimerLocked rm = (StopTimer (rm_emptyTimer rm) rm)\<lparr>rm_emptyTimer := None\<rparr>"

text \<open>\<open>ttl\<close> is \<^verbatim>\<open>reg.emptyRoomTTL\<close>.\<close>

definition scheduleEmptyTimerLocked :: "int \<Rightarrow> bool \<Rightarrow> Room \<Rightarrow> Room" where
  "scheduleEmptyTimerLocked ttl empt rm =
     (if \<not> empt then stopEmptyTimerLocked rm
      else if rm_emptyTimer rm \<noteq> None then rm
      else let (i, rm) = AfterFunc ttl CbEmpty rm in rm\<lparr>rm_emptyTimer := Some i\<rparr>)"

subsection \<open>Joining\<close>

text \<open>
  The locked section of \<^verbatim>\<open>Join\<close>. \<open>fresh\<close> is the token \<^verbatim>\<open>genToken\<close> returns. The client comes
  back with the fields the room has set through the pointer.
\<close>

definition Join_locked :: "Client \<Rightarrow> string \<Rightarrow> string \<Rightarrow> Room \<Rightarrow> Client \<times> Room" where
  "Join_locked c resumeToken fresh rm =
     (let rm = stopEmptyTimerLocked rm in
      case (if resumeToken \<noteq> [] then gget (rm_tokens rm) resumeToken else None) of
        Some oldID \<Rightarrow>
          let c = c\<lparr>cl_ID := oldID, cl_Token := resumeToken\<rparr>;
              (c, rm) =
                (case gget (rm_pending rm) oldID of
                   Some p \<Rightarrow>
                     (c\<lparr>cl_Seq := pc_seq p, cl_Nick := (if cl_Nick c = [] then pc_nick p else cl_Nick c)\<rparr>,
                      (StopTimer (pc_timer p) rm)\<lparr>rm_pending := gdel oldID (rm_pending rm)\<rparr>)
                 | None \<Rightarrow>
                     (c\<lparr>cl_Seq := wrap64 (rm_seqCounter rm + 1)\<rparr>,
                      rm\<lparr>rm_seqCounter := wrap64 (rm_seqCounter rm + 1)\<rparr>));
              rm = rm\<lparr>rm_clients := gset (cl_ID c) c (rm_clients rm)\<rparr>
          in (c, rm\<lparr>rm_hostID := (if rm_hostID rm = [] then cl_ID c else rm_hostID rm)\<rparr>)
      | None \<Rightarrow>
          let rm = rm\<lparr>rm_seqCounter := wrap64 (rm_seqCounter rm + 1)\<rparr>;
              c = c\<lparr>cl_Seq := rm_seqCounter rm, cl_Token := fresh\<rparr>;
              rm = rm\<lparr>rm_tokens := gset (cl_Token c) (cl_ID c) (rm_tokens rm),
                      rm_clients := gset (cl_ID c) c (rm_clients rm)\<rparr>
          in (c, rm\<lparr>rm_hostID := (if rm_hostID rm = [] then cl_ID c else rm_hostID rm)\<rparr>))"

definition Join :: "Client \<Rightarrow> string \<Rightarrow> string \<Rightarrow> Room \<Rightarrow> Client \<times> Room \<times> call list" where
  "Join c resumeToken fresh rm =
     (let (c, rm) = Join_locked c resumeToken fresh rm in
      (c, seq [broadcastState, catchUp c] rm))"

subsection \<open>Leaving\<close>

text \<open>The loop of \<^verbatim>\<open>promoteIfHostGone\<close>: the first client with the least \<^verbatim>\<open>Seq\<close>.\<close>

fun oldest_from :: "Client option \<Rightarrow> Client list \<Rightarrow> Client option" where
  "oldest_from best [] = best"
| "oldest_from best (c # cs) =
     oldest_from
       (case best of None \<Rightarrow> Some c | Some b \<Rightarrow> if cl_Seq c < cl_Seq b then Some c else best) cs"

definition promoteIfHostGone :: "string \<Rightarrow> Room \<Rightarrow> Room" where
  "promoteIfHostGone clientID rm =
     (if rm_hostID rm \<noteq> clientID then rm
      else case oldest_from None (List.map snd (rm_clients rm)) of
        None \<Rightarrow> rm
      | Some c \<Rightarrow> rm\<lparr>rm_hostID := cl_ID c\<rparr>)"

text \<open>\<^verbatim>\<open>room.clients[c.ID] != c\<close> compares pointers.\<close>

definition Leave_locked :: "int \<Rightarrow> Client \<Rightarrow> Room \<Rightarrow> (Room \<times> call list) option" where
  "Leave_locked ttl c rm =
     (if map_option cl_ref (gget (rm_clients rm) (cl_ID c)) \<noteq> Some (cl_ref c) then None
      else
        let clientID = cl_ID c;
            rm = rm\<lparr>rm_clients := gdel clientID (rm_clients rm)\<rparr>;
            calls = removeStreamPeer clientID rm
        in if cl_Token c \<noteq> [] then
             let (i, rm) = AfterFunc resumeTTL (CbFinalize clientID) rm;
                 p = \<lparr>pc_seq = cl_Seq c, pc_token = cl_Token c, pc_nick = cl_Nick c,
                      pc_timer = Some i\<rparr>;
                 rm = rm\<lparr>rm_pending := gset clientID p (rm_pending rm)\<rparr>
             in Some (scheduleEmptyTimerLocked ttl (rm_clients rm = []) rm, calls)
           else
             let empt = (rm_clients rm = []) in
             Some (scheduleEmptyTimerLocked ttl empt (promoteIfHostGone clientID rm), calls))"

definition Leave :: "clock \<Rightarrow> int \<Rightarrow> Client \<Rightarrow> room_op" where
  "Leave clk ttl c rm =
     (case Leave_locked ttl c rm of
        None \<Rightarrow> (rm, [])
      | Some (rm', calls) \<Rightarrow>
          seq [\<lambda>r. (r, calls), broadcastState, recheckReady clk] rm')"

definition HardLeave_locked :: "int \<Rightarrow> string \<Rightarrow> Room \<Rightarrow> Room \<times> call list" where
  "HardLeave_locked ttl clientID rm =
     (let rm = (case gget (rm_clients rm) clientID of
                  Some c \<Rightarrow> rm\<lparr>rm_tokens := gdel (cl_Token c) (rm_tokens rm)\<rparr>
                | None \<Rightarrow> rm);
          rm = rm\<lparr>rm_clients := gdel clientID (rm_clients rm),
                  rm_health := gdel clientID (rm_health rm)\<rparr>;
          calls = removeStreamPeer clientID rm;
          rm = (case gget (rm_pending rm) clientID of
                  Some p \<Rightarrow>
                    (StopTimer (pc_timer p) rm)
                      \<lparr>rm_tokens := gdel (pc_token p) (rm_tokens rm),
                       rm_pending := gdel clientID (rm_pending rm)\<rparr>
                | None \<Rightarrow> rm);
          rm = promoteIfHostGone clientID rm
      in (scheduleEmptyTimerLocked ttl (rm_clients rm = []) rm, calls))"

definition HardLeave :: "clock \<Rightarrow> int \<Rightarrow> string \<Rightarrow> room_op" where
  "HardLeave clk ttl clientID rm =
     (let (rm', calls) = HardLeave_locked ttl clientID rm in
      seq [\<lambda>r. (r, calls), broadcastState, recheckReady clk] rm')"

definition finalizeLeave_locked :: "int \<Rightarrow> string \<Rightarrow> Room \<Rightarrow> (Room \<times> call list) option" where
  "finalizeLeave_locked ttl clientID rm =
     (case gget (rm_pending rm) clientID of
        None \<Rightarrow> None
      | Some p \<Rightarrow>
          let rm = rm\<lparr>rm_pending := gdel clientID (rm_pending rm),
                      rm_tokens := gdel (pc_token p) (rm_tokens rm),
                      rm_health := gdel clientID (rm_health rm)\<rparr>;
              calls = removeStreamPeer clientID rm;
              rm = promoteIfHostGone clientID rm
          in Some (scheduleEmptyTimerLocked ttl (rm_clients rm = []) rm, calls))"

definition finalizeLeave :: "clock \<Rightarrow> int \<Rightarrow> string \<Rightarrow> room_op" where
  "finalizeLeave clk ttl clientID rm =
     (case finalizeLeave_locked ttl clientID rm of
        None \<Rightarrow> (rm, [])
      | Some (rm', calls) \<Rightarrow>
          seq [\<lambda>r. (r, calls), broadcastState, recheckReady clk] rm')"

subsection \<open>Permissions and settings\<close>

definition IsAllowed :: "string \<Rightarrow> string \<Rightarrow> Room \<Rightarrow> bool" where
  "IsAllowed clientID scope rm =
     (if PolicyFor (rm_settings rm) scope = PolicyEveryone then True
      else clientID = rm_hostID rm)"

definition IsHost :: "string \<Rightarrow> Room \<Rightarrow> bool" where
  "IsHost clientID rm \<longleftrightarrow> clientID = rm_hostID rm"

text \<open>The checks of \<^verbatim>\<open>SetSettings\<close> on the settings a client sent, in the code's order.\<close>

definition clampSettings :: "RoomSettings \<Rightarrow> RoomSettings" where
  "clampSettings s =
     (let s = (if set_Sync s \<noteq> SyncResponsive \<and> set_Sync s \<noteq> SyncTight
               then s\<lparr>set_Sync := SyncResponsive\<rparr> else s);
          s = (if set_MemLimitMB s < MemLimitMinMB then s\<lparr>set_MemLimitMB := MemLimitMinMB\<rparr> else s);
          s = (if set_MemLimitMB s > MemLimitMaxMB then s\<lparr>set_MemLimitMB := MemLimitMaxMB\<rparr> else s);
          s = (if set_StreamBitrateKbps s < StreamBitrateMinKbps
               then s\<lparr>set_StreamBitrateKbps := StreamBitrateMinKbps\<rparr> else s);
          s = (if set_StreamBitrateKbps s > StreamBitrateMaxKbps
               then s\<lparr>set_StreamBitrateKbps := StreamBitrateMaxKbps\<rparr> else s)
      in s)"

definition SetSettings :: "RoomSettings \<Rightarrow> room_op" where
  "SetSettings s rm =
     (let s = clampSettings s in
      seq [\<lambda>r. (r, if rm_broadcaster r then [BcSetBitrate (set_StreamBitrateKbps s)] else []),
           broadcastState, reconcileCache]
        (rm\<lparr>rm_settings := s\<rparr>))"

definition MarkProgress ::
  "clock \<Rightarrow> string \<Rightarrow> ProgressData \<Rightarrow> Room \<Rightarrow> (Room \<times> call list) outcome" where
  "MarkProgress clk clientID d rm =
     (let h = \<lparr>hl_Confidence = prog_Confidence d, hl_BufferedMs = prog_HaveMs d,
               hl_Bps = prog_Bps d, hl_Ready = prog_Ready d\<rparr>;
          (rm1, calls) = broadcastState (rm\<lparr>rm_health := gset clientID h (rm_health rm)\<rparr>)
      in if prog_Ready d
         then bind_outcome (MarkReady clk clientID (prog_TrackID d) rm1)
                (\<lambda>(rm2, more). Ok (rm2, calls @ more))
         else Ok (rm1, calls))"

subsection \<open>The queue\<close>

definition RemoveTrack :: "string \<Rightarrow> room_op" where
  "RemoveTrack trackID rm =
     (if playingID rm = Some trackID then (rm, [])
      else seq [broadcastState, reconcileCache]
             (rm\<lparr>rm_queue := delete_first (\<lambda>t. tr_ID t = trackID) (rm_queue rm)\<rparr>))"

text \<open>The end of \<^verbatim>\<open>AddTrack\<close> and \<^verbatim>\<open>UpsertTrack\<close>.\<close>

definition startNext :: room_op where
  "startNext rm =
     (if isStream rm then streamMaybeStart rm else seq [maybeStart, reconcileCache] rm)"

definition AddTrack :: "Track \<Rightarrow> room_op" where
  "AddTrack t rm = seq [broadcastState, startNext] (rm\<lparr>rm_queue := rm_queue rm @ [t]\<rparr>)"

definition upsert :: "Track \<Rightarrow> Track list \<Rightarrow> Track list" where
  "upsert t q =
     (if list_ex (\<lambda>u. tr_ID u = tr_ID t) q then replace_first (\<lambda>u. tr_ID u = tr_ID t) t q
      else q @ [t])"

definition UpsertTrack :: "Track \<Rightarrow> room_op" where
  "UpsertTrack t rm = seq [broadcastState, startNext] (rm\<lparr>rm_queue := upsert t (rm_queue rm)\<rparr>)"

subsection \<open>Closing down\<close>

fun stop_pending :: "pendingClient list \<Rightarrow> Room \<Rightarrow> Room" where
  "stop_pending [] rm = rm"
| "stop_pending (p # ps) rm = stop_pending ps (StopTimer (pc_timer p) rm)"

text \<open>
  The ids \<^verbatim>\<open>cleanupMedia\<close> collects in a set; it visits them in some order, here that of
  \<open>remdups\<close>.
\<close>

definition media_ids :: "Room \<Rightarrow> string list" where
  "media_ids rm =
     remdups ((case rm_playing rm of None \<Rightarrow> [] | Some pb \<Rightarrow> [pb_trackID pb])
              @ List.map tr_ID (rm_queue rm))"

definition cleanupMedia_locked :: "Room \<Rightarrow> Room" where
  "cleanupMedia_locked rm =
     (let rm = stopEmptyTimerLocked rm;
          rm = (case rm_playing rm of
                  None \<Rightarrow> rm
                | Some pb \<Rightarrow> StopTimer (pb_endTimer pb) (StopTimer (pb_readyTimer pb) rm));
          rm = stop_pending (List.map snd (rm_pending rm)) rm
      in rm\<lparr>rm_playing := None, rm_queue := []\<rparr>)"

definition cleanupMedia :: room_op where
  "cleanupMedia rm =
     (cleanupMedia_locked rm,
      (if rm_broadcaster rm then [BcClose] else [])
      @ (if rm_cleanTrack rm then List.map CleanTrack (media_ids rm) else []))"

subsection \<open>A new room\<close>

text \<open>The literal in \<^verbatim>\<open>Create\<close>; the last arguments say which of the functions and interfaces are set.\<close>

definition newRoom :: "string \<Rightarrow> RoomMode \<Rightarrow> int \<Rightarrow> bool \<Rightarrow> bool \<Rightarrow> bool \<Rightarrow> Room" where
  "newRoom code mode udpPort cacheMgr streamSrc bc =
     \<lparr>rm_Code = code, rm_Mode = mode, rm_clients = [], rm_queue = [], rm_playing = None,
      rm_hostID = [], rm_seqCounter = 0, rm_settings = DefaultSettings, rm_health = [],
      rm_udpPort = udpPort, rm_tokens = [], rm_pending = [], rm_emptyTimer = None,
      rm_cleanTrack = True, rm_cache = cacheMgr, rm_broadcaster = bc, rm_streamSrc = streamSrc,
      rm_timers = [], rm_nextTimer = 0\<rparr>"

end
