(* ===== verification/Registry.thy ===== *)
theory Registry
  imports Membership Hex
begin

section \<open>The registry of rooms and the world around a room (internal/room/room.go)\<close>

text \<open>
  A \<^verbatim>\<open>*Room\<close> is a number; \<open>w_heap\<close> holds the rooms that were allocated, registered or not, and
  the registry maps room codes to them. A handler or a timer may still hold a room that the
  registry has forgotten. \<open>w_chans\<close> holds the messages queued in each client's channel. The
  functions and interfaces the server installs (track cleaner, cache manager, stream resolver) are
  represented by whether they are installed; what the program calls on them is an \<open>effect\<close>.
\<close>

record Registry =
  rg_rooms :: "(string, nat) gomap"
  rg_udpPort :: int
  rg_cleanTrack :: bool
  rg_cacheMgr :: bool
  rg_streamSrc :: bool
  rg_emptyRoomTTL :: int

record World =
  w_reg :: Registry
  w_heap :: "(nat, Room) gomap"
  w_nextRoom :: nat
  w_chans :: "(nat, Envelope list) gomap"

datatype effect =
    CleanFile string                          \<comment> \<open>the installed track cleaner\<close>
  | CacheReconcile "ReconcileTrack list" int  \<comment> \<open>the installed cache manager\<close>
  | Stream nat call                           \<comment> \<open>a call on the room's broadcaster or stream resolver\<close>
  | ResolveTrack nat string                   \<comment> \<open>\<^verbatim>\<open>Pipeline.Resolve\<close> with updates for the room\<close>

type_synonym world_op = "World \<Rightarrow> World \<times> effect list"

definition NewRegistry :: Registry where
  "NewRegistry =
     \<lparr>rg_rooms = [], rg_udpPort = 0, rg_cleanTrack = False, rg_cacheMgr = False,
      rg_streamSrc = False, rg_emptyRoomTTL = emptyRoomTTL\<rparr>"

definition SetUDPPort :: "int \<Rightarrow> Registry \<Rightarrow> Registry" where
  "SetUDPPort port r = r\<lparr>rg_udpPort := port\<rparr>"

definition SetTrackCleaner :: "bool \<Rightarrow> Registry \<Rightarrow> Registry" where
  "SetTrackCleaner installed r = r\<lparr>rg_cleanTrack := installed\<rparr>"

definition SetCacheManager :: "bool \<Rightarrow> Registry \<Rightarrow> Registry" where
  "SetCacheManager installed r = r\<lparr>rg_cacheMgr := installed\<rparr>"

definition SetStreamResolver :: "bool \<Rightarrow> Registry \<Rightarrow> Registry" where
  "SetStreamResolver installed r = r\<lparr>rg_streamSrc := installed\<rparr>"

subsection \<open>Codes and tokens\<close>

text \<open>The random bytes of \<^verbatim>\<open>rand.Read\<close> are arguments.\<close>

definition alphabet :: string where
  "alphabet = ''ABCDEFGHJKLMNPQRSTUVWXYZ23456789''"

definition code_char :: "8 word \<Rightarrow> char" where
  "code_char b = alphabet ! (unat b mod length alphabet)"

definition genCode :: "8 word list \<Rightarrow> string" where
  "genCode b = List.map code_char b"

definition genToken :: "8 word list \<Rightarrow> string" where
  "genToken b = EncodeToString b"

text \<open>
  \<^verbatim>\<open>Create\<close>'s loop draws codes until one is free; \<open>draws i\<close> are the bytes of the \<open>i\<close>-th draw.
  \<open>None\<close> is the loop that never ends.
\<close>

partial_function (option) pick_code ::
  "(string, nat) gomap \<Rightarrow> (nat \<Rightarrow> 8 word list) \<Rightarrow> nat \<Rightarrow> string option" where
  "pick_code rooms draws i =
     (let code = genCode (draws i) in
      if gget rooms code = None then Some code else pick_code rooms draws (Suc i))"

declare pick_code.simps [code]

subsection \<open>Rooms of the registry\<close>

text \<open>
  \<open>bcOK\<close>: whether \<^verbatim>\<open>rtc.New\<close> succeeds. The room's \<^verbatim>\<open>cleanTrack\<close> is \<^verbatim>\<open>r.cleanIfUnused\<close>, so it
  is never nil.
\<close>

definition Create :: "(nat \<Rightarrow> 8 word list) \<Rightarrow> bool \<Rightarrow> RoomMode \<Rightarrow> World \<Rightarrow> (nat \<times> World) option" where
  "Create draws bcOK mode w =
     (let r = w_reg w in
      case pick_code (rg_rooms r) draws 0 of
        None \<Rightarrow> None
      | Some code \<Rightarrow>
          let room = newRoom code mode (rg_udpPort r) (rg_cacheMgr r) (rg_streamSrc r)
                       (mode = ModeStream \<and> rg_streamSrc r \<and> bcOK)
          in Some (w_nextRoom w,
               w\<lparr>w_reg := r\<lparr>rg_rooms := gset code (w_nextRoom w) (rg_rooms r)\<rparr>,
                 w_heap := gset (w_nextRoom w) room (w_heap w),
                 w_nextRoom := Suc (w_nextRoom w)\<rparr>))"

datatype room_error = ErrRoomNotFound

definition Get :: "string \<Rightarrow> World \<Rightarrow> room_error + nat" where
  "Get code w =
     (case gget (rg_rooms (w_reg w)) code of None \<Rightarrow> Inl ErrRoomNotFound | Some room \<Rightarrow> Inr room)"

text \<open>Some registered room references the track.\<close>

definition in_use :: "string \<Rightarrow> World \<Rightarrow> bool" where
  "in_use trackID w \<longleftrightarrow>
     list_ex (\<lambda>(_, room). case gget (w_heap w) room of
                 None \<Rightarrow> False | Some rm \<Rightarrow> referencesTrack trackID rm)
       (rg_rooms (w_reg w))"

definition cleanIfUnused :: "string \<Rightarrow> World \<Rightarrow> effect list" where
  "cleanIfUnused trackID w =
     (if \<not> rg_cleanTrack (w_reg w) then []
      else if in_use trackID w then [] else [CleanFile trackID])"

subsection \<open>Running a method of a room\<close>

text \<open>
  The calls a method makes are run after it, on the world its room is then in. The methods read
  other rooms only in \<^verbatim>\<open>cleanIfUnused\<close>, and there the track in question has left the room before
  the call and does not come back in the rest of the method.
\<close>

definition chan :: "nat \<Rightarrow> World \<Rightarrow> Envelope list" where
  "chan ch w = (case gget (w_chans w) ch of None \<Rightarrow> [] | Some q \<Rightarrow> q)"

definition trySend :: "nat \<Rightarrow> Envelope \<Rightarrow> World \<Rightarrow> World" where
  "trySend ch env w = w\<lparr>w_chans := gset ch (try_send env (chan ch w)) (w_chans w)\<rparr>"

fun exec_call :: "nat \<Rightarrow> call \<Rightarrow> world_op" where
  "exec_call room (Send ch env) w = (trySend ch env w, [])"
| "exec_call room (CleanTrack i) w = (w, cleanIfUnused i w)"
| "exec_call room (Reconcile ts mb) w = (w, [CacheReconcile ts mb])"
| "exec_call room c w = (w, [Stream room c])"

definition exec_calls :: "nat \<Rightarrow> call list \<Rightarrow> world_op" where
  "exec_calls room calls = seq (List.map (exec_call room) calls)"

definition on_room :: "nat \<Rightarrow> room_op \<Rightarrow> world_op" where
  "on_room room m w =
     (case gget (w_heap w) room of
        None \<Rightarrow> (w, [])
      | Some rm \<Rightarrow>
          let (rm', calls) = m rm
          in exec_calls room calls (w\<lparr>w_heap := gset room rm' (w_heap w)\<rparr>))"

definition remove :: "string \<Rightarrow> world_op" where
  "remove code w =
     (let room = gget (rg_rooms (w_reg w)) code;
          w = w\<lparr>w_reg := (w_reg w)\<lparr>rg_rooms := gdel code (rg_rooms (w_reg w))\<rparr>\<rparr>
      in case room of None \<Rightarrow> (w, []) | Some room \<Rightarrow> on_room room cleanupMedia w)"

subsection \<open>Timers\<close>

text \<open>An armed timer of a room goes off: it is no longer armed and its function runs.\<close>

definition run_callback :: "clock \<Rightarrow> nat \<Rightarrow> callback \<Rightarrow> world_op" where
  "run_callback clk room cb w =
     (case cb of
        CbStart trackID \<Rightarrow> on_room room (startPlayback clk trackID) w
      | CbEnd trackID \<Rightarrow> on_room room (endTrack trackID) w
      | CbFinalize clientID \<Rightarrow>
          on_room room (finalizeLeave clk (rg_emptyRoomTTL (w_reg w)) clientID) w
      | CbEmpty \<Rightarrow>
          (case gget (w_heap w) room of
             None \<Rightarrow> (w, [])
           | Some rm \<Rightarrow> if rm_clients rm = [] then remove (rm_Code rm) w else (w, [])))"

definition fire :: "clock \<Rightarrow> nat \<Rightarrow> nat \<Rightarrow> world_op" where
  "fire clk room i w =
     (case gget (w_heap w) room of
        None \<Rightarrow> (w, [])
      | Some rm \<Rightarrow>
          (case gget (rm_timers rm) i of
             None \<Rightarrow> (w, [])
           | Some t \<Rightarrow>
               run_callback clk room (tm_cb t)
                 (w\<lparr>w_heap := gset room (rm\<lparr>rm_timers := gdel i (rm_timers rm)\<rparr>) (w_heap w)\<rparr>)))"

end
