(* ===== verification/Handler.thy ===== *)
theory Handler
  imports Registry
begin

section \<open>The websocket handler (internal/wsapi/handler.go)\<close>

text \<open>
  One connection: the client it made, the room it is in, and what the loop of \<^verbatim>\<open>ServeHTTP\<close> does
  with one message. A message is the JSON value of its text, or \<open>None\<close> when the text is not JSON.
  The functions \<open>on_*\<close> are the cases of the switch.

  \<open>Env\<close> holds what a message's handling takes from outside: the readings of the clock, random
  bytes, whether \<^verbatim>\<open>rtc.New\<close> succeeds, and the track \<^verbatim>\<open>Pipeline.Resolve\<close> returns for a source.

  \<open>Blocks\<close>: the handler does not get past the message, because it waits to send on a full channel
  or draws room codes for ever. \<open>Crashes\<close>: the goroutine panics.
\<close>

record Conn =
  cn_client :: Client
  cn_current :: "nat option"

record Env =
  ev_clock :: clock
  ev_tokenBytes :: "8 word list"
  ev_draws :: "nat \<Rightarrow> 8 word list"
  ev_bcOK :: bool
  ev_hasPipeline :: bool
  ev_resolve :: "string \<Rightarrow> Track"

datatype 'a handled = Done 'a | Blocks | Crashes string

type_synonym handler_op = "Conn \<Rightarrow> World \<Rightarrow> (Conn \<times> World \<times> effect list) handled"

definition sendErr :: "string \<Rightarrow> string \<Rightarrow> handler_op" where
  "sendErr code msg c w =
     Done (c, trySend (cl_ref (cn_client c))
                (MustEncode TypeError (json_of_ErrorData \<lparr>err_Code = code, err_Message = msg\<rparr>)) w, [])"

definition ignore :: handler_op where
  "ignore c w = Done (c, w, [])"

definition run_on :: "nat \<Rightarrow> room_op \<Rightarrow> handler_op" where
  "run_on room m c w = (let (w', es) = on_room room m w in Done (c, w', es))"

text \<open>A method that may panic.\<close>

definition try_on :: "nat \<Rightarrow> (Room \<Rightarrow> (Room \<times> call list) outcome) \<Rightarrow> handler_op" where
  "try_on room m c w =
     (case gget (w_heap w) room of
        None \<Rightarrow> ignore c w
      | Some rm \<Rightarrow>
          (case m rm of
             Panic msg \<Rightarrow> Crashes msg
           | Ok res \<Rightarrow> run_on room (\<lambda>_. res) c w))"

definition the_room :: "Conn \<Rightarrow> World \<Rightarrow> Room option" where
  "the_room c w = (case cn_current c of None \<Rightarrow> None | Some room \<Rightarrow> gget (w_heap w) room)"

definition allowed :: "string \<Rightarrow> Conn \<Rightarrow> World \<Rightarrow> bool" where
  "allowed scope c w =
     (case the_room c w of None \<Rightarrow> False | Some rm \<Rightarrow> IsAllowed (cl_ID (cn_client c)) scope rm)"

definition isHost :: "Conn \<Rightarrow> World \<Rightarrow> bool" where
  "isHost c w =
     (case the_room c w of None \<Rightarrow> False | Some rm \<Rightarrow> IsHost (cl_ID (cn_client c)) rm)"

subsection \<open>Entering and leaving\<close>

text \<open>\<^verbatim>\<open>current = rm; current.Join(client, token)\<close>; the room writes the client through the pointer.\<close>

definition join_room :: "Env \<Rightarrow> nat \<Rightarrow> string \<Rightarrow> handler_op" where
  "join_room ev room resumeToken c w =
     (case gget (w_heap w) room of
        None \<Rightarrow> ignore c w
      | Some rm \<Rightarrow>
          let (client, rm', calls) = Join (cn_client c) resumeToken (genToken (ev_tokenBytes ev)) rm;
              (w', es) = exec_calls room calls (w\<lparr>w_heap := gset room rm' (w_heap w)\<rparr>)
          in Done (c\<lparr>cn_client := client, cn_current := Some room\<rparr>, w', es))"

definition set_nick :: "string \<Rightarrow> Conn \<Rightarrow> Conn" where
  "set_nick nick c = c\<lparr>cn_client := (cn_client c)\<lparr>cl_Nick := nick\<rparr>\<rparr>"

definition on_create :: "Env \<Rightarrow> json option \<Rightarrow> handler_op" where
  "on_create ev data c w =
     (if cn_current c \<noteq> None then sendErr ''already_in_room'' ''leave current room first'' c w
      else let (d, err) = Unmarshal CreateData_fields CreateData_zero data in
        if err then sendErr ''bad_message'' ''invalid create payload'' c w
        else
          let mode = (if create_Mode d \<noteq> ModeSignal \<and> create_Mode d \<noteq> ModeStream then ModeSignal
                      else create_Mode d)
          in (case Create (ev_draws ev) (ev_bcOK ev) mode w of
                None \<Rightarrow> Blocks
              | Some (room, w') \<Rightarrow> join_room ev room [] (set_nick (create_Nick d) c) w'))"

definition on_join :: "Env \<Rightarrow> json option \<Rightarrow> handler_op" where
  "on_join ev data c w =
     (if cn_current c \<noteq> None then sendErr ''already_in_room'' ''leave current room first'' c w
      else let (d, err) = Unmarshal JoinData_fields JoinData_zero data in
        if err then sendErr ''bad_message'' ''invalid join payload'' c w
        else
          (case Get (join_RoomCode d) w of
             Inl _ \<Rightarrow> sendErr ''room_not_found'' ''no room with that code'' c w
           | Inr room \<Rightarrow> join_room ev room (join_ResumeToken d) (set_nick (join_Nick d) c) w))"

definition on_bye :: "Env \<Rightarrow> handler_op" where
  "on_bye ev c w =
     (case cn_current c of
        None \<Rightarrow> ignore c w
      | Some room \<Rightarrow>
          run_on room (HardLeave (ev_clock ev) (rg_emptyRoomTTL (w_reg w)) (cl_ID (cn_client c)))
            (c\<lparr>cn_current := None\<rparr>) w)"

text \<open>The deferred function: what happens when reading from the connection fails.\<close>

definition disconnect :: "Env \<Rightarrow> Conn \<Rightarrow> world_op" where
  "disconnect ev c w =
     (case cn_current c of
        None \<Rightarrow> (w, [])
      | Some room \<Rightarrow>
          on_room room (Leave (ev_clock ev) (rg_emptyRoomTTL (w_reg w)) (cn_client c)) w)"

subsection \<open>Messages with a permission\<close>

definition on_enqueue :: "Env \<Rightarrow> json option \<Rightarrow> handler_op" where
  "on_enqueue ev data c w =
     (case cn_current c of
        None \<Rightarrow> sendErr ''not_in_room'' ''join a room first'' c w
      | Some room \<Rightarrow>
          if \<not> ev_hasPipeline ev then sendErr ''no_pipeline'' ''media pipeline unavailable'' c w
          else if \<not> allowed ScopeEnqueue c w
          then sendErr ''forbidden'' ''only the host can add tracks'' c w
          else let (d, err) = Unmarshal EnqueueData_fields EnqueueData_zero data in
            if err \<or> enq_SourceURL d = [] then sendErr ''bad_message'' ''invalid enqueue payload'' c w
            else
              let (w', es) = on_room room (UpsertTrack (ev_resolve ev (enq_SourceURL d))) w
              in Done (c, w', ResolveTrack room (enq_SourceURL d) # es))"

definition on_skip :: handler_op where
  "on_skip c w =
     (case cn_current c of
        None \<Rightarrow> sendErr ''not_in_room'' ''join a room first'' c w
      | Some room \<Rightarrow>
          if \<not> allowed ScopeSkip c w then sendErr ''forbidden'' ''only the host can skip'' c w
          else run_on room Skip c w)"

definition on_remove :: "json option \<Rightarrow> handler_op" where
  "on_remove data c w =
     (case cn_current c of
        None \<Rightarrow> sendErr ''not_in_room'' ''join a room first'' c w
      | Some room \<Rightarrow>
          if \<not> allowed ScopeRemove c w
          then sendErr ''forbidden'' ''only the host can remove tracks'' c w
          else let (d, err) = Unmarshal RemoveData_fields RemoveData_zero data in
            if err \<or> rem_TrackID d = [] then sendErr ''bad_message'' ''invalid remove payload'' c w
            else run_on room (RemoveTrack (rem_TrackID d)) c w)"

definition on_control :: "Env \<Rightarrow> json option \<Rightarrow> handler_op" where
  "on_control ev data c w =
     (case cn_current c of
        None \<Rightarrow> sendErr ''not_in_room'' ''join a room first'' c w
      | Some room \<Rightarrow>
          if \<not> allowed ScopeControl c w
          then sendErr ''forbidden'' ''only the host can control playback'' c w
          else let (d, err) = Unmarshal ControlData_fields ControlData_zero data in
            if err then sendErr ''bad_message'' ''invalid control payload'' c w
            else if ctl_Action d = ControlPause then run_on room (Pause (ev_clock ev)) c w
            else if ctl_Action d = ControlResume then run_on room (Resume (ev_clock ev)) c w
            else if ctl_Action d = ControlSeek
            then run_on room (SeekTo (ev_clock ev) (ctl_SeekMs d)) c w
            else sendErr ''bad_message'' ''unknown control action'' c w)"

definition on_set_settings :: "json option \<Rightarrow> handler_op" where
  "on_set_settings data c w =
     (case cn_current c of
        None \<Rightarrow> sendErr ''not_in_room'' ''join a room first'' c w
      | Some room \<Rightarrow>
          if \<not> isHost c w then sendErr ''forbidden'' ''only the host can change settings'' c w
          else let (d, err) = Unmarshal RoomSettings_fields RoomSettings_zero data in
            if err then sendErr ''bad_message'' ''invalid settings payload'' c w
            else run_on room (SetSettings d) c w)"

subsection \<open>Reports, signalling, ping\<close>

definition on_ready :: "Env \<Rightarrow> json option \<Rightarrow> handler_op" where
  "on_ready ev data c w =
     (case cn_current c of
        None \<Rightarrow> ignore c w
      | Some room \<Rightarrow>
          let (d, err) = Unmarshal ReadyData_fields ReadyData_zero data in
          if err \<or> ready_TrackID d = [] then ignore c w
          else try_on room (MarkReady (ev_clock ev) (cl_ID (cn_client c)) (ready_TrackID d)) c w)"

definition on_progress :: "Env \<Rightarrow> json option \<Rightarrow> handler_op" where
  "on_progress ev data c w =
     (case cn_current c of
        None \<Rightarrow> ignore c w
      | Some room \<Rightarrow>
          let (d, err) = Unmarshal ProgressData_fields ProgressData_zero data in
          if err \<or> prog_TrackID d = [] then ignore c w
          else try_on room (MarkProgress (ev_clock ev) (cl_ID (cn_client c)) d) c w)"

definition on_rtc :: "json option \<Rightarrow> handler_op" where
  "on_rtc data c w =
     (case cn_current c of
        None \<Rightarrow> ignore c w
      | Some room \<Rightarrow>
          let (d, err) = Unmarshal RTCSignal_fields RTCSignal_zero data in
          if err then ignore c w
          else run_on room (HandleRTC (cl_ID (cn_client c)) d) c w)"

text \<open>The reply is sent without a \<^verbatim>\<open>select\<close>: it waits while the channel is full.\<close>

definition on_ping :: "Env \<Rightarrow> json option \<Rightarrow> handler_op" where
  "on_ping ev data c w =
     (let t1 = ev_clock ev 0;
          (d, _) = Unmarshal PingData_fields PingData_zero data;
          pong = MustEncode TypePong
                   (json_of_PongData \<lparr>pong_T0 = ping_T0 d, pong_T1 = t1, pong_T2 = ev_clock ev 1\<rparr>)
      in if length (chan (cl_ref (cn_client c)) w) < chan_cap
         then Done (c, trySend (cl_ref (cn_client c)) pong w, [])
         else Blocks)"

subsection \<open>The loop\<close>

definition handle_message :: "Env \<Rightarrow> json option \<Rightarrow> handler_op" where
  "handle_message ev raw c w =
     (let (env, err) = Unmarshal Envelope_fields Envelope_zero raw; data = env_Data env in
      if err then sendErr ''bad_message'' ''invalid envelope'' c w
      else if env_Type env = TypeCreate then on_create ev data c w
      else if env_Type env = TypeJoin then on_join ev data c w
      else if env_Type env = TypeEnqueue then on_enqueue ev data c w
      else if env_Type env = TypeSkip then on_skip c w
      else if env_Type env = TypeRemove then on_remove data c w
      else if env_Type env = TypeControl then on_control ev data c w
      else if env_Type env = TypeSetSettings then on_set_settings data c w
      else if env_Type env = TypeReady then on_ready ev data c w
      else if env_Type env = TypeProgress then on_progress ev data c w
      else if env_Type env = TypeBye then on_bye ev c w
      else if env_Type env = TypeRTC then on_rtc data c w
      else if env_Type env = TypePing then on_ping ev data c w
      else sendErr ''unknown_type'' ''unsupported message type'' c w)"

text \<open>A whole connection: its messages in order, then the disconnect.\<close>

fun serve :: "(Env \<times> json option) list \<Rightarrow> Env \<Rightarrow> Conn \<Rightarrow> World \<Rightarrow> (World \<times> effect list) handled" where
  "serve [] ev c w = Done (disconnect ev c w)"
| "serve ((ev1, raw) # msgs) ev c w =
     (case handle_message ev1 raw c w of
        Done (c', w', es) \<Rightarrow>
          (case serve msgs ev c' w' of
             Done (w'', es') \<Rightarrow> Done (w'', es @ es')
           | Blocks \<Rightarrow> Blocks
           | Crashes msg \<Rightarrow> Crashes msg)
      | Blocks \<Rightarrow> Blocks
      | Crashes msg \<Rightarrow> Crashes msg)"

definition newConn :: "nat \<Rightarrow> string \<Rightarrow> Conn" where
  "newConn ref uuid =
     \<lparr>cn_client = \<lparr>cl_ref = ref, cl_ID = uuid, cl_Nick = [], cl_Seq = 0, cl_Token = []\<rparr>,
      cn_current = None\<rparr>"

text \<open>\<^verbatim>\<open>writePump\<close> takes the oldest message of the channel.\<close>

definition take_message :: "nat \<Rightarrow> World \<Rightarrow> (Envelope \<times> World) option" where
  "take_message ch w =
     (case chan ch w of [] \<Rightarrow> None | env # q \<Rightarrow> Some (env, w\<lparr>w_chans := gset ch q (w_chans w)\<rparr>))"

end
