(* ===== verification/Member_Spec.thy ===== *)
theory Member_Spec
  imports Membership
begin

section \<open>What membership promises: a table of members\<close>

text \<open>
  The contract behind \<^verbatim>\<open>Join\<close>, \<^verbatim>\<open>Leave\<close>, \<^verbatim>\<open>HardLeave\<close> and \<^verbatim>\<open>finalizeLeave\<close>, stated without
  clients, pending entries or timers: a member is an id with a sequence number and a token; it is
  online or in its grace period; losing the connection takes it offline and changes nothing else;
  only forgetting a member removes it and revokes its token. \<open>members_abs\<close> reads the table off a
  room, and the refinement lemmas show that each locked section of the code does what its
  specification does to the table.
\<close>

record members =
  am_table :: "string \<Rightarrow> (int \<times> string) option"
  am_online :: "string \<Rightarrow> bool"
  am_tokens :: "string \<Rightarrow> string option"
  am_next :: int

definition spec_enter :: "string \<Rightarrow> string \<Rightarrow> members \<Rightarrow> members" where
  "spec_enter i tok m =
     m\<lparr>am_table := (am_table m)(i \<mapsto> (am_next m + 1, tok)),
       am_online := (am_online m)(i := True),
       am_tokens := (am_tokens m)(tok \<mapsto> i),
       am_next := am_next m + 1\<rparr>"

definition spec_return :: "string \<Rightarrow> members \<Rightarrow> members" where
  "spec_return i m = m\<lparr>am_online := (am_online m)(i := True)\<rparr>"

text \<open>A second connection takes over a member that is online: it gets a new number.\<close>

definition spec_takeover :: "string \<Rightarrow> members \<Rightarrow> members" where
  "spec_takeover i m =
     m\<lparr>am_table := (am_table m)(i := map_option (\<lambda>(_, tok). (am_next m + 1, tok)) (am_table m i)),
       am_next := am_next m + 1\<rparr>"

definition spec_drop :: "string \<Rightarrow> members \<Rightarrow> members" where
  "spec_drop i m = m\<lparr>am_online := (am_online m)(i := False)\<rparr>"

definition spec_forget :: "string \<Rightarrow> members \<Rightarrow> members" where
  "spec_forget i m =
     m\<lparr>am_table := (am_table m)(i := None),
       am_online := (am_online m)(i := False),
       am_tokens :=
         (case am_table m i of None \<Rightarrow> am_tokens m
          | Some (_, tok) \<Rightarrow> (am_tokens m)(tok := None))\<rparr>"

text \<open>
  The invariant of the table: online members are members; each member owns its token and every
  token belongs to a member; numbers are distinct and at most the last one given.
\<close>

definition table_ok :: "members \<Rightarrow> bool" where
  "table_ok m \<longleftrightarrow>
     (\<forall>i. am_online m i \<longrightarrow> am_table m i \<noteq> None)
     \<and> (\<forall>i s t. am_table m i = Some (s, t) \<longrightarrow> t \<noteq> [] \<and> am_tokens m t = Some i \<and> s \<le> am_next m)
     \<and> (\<forall>t i. am_tokens m t = Some i \<longrightarrow> (\<exists>s. am_table m i = Some (s, t)))
     \<and> (\<forall>i j s t u. am_table m i = Some (s, t) \<longrightarrow> am_table m j = Some (s, u) \<longrightarrow> i = j)"

lemma table_okD:
  assumes "table_ok m"
  shows "am_online m i \<Longrightarrow> am_table m i \<noteq> None"
    and "am_table m i = Some (s, t) \<Longrightarrow> t \<noteq> [] \<and> am_tokens m t = Some i \<and> s \<le> am_next m"
    and "am_tokens m t = Some i \<Longrightarrow> \<exists>s. am_table m i = Some (s, t)"
    and "am_table m i = Some (s, t) \<Longrightarrow> am_table m j = Some (s, u) \<Longrightarrow> i = j"
  using assms unfolding table_ok_def by blast+

lemma table_ok_enter:
  assumes ok: "table_ok m" and "am_table m i = None" "am_tokens m tok = None" "tok \<noteq> []"
  shows "table_ok (spec_enter i tok m)"
proof -
  have lt: "s \<noteq> am_next m + 1" if "am_table m j = Some (s, t)" for j s t
    using table_okD(2) [OF ok that] by simp
  have tok: "t \<noteq> tok" if "am_table m j = Some (s, t)" for j s t
    using table_okD(2) [OF ok that] assms by auto
  show ?thesis
    unfolding table_ok_def spec_enter_def
    using assms lt tok table_okD [OF ok]
    by (auto split: if_splits) (fastforce+)
qed

lemma table_ok_return:
  "table_ok m \<Longrightarrow> am_table m i \<noteq> None \<Longrightarrow> table_ok (spec_return i m)"
  unfolding table_ok_def spec_return_def by auto

lemma table_ok_drop: "table_ok m \<Longrightarrow> table_ok (spec_drop i m)"
  unfolding table_ok_def spec_drop_def by auto

lemma table_ok_takeover:
  assumes ok: "table_ok m"
  shows "table_ok (spec_takeover i m)"
proof -
  have lt: "s \<noteq> am_next m + 1" if "am_table m j = Some (s, t)" for j s t
    using table_okD(2) [OF ok that] by simp
  show ?thesis
    unfolding table_ok_def spec_takeover_def
    using lt table_okD [OF ok] by (auto split: if_splits) fastforce+
qed

lemma table_ok_forget:
  assumes ok: "table_ok m"
  shows "table_ok (spec_forget i m)"
proof (cases "am_table m i")
  case None
  then show ?thesis
    using table_okD [OF ok] by (auto simp: table_ok_def spec_forget_def) fastforce
next
  case (Some st)
  obtain s tok where st: "am_table m i = Some (s, tok)" using Some by (cases st) auto
  have other: "t \<noteq> tok" if "am_table m j = Some (s', t)" "j \<noteq> i" for j s' t
    using table_okD(2) [OF ok that(1)] table_okD(2) [OF ok st] that(2) by auto
  show ?thesis
    unfolding table_ok_def spec_forget_def
    using st other table_okD [OF ok] by (auto split: if_splits) fastforce+
qed

subsection \<open>The table of a room\<close>

definition member_of :: "Room \<Rightarrow> string \<Rightarrow> (int \<times> string) option" where
  "member_of rm i =
     (case gget (rm_clients rm) i of
        Some c \<Rightarrow> Some (cl_Seq c, cl_Token c)
      | None \<Rightarrow> map_option (\<lambda>p. (pc_seq p, pc_token p)) (gget (rm_pending rm) i))"

definition members_abs :: "Room \<Rightarrow> members" where
  "members_abs rm =
     \<lparr>am_table = member_of rm,
      am_online = (\<lambda>i. gget (rm_clients rm) i \<noteq> None),
      am_tokens = gget (rm_tokens rm),
      am_next = rm_seqCounter rm\<rparr>"

text \<open>
  The part of the invariant that the table does not show: maps have one entry for a key, a
  client is filed under its own id, and nobody is both online and pending.
\<close>

definition filed_ok :: "Room \<Rightarrow> bool" where
  "filed_ok rm \<longleftrightarrow>
     gmap_ok (rm_clients rm) \<and> gmap_ok (rm_pending rm) \<and> gmap_ok (rm_tokens rm)
     \<and> (\<forall>i c. gget (rm_clients rm) i = Some c \<longrightarrow> cl_ID c = i)
     \<and> (\<forall>i. gget (rm_clients rm) i \<noteq> None \<longrightarrow> gget (rm_pending rm) i = None)"

definition members_ok :: "Room \<Rightarrow> bool" where
  "members_ok rm \<longleftrightarrow> filed_ok rm \<and> table_ok (members_abs rm)"

text \<open>Both depend on four fields of the room only.\<close>

lemma members_abs_cong:
  assumes "rm_clients r = rm_clients s" "rm_pending r = rm_pending s"
    "rm_tokens r = rm_tokens s" "rm_seqCounter r = rm_seqCounter s"
  shows "members_abs r = members_abs s" and "members_ok r = members_ok s"
proof -
  have "member_of r = member_of s" unfolding member_of_def assms ..
  with assms show a: "members_abs r = members_abs s" by (simp add: members_abs_def)
  with assms show "members_ok r = members_ok s" by (simp add: members_ok_def filed_ok_def)
qed

lemma promoteIfHostGone_fields [simp]:
  "rm_clients (promoteIfHostGone i rm) = rm_clients rm"
  "rm_pending (promoteIfHostGone i rm) = rm_pending rm"
  "rm_tokens (promoteIfHostGone i rm) = rm_tokens rm"
  "rm_seqCounter (promoteIfHostGone i rm) = rm_seqCounter rm"
  "rm_queue (promoteIfHostGone i rm) = rm_queue rm"
  "rm_playing (promoteIfHostGone i rm) = rm_playing rm"
  "rm_Mode (promoteIfHostGone i rm) = rm_Mode rm"
  "rm_emptyTimer (promoteIfHostGone i rm) = rm_emptyTimer rm"
  "rm_settings (promoteIfHostGone i rm) = rm_settings rm"
  "rm_broadcaster (promoteIfHostGone i rm) = rm_broadcaster rm"
  "rm_cleanTrack (promoteIfHostGone i rm) = rm_cleanTrack rm"
  "rm_health (promoteIfHostGone i rm) = rm_health rm"
  by (simp_all add: promoteIfHostGone_def split: option.splits)

lemma scheduleEmpty_fields [simp]:
  "rm_clients (scheduleEmptyTimerLocked ttl e rm) = rm_clients rm"
  "rm_pending (scheduleEmptyTimerLocked ttl e rm) = rm_pending rm"
  "rm_tokens (scheduleEmptyTimerLocked ttl e rm) = rm_tokens rm"
  "rm_seqCounter (scheduleEmptyTimerLocked ttl e rm) = rm_seqCounter rm"
  "rm_queue (scheduleEmptyTimerLocked ttl e rm) = rm_queue rm"
  "rm_playing (scheduleEmptyTimerLocked ttl e rm) = rm_playing rm"
  "rm_Mode (scheduleEmptyTimerLocked ttl e rm) = rm_Mode rm"
  "rm_hostID (scheduleEmptyTimerLocked ttl e rm) = rm_hostID rm"
  "rm_settings (scheduleEmptyTimerLocked ttl e rm) = rm_settings rm"
  "rm_broadcaster (scheduleEmptyTimerLocked ttl e rm) = rm_broadcaster rm"
  "rm_cleanTrack (scheduleEmptyTimerLocked ttl e rm) = rm_cleanTrack rm"
  "rm_health (scheduleEmptyTimerLocked ttl e rm) = rm_health rm"
  by (simp_all add: scheduleEmptyTimerLocked_def stopEmptyTimerLocked_def AfterFunc_def Let_def)

lemma stopEmpty_fields [simp]:
  "rm_clients (stopEmptyTimerLocked rm) = rm_clients rm"
  "rm_pending (stopEmptyTimerLocked rm) = rm_pending rm"
  "rm_tokens (stopEmptyTimerLocked rm) = rm_tokens rm"
  "rm_seqCounter (stopEmptyTimerLocked rm) = rm_seqCounter rm"
  "rm_queue (stopEmptyTimerLocked rm) = rm_queue rm"
  "rm_playing (stopEmptyTimerLocked rm) = rm_playing rm"
  "rm_Mode (stopEmptyTimerLocked rm) = rm_Mode rm"
  "rm_hostID (stopEmptyTimerLocked rm) = rm_hostID rm"
  "rm_settings (stopEmptyTimerLocked rm) = rm_settings rm"
  "rm_broadcaster (stopEmptyTimerLocked rm) = rm_broadcaster rm"
  "rm_emptyTimer (stopEmptyTimerLocked rm) = None"
  "rm_health (stopEmptyTimerLocked rm) = rm_health rm"
  by (simp_all add: stopEmptyTimerLocked_def)

subsection \<open>Refinement: each locked section implements its specification\<close>

lemmas join_defs = Join_locked_def Let_def case_prod_beta

lemma members_eqI:
  assumes "\<And>i. am_table m i = am_table n i" "\<And>i. am_online m i = am_online n i"
    "\<And>i. am_tokens m i = am_tokens n i" "am_next m = am_next n"
  shows "m = (n :: members)"
  using assms by (cases m; cases n) (auto simp: fun_eq_iff)

lemma members_abs_sel [simp]:
  "am_table (members_abs rm) = member_of rm"
  "am_online (members_abs rm) = (\<lambda>i. gget (rm_clients rm) i \<noteq> None)"
  "am_tokens (members_abs rm) = gget (rm_tokens rm)"
  "am_next (members_abs rm) = rm_seqCounter rm"
  by (simp_all add: members_abs_def)

lemma filed_okD:
  assumes "filed_ok rm"
  shows "gmap_ok (rm_clients rm)" "gmap_ok (rm_pending rm)" "gmap_ok (rm_tokens rm)"
    and "gget (rm_clients rm) i = Some c \<Longrightarrow> cl_ID c = i"
    and "gget (rm_clients rm) i = Some c \<Longrightarrow> gget (rm_pending rm) i = None"
  using assms unfolding filed_ok_def by auto

text \<open>The three ways through \<open>Join_locked\<close>, field by field.\<close>

lemma Join_new:
  assumes "resumeToken = [] \<or> gget (rm_tokens rm) resumeToken = None"
    and j: "Join_locked c resumeToken fresh rm = (c', rm')"
  shows "c' = c\<lparr>cl_Seq := wrap64 (rm_seqCounter rm + 1), cl_Token := fresh\<rparr>"
    "rm_clients rm' = gset (cl_ID c) c' (rm_clients rm)" "rm_pending rm' = rm_pending rm"
    "rm_tokens rm' = gset fresh (cl_ID c) (rm_tokens rm)"
    "rm_seqCounter rm' = wrap64 (rm_seqCounter rm + 1)"
    "rm_hostID rm' = (if rm_hostID rm = [] then cl_ID c else rm_hostID rm)"
    "rm_queue rm' = rm_queue rm" "rm_playing rm' = rm_playing rm" "rm_emptyTimer rm' = None"
    "rm_Mode rm' = rm_Mode rm" "rm_settings rm' = rm_settings rm"
proof -
  have tok': "(if resumeToken \<noteq> [] then gget (rm_tokens rm) resumeToken else None) = None"
    using assms(1) by auto
  note d = j [unfolded Join_locked_def Let_def stopEmpty_fields tok']
  show "c' = c\<lparr>cl_Seq := wrap64 (rm_seqCounter rm + 1), cl_Token := fresh\<rparr>"
    "rm_clients rm' = gset (cl_ID c) c' (rm_clients rm)" "rm_pending rm' = rm_pending rm"
    "rm_tokens rm' = gset fresh (cl_ID c) (rm_tokens rm)"
    "rm_seqCounter rm' = wrap64 (rm_seqCounter rm + 1)"
    "rm_hostID rm' = (if rm_hostID rm = [] then cl_ID c else rm_hostID rm)"
    "rm_queue rm' = rm_queue rm" "rm_playing rm' = rm_playing rm" "rm_emptyTimer rm' = None"
    "rm_Mode rm' = rm_Mode rm" "rm_settings rm' = rm_settings rm"
    using d by auto
qed

lemma Join_back:
  assumes "resumeToken \<noteq> []" "gget (rm_tokens rm) resumeToken = Some i"
    and "gget (rm_pending rm) i = Some p"
    and j: "Join_locked c resumeToken fresh rm = (c', rm')"
  shows "c' = c\<lparr>cl_ID := i, cl_Token := resumeToken, cl_Seq := pc_seq p,
               cl_Nick := (if cl_Nick c = [] then pc_nick p else cl_Nick c)\<rparr>"
    "rm_clients rm' = gset i c' (rm_clients rm)" "rm_pending rm' = gdel i (rm_pending rm)"
    "rm_tokens rm' = rm_tokens rm" "rm_seqCounter rm' = rm_seqCounter rm"
    "rm_hostID rm' = (if rm_hostID rm = [] then i else rm_hostID rm)"
    "rm_queue rm' = rm_queue rm" "rm_playing rm' = rm_playing rm" "rm_emptyTimer rm' = None"
    "rm_Mode rm' = rm_Mode rm" "rm_settings rm' = rm_settings rm"
  using assms by (auto simp: join_defs)

lemma Join_over:
  assumes "resumeToken \<noteq> []" "gget (rm_tokens rm) resumeToken = Some i"
    and "gget (rm_pending rm) i = None"
    and j: "Join_locked c resumeToken fresh rm = (c', rm')"
  shows "c' = c\<lparr>cl_ID := i, cl_Token := resumeToken, cl_Seq := wrap64 (rm_seqCounter rm + 1)\<rparr>"
    "rm_clients rm' = gset i c' (rm_clients rm)" "rm_pending rm' = rm_pending rm"
    "rm_tokens rm' = rm_tokens rm" "rm_seqCounter rm' = wrap64 (rm_seqCounter rm + 1)"
    "rm_hostID rm' = (if rm_hostID rm = [] then i else rm_hostID rm)"
    "rm_queue rm' = rm_queue rm" "rm_playing rm' = rm_playing rm" "rm_emptyTimer rm' = None"
    "rm_Mode rm' = rm_Mode rm" "rm_settings rm' = rm_settings rm"
  using assms by (auto simp: join_defs)

lemma refine_enter:
  assumes ok: "filed_ok rm" and new: "member_of rm (cl_ID c) = None"
    and tok: "resumeToken = [] \<or> gget (rm_tokens rm) resumeToken = None"
    and room: "in64 (rm_seqCounter rm + 1)"
    and j: "Join_locked c resumeToken fresh rm = (c', rm')"
  shows "members_abs rm' = spec_enter (cl_ID c) fresh (members_abs rm)" and "filed_ok rm'"
proof -
  note f = Join_new [OF tok j]
  show "members_abs rm' = spec_enter (cl_ID c) fresh (members_abs rm)"
    using room by (intro members_eqI) (simp_all add: f spec_enter_def member_of_def split: option.splits)
  show "filed_ok rm'"
    using new filed_okD [OF ok] unfolding filed_ok_def f
    by (auto simp: f member_of_def split: option.splits)
qed

lemma refine_resume:
  assumes ok: "members_ok rm" and tok: "resumeToken \<noteq> []" "gget (rm_tokens rm) resumeToken = Some i"
    and room: "in64 (rm_seqCounter rm + 1)"
    and j: "Join_locked c resumeToken fresh rm = (c', rm')"
  shows "members_abs rm' =
      (if gget (rm_clients rm) i = None then spec_return i (members_abs rm)
       else spec_takeover i (members_abs rm))"
    and "filed_ok rm'"
proof -
  from ok have f: "filed_ok rm" and t: "table_ok (members_abs rm)" by (auto simp: members_ok_def)
  obtain s where s: "member_of rm i = Some (s, resumeToken)"
    using table_okD(3) [OF t, of resumeToken i] tok by auto
  show "members_abs rm' =
      (if gget (rm_clients rm) i = None then spec_return i (members_abs rm)
       else spec_takeover i (members_abs rm))"
  proof (cases "gget (rm_clients rm) i")
    case None
    with s obtain p where p: "gget (rm_pending rm) i = Some p" "pc_seq p = s" "pc_token p = resumeToken"
      by (auto simp: member_of_def)
    with None show ?thesis
      by (intro members_eqI)
        (auto simp: Join_back [OF tok p(1) j] spec_return_def member_of_def split: option.splits)
  next
    case (Some d)
    with filed_okD(5) [OF f] have p: "gget (rm_pending rm) i = None" by blast
    with Some room s show ?thesis
      by (intro members_eqI)
        (auto simp: Join_over [OF tok p j] spec_takeover_def member_of_def split: option.splits)
  qed
  show "filed_ok rm'"
  proof (cases "gget (rm_pending rm) i")
    case None
    with filed_okD [OF f] show ?thesis by (auto simp: filed_ok_def Join_over(2-5) [OF tok None j]) (auto simp: Join_over(1) [OF tok None j])
  next
    case (Some p)
    with filed_okD [OF f] show ?thesis
      by (auto simp: filed_ok_def Join_back(2-5) [OF tok Some j])
        (auto simp: Join_back(1) [OF tok Some j])
  qed
qed

text \<open>What \<open>Leave_locked\<close> leaves behind when it acts.\<close>

lemma Leave_fields:
  assumes "Leave_locked ttl c rm = Some (rm', calls)" and "cl_Token c \<noteq> []"
  shows "rm_clients rm' = gdel (cl_ID c) (rm_clients rm)"
    "\<exists>i. rm_pending rm' = gset (cl_ID c) \<lparr>pc_seq = cl_Seq c, pc_token = cl_Token c,
            pc_nick = cl_Nick c, pc_timer = Some i\<rparr> (rm_pending rm)"
    "rm_tokens rm' = rm_tokens rm" "rm_seqCounter rm' = rm_seqCounter rm"
    "rm_hostID rm' = rm_hostID rm" "rm_queue rm' = rm_queue rm" "rm_playing rm' = rm_playing rm"
    "rm_Mode rm' = rm_Mode rm" "rm_settings rm' = rm_settings rm"
  using assms by (auto simp: Leave_locked_def Let_def case_prod_beta split: if_splits)

lemma refine_drop:
  assumes ok: "members_ok rm" and c: "gget (rm_clients rm) (cl_ID c) = Some c"
    and l: "Leave_locked ttl c rm = Some (rm', calls)"
  shows "members_abs rm' = spec_drop (cl_ID c) (members_abs rm)" and "filed_ok rm'"
proof -
  from ok have f: "filed_ok rm" and t: "table_ok (members_abs rm)" by (auto simp: members_ok_def)
  have "member_of rm (cl_ID c) = Some (cl_Seq c, cl_Token c)" using c by (simp add: member_of_def)
  then have tok: "cl_Token c \<noteq> []" using table_okD(2) [OF t] by simp
  obtain j where p: "rm_pending rm' = gset (cl_ID c) \<lparr>pc_seq = cl_Seq c, pc_token = cl_Token c,
      pc_nick = cl_Nick c, pc_timer = Some j\<rparr> (rm_pending rm)"
    using Leave_fields(2) [OF l tok] by blast
  note lf = Leave_fields(1,3,4) [OF l tok] p
  show "members_abs rm' = spec_drop (cl_ID c) (members_abs rm)"
    using c by (intro members_eqI) (auto simp: lf spec_drop_def member_of_def split: option.splits if_splits)
  show "filed_ok rm'"
    using filed_okD [OF f] unfolding filed_ok_def lf by auto
qed

lemma HardLeave_fields:
  assumes "HardLeave_locked ttl i rm = (rm', calls)"
  shows "rm_clients rm' = gdel i (rm_clients rm)" "rm_pending rm' = gdel i (rm_pending rm)"
    "rm_queue rm' = rm_queue rm" "rm_playing rm' = rm_playing rm" "rm_Mode rm' = rm_Mode rm"
    "rm_settings rm' = rm_settings rm"
  using assms
  by (auto simp: HardLeave_locked_def Let_def gdel_idem split: option.splits)

lemma finalizeLeave_fields:
  assumes "finalizeLeave_locked ttl i rm = Some (rm', calls)"
  shows "rm_clients rm' = rm_clients rm" "rm_pending rm' = gdel i (rm_pending rm)"
    "rm_queue rm' = rm_queue rm" "rm_playing rm' = rm_playing rm" "rm_Mode rm' = rm_Mode rm"
    "rm_settings rm' = rm_settings rm"
  using assms by (auto simp: finalizeLeave_locked_def Let_def split: option.splits)

lemma refine_hard_leave:
  assumes ok: "members_ok rm"
  shows "members_abs (fst (HardLeave_locked ttl i rm)) = spec_forget i (members_abs rm)"
    and "filed_ok (fst (HardLeave_locked ttl i rm))"
proof -
  from ok have f: "filed_ok rm" by (simp add: members_ok_def)
  show "members_abs (fst (HardLeave_locked ttl i rm)) = spec_forget i (members_abs rm)"
    using filed_okD(5) [OF f]
    by (intro members_eqI; cases "gget (rm_clients rm) i"; cases "gget (rm_pending rm) i")
      (auto simp: HardLeave_locked_def Let_def spec_forget_def member_of_def split: option.splits)
  show "filed_ok (fst (HardLeave_locked ttl i rm))"
    using filed_okD [OF f]
    by (cases "gget (rm_clients rm) i"; cases "gget (rm_pending rm) i")
      (auto simp: HardLeave_locked_def Let_def filed_ok_def)
qed

lemma refine_finalize:
  assumes ok: "members_ok rm" and l: "finalizeLeave_locked ttl i rm = Some (rm', calls)"
  shows "members_abs rm' = spec_forget i (members_abs rm)" and "filed_ok rm'"
proof -
  from ok have f: "filed_ok rm" by (simp add: members_ok_def)
  from l obtain p where p: "gget (rm_pending rm) i = Some p"
    by (auto simp: finalizeLeave_locked_def split: option.splits)
  then have off: "gget (rm_clients rm) i = None" using filed_okD(5) [OF f] by (cases "gget (rm_clients rm) i") auto
  show "members_abs rm' = spec_forget i (members_abs rm)"
    using l p off
    by (intro members_eqI) (auto simp: finalizeLeave_locked_def Let_def spec_forget_def member_of_def split: option.splits)
  show "filed_ok rm'"
    using l p filed_okD [OF f] by (auto simp: finalizeLeave_locked_def Let_def filed_ok_def)
qed

end
