(* ===== verification/Room_Steps.thy ===== *)
theory Room_Steps
  imports Member_Spec
begin

section \<open>A room under concurrent handlers\<close>

text \<open>
  Handlers of several connections, the pipeline's callbacks and the timers run in goroutines of
  their own; what is atomic is a section under the room's mutex. \<open>room_step\<close> has one rule for each
  section, so every interleaving of handlers is a run of it (and more runs than the program has:
  any section may run at any time). An invariant of \<open>room_reachable\<close> therefore holds at every
  point where the mutex is free, whatever the order in which handlers get it.

  The guards on the rules are facts about the callers: a connection that enters without a valid
  token does not carry the id of a member (it is a fresh uuid; a connection keeps its id after
  \<^verbatim>\<open>bye\<close>, and two that shared one member and both said \<^verbatim>\<open>bye\<close> could break this) and \<^verbatim>\<open>genToken\<close>
  never repeats a token; the handler that leaves holds the pointer the room filed; a section of one
  mode is not called in the other.
\<close>

inductive room_step :: "Room \<Rightarrow> Room \<Rightarrow> bool" where
  join: "\<lbrakk>Join_locked c resumeToken fresh rm = (c', rm'); fresh \<noteq> []; gget (rm_tokens rm) fresh = None;
          in64 (rm_seqCounter rm + 1);
          resumeToken = [] \<or> gget (rm_tokens rm) resumeToken = None \<Longrightarrow> member_of rm (cl_ID c) = None\<rbrakk>
         \<Longrightarrow> room_step rm rm'"
| leave: "\<lbrakk>gget (rm_clients rm) (cl_ID c) = Some c; Leave_locked ttl c rm = Some (rm', calls)\<rbrakk>
         \<Longrightarrow> room_step rm rm'"
| hard_leave: "HardLeave_locked ttl i rm = (rm', calls) \<Longrightarrow> room_step rm rm'"
| finalize: "finalizeLeave_locked ttl i rm = Some (rm', calls) \<Longrightarrow> room_step rm rm'"
| settings: "room_step rm (rm\<lparr>rm_settings := clampSettings s\<rparr>)"
| progress: "room_step rm (rm\<lparr>rm_health := gset i h (rm_health rm)\<rparr>)"
| ready: "MarkReady_locked i t rm = Ok (rm', np, b) \<Longrightarrow> room_step rm rm'"
| start: "startPlayback_locked clk t rm = Some (rm', pb) \<Longrightarrow> room_step rm rm'"
| pause: "\<not> isStream rm \<Longrightarrow> Pause_locked clk rm = Some (rm', pb) \<Longrightarrow> room_step rm rm'"
| resume: "\<not> isStream rm \<Longrightarrow> Resume_locked clk rm = Some (rm', pb) \<Longrightarrow> room_step rm rm'"
| seek: "\<not> isStream rm \<Longrightarrow> SeekTo_locked clk ms rm = Some (rm', pb) \<Longrightarrow> room_step rm rm'"
| prepare: "\<not> isStream rm \<Longrightarrow> maybeStart_locked rm = Some (rm', pb) \<Longrightarrow> room_step rm rm'"
| stream_start: "isStream rm \<Longrightarrow> streamMaybeStart_locked rm = Some (rm', tr) \<Longrightarrow> room_step rm rm'"
| end_track: "endTrack_locked t rm = Some rm' \<Longrightarrow> room_step rm rm'"
| stream_end: "streamEndTrack_locked t rm = Some rm' \<Longrightarrow> room_step rm rm'"
| upsert: "room_step rm (rm\<lparr>rm_queue := upsert t (rm_queue rm)\<rparr>)"
| remove: "playingID rm \<noteq> Some t \<Longrightarrow>
           room_step rm (rm\<lparr>rm_queue := delete_first (\<lambda>u. tr_ID u = t) (rm_queue rm)\<rparr>)"
| cleanup: "room_step rm (cleanupMedia_locked rm)"
| fired: "room_step rm (rm\<lparr>rm_timers := gdel n (rm_timers rm)\<rparr>)"

inductive room_reachable :: "Room \<Rightarrow> bool" where
  created: "room_reachable (newRoom code mode port cacheMgr src bc)"
| stepped: "room_reachable rm \<Longrightarrow> room_step rm rm' \<Longrightarrow> room_reachable rm'"

subsection \<open>The invariant\<close>

text \<open>A track is in the queue once, and the playing track is in it.\<close>

definition queue_ok :: "Room \<Rightarrow> bool" where
  "queue_ok rm \<longleftrightarrow>
     distinct (List.map tr_ID (rm_queue rm))
     \<and> (\<forall>pb. rm_playing rm = Some pb \<longrightarrow> pb_trackID pb \<in> set (List.map tr_ID (rm_queue rm)))"

text \<open>
  The playback: paused only when started; an end timer is set exactly while a started track of
  known length is not paused; the ready map is nil exactly in stream rooms.
\<close>

definition playing_ok :: "Room \<Rightarrow> bool" where
  "playing_ok rm \<longleftrightarrow>
     (\<forall>pb. rm_playing rm = Some pb \<longrightarrow>
        (pb_paused pb \<longrightarrow> pb_started pb)
        \<and> (pb_endTimer pb \<noteq> None \<longleftrightarrow> pb_started pb \<and> \<not> pb_paused pb \<and> 0 < pb_durationMs pb)
        \<and> (pb_ready pb = None \<longleftrightarrow> isStream rm))"

text \<open>The removal timer is set only while nobody is connected.\<close>

definition empty_timer_ok :: "Room \<Rightarrow> bool" where
  "empty_timer_ok rm \<longleftrightarrow> (rm_emptyTimer rm \<noteq> None \<longrightarrow> rm_clients rm = [])"

definition settings_ok :: "RoomSettings \<Rightarrow> bool" where
  "settings_ok s \<longleftrightarrow>
     (set_Sync s = SyncResponsive \<or> set_Sync s = SyncTight)
     \<and> MemLimitMinMB \<le> set_MemLimitMB s \<and> set_MemLimitMB s \<le> MemLimitMaxMB
     \<and> StreamBitrateMinKbps \<le> set_StreamBitrateKbps s
     \<and> set_StreamBitrateKbps s \<le> StreamBitrateMaxKbps"

definition room_ok :: "Room \<Rightarrow> bool" where
  "room_ok rm \<longleftrightarrow>
     members_ok rm \<and> queue_ok rm \<and> playing_ok rm \<and> empty_timer_ok rm \<and> settings_ok (rm_settings rm)"

lemma clampSettings_ok [simp]: "settings_ok (clampSettings s)"
  by (simp add: settings_ok_def clampSettings_def Let_def limit_defs)

lemma DefaultSettings_ok [simp]: "settings_ok DefaultSettings"
  by (simp add: settings_ok_def DefaultSettings_def limit_defs)

lemma room_ok_new: "room_ok (newRoom code mode port cacheMgr src bc)"
  by (simp add: room_ok_def newRoom_def members_ok_def filed_ok_def table_ok_def member_of_def
      queue_ok_def playing_ok_def empty_timer_ok_def)

subsection \<open>Sections of playback\<close>

lemma plays_keeps:
  assumes ok: "room_ok rm" and p: "plays rm pb rm'"
    and pb: "pb_trackID pb \<in> set (List.map tr_ID (rm_queue rm))"
      "pb_paused pb \<longrightarrow> pb_started pb"
      "pb_endTimer pb \<noteq> None \<longleftrightarrow> pb_started pb \<and> \<not> pb_paused pb \<and> 0 < pb_durationMs pb"
      "pb_ready pb = None \<longleftrightarrow> isStream rm"
  shows "room_ok rm'"
  using ok pb plays_fields [OF p] members_abs_cong(2) [of rm' rm]
  by (simp add: room_ok_def queue_ok_def playing_ok_def empty_timer_ok_def)

lemma room_okD:
  assumes "room_ok rm"
  shows "members_ok rm" "queue_ok rm" "playing_ok rm" "empty_timer_ok rm" "settings_ok (rm_settings rm)"
    and "distinct (List.map tr_ID (rm_queue rm))"
    and "rm_playing rm = Some pb \<Longrightarrow> pb_trackID pb \<in> set (List.map tr_ID (rm_queue rm))"
    and "rm_playing rm = Some pb \<Longrightarrow> pb_paused pb \<Longrightarrow> pb_started pb"
    and "rm_playing rm = Some pb \<Longrightarrow>
      pb_endTimer pb \<noteq> None \<longleftrightarrow> pb_started pb \<and> \<not> pb_paused pb \<and> 0 < pb_durationMs pb"
    and "rm_playing rm = Some pb \<Longrightarrow> pb_ready pb = None \<longleftrightarrow> isStream rm"
  using assms by (auto simp: room_ok_def queue_ok_def playing_ok_def)

lemma start_keeps [inv_intros]:
  assumes ok: "room_ok rm" and s: "startPlayback_locked clk t rm = Some (rm', pb)"
  shows "room_ok rm'"
  using s
proof (rule startPlayback_acts)
  fix pb0 e
  assume a: "rm_playing rm = Some pb0" "\<not> pb_started pb0" "plays rm pb rm'"
    "pb = pb0\<lparr>pb_started := True, pb_t0 := wrap64 (clk 0 + startBufferMs), pb_s := 0,
              pb_endTimer := e\<rparr>"
    "e = None \<longleftrightarrow> pb_paused pb0 \<or> pb_durationMs pb0 \<le> 0"
  show ?thesis
    using room_okD(7-10) [OF ok a(1)] a(2,5)
    by (intro plays_keeps [OF ok a(3)]) (auto simp: a(4))
qed

lemma pause_keeps [inv_intros]:
  assumes ok: "room_ok rm" and s: "Pause_locked clk rm = Some (rm', pb)"
  shows "room_ok rm'"
  using s
proof (rule Pause_acts)
  fix pb0
  assume a: "rm_playing rm = Some pb0" "pb_started pb0" "\<not> pb_paused pb0" "plays rm pb rm'"
    "pb = pb0\<lparr>pb_s := wrap64 (pb_s pb0 + (clk 0 - pb_t0 pb0)), pb_t0 := clk 1, pb_paused := True,
              pb_endTimer := None\<rparr>"
  show ?thesis
    using room_okD(7-10) [OF ok a(1)] a(2,3,5) by (intro plays_keeps [OF ok a(4)]) auto
qed

lemma resume_keeps [inv_intros]:
  assumes ok: "room_ok rm" and s: "Resume_locked clk rm = Some (rm', pb)"
  shows "room_ok rm'"
  using s
proof (rule Resume_acts)
  fix pb0 e
  assume a: "rm_playing rm = Some pb0" "pb_started pb0" "plays rm pb rm'"
    "pb = pb0\<lparr>pb_t0 := wrap64 (clk 0 + startBufferMs), pb_paused := False,
              pb_endTimer := e\<rparr>"
    "e = None \<longleftrightarrow> pb_durationMs pb0 \<le> 0"
  show ?thesis
    using room_okD(7-10) [OF ok a(1)] a(2,5)
    by (intro plays_keeps [OF ok a(3)]) (auto simp: a(4))
qed

lemma seek_keeps [inv_intros]:
  assumes ok: "room_ok rm" and s: "SeekTo_locked clk ms rm = Some (rm', pb)"
  shows "room_ok rm'"
  using s
proof (rule SeekTo_acts)
  fix pb0 e
  assume a: "rm_playing rm = Some pb0" "pb_started pb0" "plays rm pb rm'"
    "pb = pb0\<lparr>pb_s := max 0 ms,
              pb_t0 := (if pb_paused pb0 then clk 0 else wrap64 (clk 0 + startBufferMs)),
              pb_endTimer := e\<rparr>"
    "e = None \<longleftrightarrow> pb_paused pb0 \<or> pb_durationMs pb0 \<le> 0"
  show ?thesis
    using room_okD(7-10) [OF ok a(1)] a(2,5)
    by (intro plays_keeps [OF ok a(3)]) (auto simp: a(4))
qed

lemma firstReady_in_queue: "firstReady q = Some t \<Longrightarrow> t \<in> set q \<and> tr_Status t = StatusReady"
  unfolding firstReady_def using find_split by fastforce

lemma prepare_keeps [inv_intros]:
  assumes ok: "room_ok rm" and s: "maybeStart_locked rm = Some (rm', pb)" and m: "\<not> isStream rm"
  shows "room_ok rm'"
  using maybeStart_acts [OF s] m
  by (intro plays_keeps [OF ok]) (auto dest: firstReady_in_queue)

lemma ready_keeps [inv_intros]:
  assumes ok: "room_ok rm" and s: "MarkReady_locked i t rm = Ok (rm', np, b)"
  shows "room_ok rm'"
  using s
proof (cases rule: MarkReady_locked_cases)
  case ignored
  with ok show ?thesis by simp
next
  case (marked pb m)
  let ?pb = "pb\<lparr>pb_ready := Some (gset i True m)\<rparr>"
  have "plays rm ?pb rm'" by (simp add: plays_def marked(5))
  then show ?thesis using room_okD(7-10) [OF ok marked(1)] marked(3)
    by (intro plays_keeps [OF ok, of ?pb]) auto
qed

text \<open>A change that leaves members, clients, mode and settings alone.\<close>

lemma room_ok_cong:
  assumes ok: "room_ok rm" and "queue_ok rm'" "playing_ok rm'"
    and "rm_clients rm' = rm_clients rm" "rm_pending rm' = rm_pending rm"
      "rm_tokens rm' = rm_tokens rm" "rm_seqCounter rm' = rm_seqCounter rm"
      "rm_emptyTimer rm' = rm_emptyTimer rm \<or> rm_emptyTimer rm' = None"
      "settings_ok (rm_settings rm')"
  shows "room_ok rm'"
  using assms members_abs_cong(2) [of rm' rm] by (auto simp: room_ok_def empty_timer_ok_def)

lemma stream_start_keeps [inv_intros]:
  assumes ok: "room_ok rm" and s: "streamMaybeStart_locked rm = Some (rm', tr)" and m: "isStream rm"
  shows "room_ok rm'"
proof -
  from s have tr: "firstReady (rm_queue rm) = Some tr"
    by (auto simp: streamMaybeStart_locked_def split: if_splits option.splits)
  let ?pb = "\<lparr>pb_trackID = tr_ID tr, pb_fileURL = [], pb_title = tr_Title tr,
     pb_durationMs = tr_DurationMs tr, pb_ready = None, pb_started = False, pb_paused = False,
     pb_t0 = 0, pb_s = 0, pb_readyTimer = None, pb_endTimer = None\<rparr>"
  have "plays rm ?pb rm'"
    using s tr by (auto simp: streamMaybeStart_locked_def plays_def split: if_splits)
  then show ?thesis using firstReady_in_queue [OF tr] m by (intro plays_keeps [OF ok]) auto
qed

lemma delete_keeps_queue:
  assumes "room_ok rm" "rm_queue rm' = delete_first (\<lambda>u. tr_ID u = t) (rm_queue rm)"
    "\<And>pb. rm_playing rm' = Some pb \<Longrightarrow> rm_playing rm = Some pb \<and> pb_trackID pb \<noteq> t"
  shows "queue_ok rm'"
proof -
  have m: "List.map tr_ID (rm_queue rm') = filter (\<lambda>b. b \<noteq> t) (List.map tr_ID (rm_queue rm))"
    unfolding assms(2) by (rule map_delete_first_distinct) (rule room_okD(6) [OF assms(1)])
  show ?thesis
    unfolding queue_ok_def m
    using room_okD(6) [OF assms(1)] room_okD(7) [OF assms(1)] assms(3) by auto
qed

lemma end_keeps [inv_intros]:
  assumes ok: "room_ok rm" and s: "endTrack_locked t rm = Some rm'"
  shows "room_ok rm'"
proof -
  from s have f: "rm_queue rm' = delete_first (\<lambda>u. tr_ID u = t) (rm_queue rm)" "rm_playing rm' = None"
    "rm_clients rm' = rm_clients rm" "rm_pending rm' = rm_pending rm" "rm_tokens rm' = rm_tokens rm"
    "rm_seqCounter rm' = rm_seqCounter rm" "rm_emptyTimer rm' = rm_emptyTimer rm"
    "rm_settings rm' = rm_settings rm"
    by (auto simp: endTrack_locked_def Let_def split: option.splits if_splits)
  show ?thesis
    by (rule room_ok_cong [OF ok delete_keeps_queue [OF ok f(1)]])
      (use f room_okD(5) [OF ok] in \<open>simp_all add: playing_ok_def\<close>)
qed

lemma stream_end_keeps [inv_intros]:
  assumes ok: "room_ok rm" and s: "streamEndTrack_locked t rm = Some rm'"
  shows "room_ok rm'"
proof -
  from s have f: "rm' = rm\<lparr>rm_queue := delete_first (\<lambda>u. tr_ID u = t) (rm_queue rm), rm_playing := None\<rparr>"
    by (auto simp: streamEndTrack_locked_def split: option.splits if_splits)
  show ?thesis
    by (rule room_ok_cong [OF ok delete_keeps_queue [OF ok]])
      (use f room_okD(5) [OF ok] in \<open>simp_all add: playing_ok_def\<close>)
qed

lemma map_upsert:
  "List.map tr_ID (upsert t q) =
     (if tr_ID t \<in> set (List.map tr_ID q) then List.map tr_ID q else List.map tr_ID q @ [tr_ID t])"
  using map_replace_first [of tr_ID t q]
  by (auto simp: upsert_def list_ex_iff intro: rev_image_eqI)

lemma upsert_keeps [inv_intros]:
  assumes ok: "room_ok rm" shows "room_ok (rm\<lparr>rm_queue := upsert t (rm_queue rm)\<rparr>)"
proof -
  have "queue_ok (rm\<lparr>rm_queue := upsert t (rm_queue rm)\<rparr>)"
    using room_okD(6,7) [OF ok] unfolding queue_ok_def by (simp add: map_upsert del: set_map)
  then show ?thesis
    by (rule room_ok_cong [OF ok])
      (use room_okD(3,5) [OF ok] in \<open>simp_all add: playing_ok_def isStream_def\<close>)
qed

lemma remove_keeps [inv_intros]:
  assumes ok: "room_ok rm" and "playingID rm \<noteq> Some t"
  shows "room_ok (rm\<lparr>rm_queue := delete_first (\<lambda>u. tr_ID u = t) (rm_queue rm)\<rparr>)"
proof -
  have "queue_ok (rm\<lparr>rm_queue := delete_first (\<lambda>u. tr_ID u = t) (rm_queue rm)\<rparr>)"
    by (rule delete_keeps_queue [OF ok, where t = t]) (use assms(2) in \<open>auto simp: playingID_def\<close>)
  then show ?thesis
    by (rule room_ok_cong [OF ok])
      (use room_okD(3,5) [OF ok] in \<open>simp_all add: playing_ok_def isStream_def\<close>)
qed

lemma stop_pending_fields [simp]:
  "rm_clients (stop_pending ps rm) = rm_clients rm" "rm_pending (stop_pending ps rm) = rm_pending rm"
  "rm_tokens (stop_pending ps rm) = rm_tokens rm"
  "rm_seqCounter (stop_pending ps rm) = rm_seqCounter rm"
  "rm_emptyTimer (stop_pending ps rm) = rm_emptyTimer rm"
  "rm_settings (stop_pending ps rm) = rm_settings rm"
  by (induction ps arbitrary: rm) simp_all

lemma cleanupMedia_fields:
  "rm_clients (cleanupMedia_locked rm) = rm_clients rm"
  "rm_pending (cleanupMedia_locked rm) = rm_pending rm"
  "rm_tokens (cleanupMedia_locked rm) = rm_tokens rm"
  "rm_seqCounter (cleanupMedia_locked rm) = rm_seqCounter rm"
  "rm_emptyTimer (cleanupMedia_locked rm) = None"
  "rm_settings (cleanupMedia_locked rm) = rm_settings rm"
  "rm_playing (cleanupMedia_locked rm) = None" "rm_queue (cleanupMedia_locked rm) = []"
  by (simp_all add: cleanupMedia_locked_def Let_def stopEmptyTimerLocked_def split: option.splits)

lemma cleanup_keeps [inv_intros]:
  assumes ok: "room_ok rm" shows "room_ok (cleanupMedia_locked rm)"
  by (rule room_ok_cong [OF ok])
    (use room_okD(5) [OF ok] in \<open>simp_all add: cleanupMedia_fields queue_ok_def playing_ok_def\<close>)

subsection \<open>Sections of membership\<close>

text \<open>A change of the members alone.\<close>

lemma room_ok_members:
  assumes ok: "room_ok rm" and "members_ok rm'" "empty_timer_ok rm'"
    and "rm_queue rm' = rm_queue rm" "rm_playing rm' = rm_playing rm" "rm_Mode rm' = rm_Mode rm"
      "rm_settings rm' = rm_settings rm"
  shows "room_ok rm'"
  using assms by (simp add: room_ok_def queue_ok_def playing_ok_def isStream_def)

lemma empty_timer_scheduled:
  "e = (rm_clients rm = []) \<Longrightarrow> empty_timer_ok (scheduleEmptyTimerLocked ttl e rm)"
  by (auto simp: empty_timer_ok_def scheduleEmptyTimerLocked_def stopEmptyTimerLocked_def
      case_prod_beta)

lemma join_keeps [inv_intros]:
  assumes ok: "room_ok rm" and j: "Join_locked c resumeToken fresh rm = (c', rm')"
    and fresh: "fresh \<noteq> []" "gget (rm_tokens rm) fresh = None" and room: "in64 (rm_seqCounter rm + 1)"
    and new: "resumeToken = [] \<or> gget (rm_tokens rm) resumeToken = None \<Longrightarrow>
      member_of rm (cl_ID c) = None"
  shows "room_ok rm'"
proof (cases "resumeToken = [] \<or> gget (rm_tokens rm) resumeToken = None")
  case True
  note f = Join_new [OF True j]
  from room_okD(1) [OF ok] have m: "filed_ok rm" "table_ok (members_abs rm)"
    by (simp_all add: members_ok_def)
  have "members_ok rm'"
    unfolding members_ok_def
    using refine_enter [OF m(1) new [OF True] True room j] new [OF True] fresh
    by (auto intro: table_ok_enter [OF m(2)])
  then show ?thesis
    by (rule room_ok_members [OF ok]) (simp_all add: f empty_timer_ok_def)
next
  case False
  then obtain i where tok: "resumeToken \<noteq> []" "gget (rm_tokens rm) resumeToken = Some i" by auto
  from room_okD(1) [OF ok] have m: "members_ok rm" "table_ok (members_abs rm)"
    by (simp_all add: members_ok_def)
  obtain s where "member_of rm i = Some (s, resumeToken)"
    using table_okD(3) [OF m(2), of resumeToken i] tok by auto
  then have "table_ok (members_abs rm')"
    using refine_resume(1) [OF m(1) tok room j] m(2)
    by (auto intro: table_ok_return table_ok_takeover)
  then have ok': "members_ok rm'"
    using refine_resume(2) [OF m(1) tok room j] by (simp add: members_ok_def)
  have "rm_queue rm' = rm_queue rm \<and> rm_playing rm' = rm_playing rm \<and> rm_Mode rm' = rm_Mode rm
      \<and> rm_settings rm' = rm_settings rm \<and> rm_emptyTimer rm' = None"
    using Join_back [OF tok _ j] Join_over [OF tok _ j] by (cases "gget (rm_pending rm) i") auto
  then show ?thesis
    by (intro room_ok_members [OF ok ok']) (auto simp: empty_timer_ok_def)
qed

lemma leave_keeps [inv_intros]:
  assumes ok: "room_ok rm" and c: "gget (rm_clients rm) (cl_ID c) = Some c"
    and l: "Leave_locked ttl c rm = Some (rm', calls)"
  shows "room_ok rm'"
proof -
  from room_okD(1) [OF ok] have m: "members_ok rm" "table_ok (members_abs rm)"
    by (simp_all add: members_ok_def)
  have "member_of rm (cl_ID c) = Some (cl_Seq c, cl_Token c)" using c by (simp add: member_of_def)
  then have tok: "cl_Token c \<noteq> []" using table_okD(2) [OF m(2)] by simp
  have "members_ok rm'"
    unfolding members_ok_def using refine_drop [OF m(1) c l] table_ok_drop [OF m(2)] by simp
  moreover have "empty_timer_ok rm'"
    using l tok
    by (auto simp: Leave_locked_def Let_def case_prod_beta empty_timer_scheduled
        simp del: scheduleEmpty_fields split: if_splits)
  ultimately show ?thesis
    by (rule room_ok_members [OF ok])
      (use l tok in \<open>auto simp: Leave_locked_def Let_def case_prod_beta split: if_splits\<close>)
qed

lemma hard_leave_keeps [inv_intros]:
  assumes ok: "room_ok rm" and l: "HardLeave_locked ttl i rm = (rm', calls)"
  shows "room_ok rm'"
proof -
  from room_okD(1) [OF ok] have m: "members_ok rm" "table_ok (members_abs rm)"
    by (simp_all add: members_ok_def)
  have "members_ok rm'"
    unfolding members_ok_def
    using refine_hard_leave [OF m(1), of ttl i] table_ok_forget [OF m(2)] by (simp add: l)
  moreover have "empty_timer_ok rm'"
    using l by (auto simp: HardLeave_locked_def Let_def empty_timer_scheduled simp del: scheduleEmpty_fields)
  ultimately show ?thesis
    by (rule room_ok_members [OF ok]) (simp_all add: HardLeave_fields [OF l])
qed

lemma finalize_keeps [inv_intros]:
  assumes ok: "room_ok rm" and l: "finalizeLeave_locked ttl i rm = Some (rm', calls)"
  shows "room_ok rm'"
proof -
  from room_okD(1) [OF ok] have m: "members_ok rm" "table_ok (members_abs rm)"
    by (simp_all add: members_ok_def)
  have "members_ok rm'"
    unfolding members_ok_def using refine_finalize [OF m(1) l] table_ok_forget [OF m(2)] by simp
  moreover have "empty_timer_ok rm'"
    using l by (auto simp: finalizeLeave_locked_def Let_def empty_timer_scheduled
        simp del: scheduleEmpty_fields split: option.splits)
  ultimately show ?thesis
    by (rule room_ok_members [OF ok]) (simp_all add: finalizeLeave_fields [OF l])
qed

subsection \<open>Every reachable room\<close>

lemma step_keeps: "room_step rm rm' \<Longrightarrow> room_ok rm \<Longrightarrow> room_ok rm'"
proof (induction rule: room_step.induct)
  case (join c resumeToken fresh rm c' rm')
  then show ?case by (intro join_keeps [of rm c resumeToken fresh c' rm'])
next
  case (settings rm s)
  show ?case by (rule room_ok_cong [OF settings])
      (use room_okD(2,3) [OF settings] in \<open>simp_all add: queue_ok_def playing_ok_def isStream_def\<close>)
next
  case (progress rm i h)
  show ?case by (rule room_ok_cong [OF progress])
      (use room_okD(2,3,5) [OF progress] in \<open>simp_all add: queue_ok_def playing_ok_def isStream_def\<close>)
next
  case (fired rm n)
  show ?case by (rule room_ok_cong [OF fired])
      (use room_okD(2,3,5) [OF fired] in \<open>simp_all add: queue_ok_def playing_ok_def isStream_def\<close>)
qed (blast intro: inv_intros)+

lemma reachable_ok: "room_reachable rm \<Longrightarrow> room_ok rm"
proof (induction rule: room_reachable.induct)
  case created
  show ?case by (rule room_ok_new)
next
  case (stepped rm rm')
  then show ?case by (blast intro: step_keeps)
qed

end
