(* ===== verification/Demo.thy ===== *)
theory Demo
  imports Room_Steps
begin

section \<open>Concrete rooms\<close>

text \<open>
  Small rooms on which the witnesses apply the properties: two clients, two tracks, a signal and
  a stream room with both clients in them.
\<close>

definition alice :: Client where
  "alice = \<lparr>cl_ref = 1, cl_ID = ''a'', cl_Nick = ''Alice'', cl_Seq = 0, cl_Token = []\<rparr>"

definition bob :: Client where
  "bob = \<lparr>cl_ref = 2, cl_ID = ''b'', cl_Nick = ''Bob'', cl_Seq = 0, cl_Token = []\<rparr>"

text \<open>The two as the room files them.\<close>

definition aliceIn :: Client where
  "aliceIn = \<lparr>cl_ref = 1, cl_ID = ''a'', cl_Nick = ''Alice'', cl_Seq = 1, cl_Token = ''ta''\<rparr>"

definition bobIn :: Client where
  "bobIn = \<lparr>cl_ref = 2, cl_ID = ''b'', cl_Nick = ''Bob'', cl_Seq = 2, cl_Token = ''tb''\<rparr>"

definition track :: "string \<Rightarrow> Track" where
  "track i = \<lparr>tr_ID = i, tr_SourceURL = ''u'', tr_Status = StatusReady, tr_Title = [],
             tr_FileURL = ''f'', tr_DurationMs = 300000\<rparr>"

definition demoRoom :: "RoomMode \<Rightarrow> Room" where
  "demoRoom mode =
     (newRoom ''R'' mode 0 False False (mode = ModeStream))
       \<lparr>rm_clients := [(''a'', aliceIn), (''b'', bobIn)], rm_hostID := ''a'', rm_seqCounter := 2,
        rm_tokens := [(''ta'', ''a''), (''tb'', ''b'')]\<rparr>"

lemmas demo_defs = alice_def bob_def aliceIn_def bobIn_def track_def demoRoom_def newRoom_def

lemma demoRoom_reachable: "room_reachable (demoRoom mode)"
proof -
  let ?r0 = "newRoom ''R'' mode 0 False False (mode = ModeStream)"
  let ?r1 = "snd (Join_locked alice [] ''ta'' ?r0)"
  let ?r2 = "snd (Join_locked bob [] ''tb'' ?r1)"
  have "room_reachable ?r0" by (rule created)
  moreover have "room_step ?r0 ?r1"
    by (rule room_step.join [where c = alice and resumeToken = "[]" and fresh = "''ta''"
          and c' = "fst (Join_locked alice [] ''ta'' ?r0)"])
      (simp_all add: newRoom_def member_of_def in64_def)
  ultimately have "room_reachable ?r1" by (rule stepped)
  moreover have "room_step ?r1 ?r2"
    by (rule room_step.join [where c = bob and resumeToken = "[]" and fresh = "''tb''"
          and c' = "fst (Join_locked bob [] ''tb'' ?r1)"])
      (simp_all add: demo_defs join_defs member_of_def in64_def stopEmptyTimerLocked_def)
  ultimately have "room_reachable ?r2" by (rule stepped)
  moreover have "?r2 = demoRoom mode"
    by (simp add: demo_defs join_defs stopEmptyTimerLocked_def in64_def)
  ultimately show ?thesis by simp
qed

lemma demoRoom_ok: "room_ok (demoRoom mode)"
  by (rule reachable_ok) (rule demoRoom_reachable)

end
