(* ===== verification/Player.thy ===== *)
theory Player
  imports Demo
begin

section \<open>Playing a queue: the contract both modes share\<close>

text \<open>
  Signal mode (\<^verbatim>\<open>endTrack\<close>, playback.go) and stream mode (\<^verbatim>\<open>streamEndTrack\<close>, stream.go) advance
  through the queue in the same way. The locale \<open>queue_player\<close> states the contract: finishing
  the current track takes it out of the queue and makes the first ready track of what is left
  current; finishing anything else does nothing. What follows from the contract is proved once:
  a track is finished once however many ends race for it, and finishing the current track again
  and again plays every ready track of the queue, in its order, and stops. Both modes interpret
  the locale.
\<close>

definition queueIDs :: "Room \<Rightarrow> string list" where
  "queueIDs rm = List.map tr_ID (rm_queue rm)"

definition readyIDs :: "Room \<Rightarrow> string list" where
  "readyIDs rm = List.map tr_ID (filter (\<lambda>t. tr_Status t = StatusReady) (rm_queue rm))"

text \<open>What is heard when every current track is finished, for at most \<open>n\<close> tracks.\<close>

fun heard :: "('r \<Rightarrow> string option) \<Rightarrow> (string \<Rightarrow> 'r \<Rightarrow> 'r \<times> 'c list) \<Rightarrow> nat \<Rightarrow> 'r \<Rightarrow> string list" where
  "heard cur fin 0 r = []"
| "heard cur fin (Suc n) r =
     (case cur r of None \<Rightarrow> [] | Some t \<Rightarrow> t # heard cur fin n (fst (fin t r)))"

locale queue_player =
  fixes ok :: "'r \<Rightarrow> bool"
    and current :: "'r \<Rightarrow> string option"
    and queued :: "'r \<Rightarrow> string list"
    and ready :: "'r \<Rightarrow> string list"
    and finish :: "string \<Rightarrow> 'r \<Rightarrow> 'r \<times> 'c list"
  assumes distinct_ready: "ok r \<Longrightarrow> distinct (ready r)"
    and finish_ok: "ok r \<Longrightarrow> ok (fst (finish t r))"
    and finish_other: "ok r \<Longrightarrow> current r \<noteq> Some t \<Longrightarrow> finish t r = (r, [])"
    and finish_queue: "ok r \<Longrightarrow> current r = Some t \<Longrightarrow>
      queued (fst (finish t r)) = filter (\<lambda>i. i \<noteq> t) (queued r)"
    and finish_ready: "ok r \<Longrightarrow> current r = Some t \<Longrightarrow>
      ready (fst (finish t r)) = filter (\<lambda>i. i \<noteq> t) (ready r)"
    and finish_next: "ok r \<Longrightarrow> current r = Some t \<Longrightarrow>
      current (fst (finish t r)) =
        (case filter (\<lambda>i. i \<noteq> t) (ready r) of [] \<Rightarrow> None | i # _ \<Rightarrow> Some i)"
begin

lemma next_differs:
  assumes "ok r" and "current r = Some t"
  shows "current (fst (finish t r)) \<noteq> Some t"
proof (cases "filter (\<lambda>i. i \<noteq> t) (ready r)")
  case (Cons i js)
  have "i \<in> set (filter (\<lambda>i. i \<noteq> t) (ready r))" unfolding Cons by simp
  then have "i \<noteq> t" by simp
  with Cons show ?thesis using finish_next [OF assms] by simp
qed (simp add: finish_next [OF assms])

lemma finish_once:
  assumes "ok r" and "current r = Some t"
  shows "finish t (fst (finish t r)) = (fst (finish t r), [])"
  by (rule finish_other [OF finish_ok [OF assms(1)] next_differs [OF assms]])

lemma heard_all:
  assumes "ok r" and "current r = Some t" and "length (filter (\<lambda>i. i \<noteq> t) (ready r)) < n"
  shows "heard current finish n r = t # filter (\<lambda>i. i \<noteq> t) (ready r)"
  using assms
proof (induction n arbitrary: r t)
  case (Suc n)
  let ?r = "fst (finish t r)" and ?rest = "filter (\<lambda>i. i \<noteq> t) (ready r)"
  show ?case
  proof (cases ?rest)
    case Nil
    then have "current ?r = None" using finish_next [OF Suc.prems(1,2)] by simp
    then have "heard current finish n ?r = []" by (cases n) simp_all
    with Suc.prems Nil show ?thesis by simp
  next
    case (Cons i js)
    then have cur: "current ?r = Some i" using finish_next [OF Suc.prems(1,2)] by simp
    have rd: "ready ?r = i # js" using finish_ready [OF Suc.prems(1,2)] Cons by simp
    have "distinct (i # js)"
      using distinct_filter [OF distinct_ready [OF Suc.prems(1)], of "\<lambda>i. i \<noteq> t"] Cons by simp
    then have "filter (\<lambda>k. k \<noteq> i) (ready ?r) = js" by (auto simp: rd filter_id_conv)
    then show ?thesis
      using Suc.IH [OF finish_ok [OF Suc.prems(1)] cur] Suc.prems Cons by simp
  qed
qed simp

end

subsection \<open>Queues\<close>

lemma delete_first_filter:
  "distinct (List.map f xs) \<Longrightarrow> delete_first (\<lambda>u. f u = t) xs = filter (\<lambda>u. f u \<noteq> t) xs"
proof (induction xs)
  case (Cons x xs)
  show ?case
  proof (cases "f x = t")
    case True
    with Cons.prems have "\<forall>u \<in> set xs. f u \<noteq> t" by (force simp: image_iff)
    with True show ?thesis by simp
  qed (use Cons in simp)
qed simp

lemma find_filter: "find P xs = (case filter P xs of [] \<Rightarrow> None | x # _ \<Rightarrow> Some x)"
  by (induction xs) simp_all

lemma map_filter_ids: "List.map tr_ID (filter (\<lambda>u. tr_ID u \<noteq> t) q) = filter (\<lambda>i. i \<noteq> t) (List.map tr_ID q)"
  by (simp add: filter_map comp_def)

lemma distinct_ready_ids: "room_ok rm \<Longrightarrow> distinct (readyIDs rm)"
  by (simp add: readyIDs_def distinct_map_filter room_okD(6))

lemma deleted_ids:
  assumes "room_ok rm" and "rm_queue rm' = delete_first (\<lambda>u. tr_ID u = t) (rm_queue rm)"
  shows "queueIDs rm' = filter (\<lambda>i. i \<noteq> t) (queueIDs rm)"
    and "readyIDs rm' = filter (\<lambda>i. i \<noteq> t) (readyIDs rm)"
    and "map_option tr_ID (firstReady (rm_queue rm')) =
      (case filter (\<lambda>i. i \<noteq> t) (readyIDs rm) of [] \<Rightarrow> None | i # _ \<Rightarrow> Some i)"
proof -
  have q: "rm_queue rm' = filter (\<lambda>u. tr_ID u \<noteq> t) (rm_queue rm)"
    using assms(2) delete_first_filter [OF room_okD(6) [OF assms(1)]] by simp
  show "queueIDs rm' = filter (\<lambda>i. i \<noteq> t) (queueIDs rm)"
    by (simp add: queueIDs_def q map_filter_ids)
  show r: "readyIDs rm' = filter (\<lambda>i. i \<noteq> t) (readyIDs rm)"
    by (simp add: readyIDs_def q map_filter_ids [symmetric] conj_commute)
  show "map_option tr_ID (firstReady (rm_queue rm')) =
      (case filter (\<lambda>i. i \<noteq> t) (readyIDs rm) of [] \<Rightarrow> None | i # _ \<Rightarrow> Some i)"
    unfolding r [symmetric] unfolding firstReady_def find_filter readyIDs_def
    by (cases "filter (\<lambda>t. tr_Status t = StatusReady) (rm_queue rm')") simp_all
qed

subsection \<open>Signal mode\<close>

definition signal_ok :: "Room \<Rightarrow> bool" where
  "signal_ok rm \<longleftrightarrow> room_ok rm \<and> \<not> isStream rm"

lemma signal_okD: "signal_ok rm \<Longrightarrow> room_ok rm" "signal_ok rm \<Longrightarrow> \<not> isStream rm"
  by (simp_all add: signal_ok_def)

lemma endTrack_fst:
  "fst (endTrack t rm) = (case endTrack_locked t rm of None \<Rightarrow> rm | Some rm' \<Rightarrow> fst (maybeStart rm'))"
  by (auto simp: endTrack_def case_prod_beta split: option.splits)

lemma endTrack_locked_fields:
  assumes "endTrack_locked t rm = Some rm'"
  shows "playingID rm = Some t" "rm_queue rm' = delete_first (\<lambda>u. tr_ID u = t) (rm_queue rm)"
    "rm_playing rm' = None" "isStream rm' = isStream rm"
  using assms by (auto simp: endTrack_locked_def Let_def playingID_def isStream_def
      split: option.splits if_splits)

lemma maybeStart_plays:
  "rm_playing rm = None \<Longrightarrow> playingID (fst (maybeStart rm)) = map_option tr_ID (firstReady (rm_queue rm))"
  by (auto simp: maybeStart_def maybeStart_locked_def playingID_def Let_def case_prod_beta
      split: option.splits)

lemma maybeStart_keeps:
  assumes "room_ok rm" and "\<not> isStream rm" shows "room_ok (fst (maybeStart rm))"
  using assms prepare_keeps [of rm] by (auto simp: maybeStart_def split: option.splits)

lemma isStream_mode: "rm_Mode r = rm_Mode s \<Longrightarrow> isStream r = isStream s"
  by (simp add: isStream_def)

lemma ids_cong: "rm_queue r = rm_queue s \<Longrightarrow> queueIDs r = queueIDs s \<and> readyIDs r = readyIDs s"
  by (simp add: queueIDs_def readyIDs_def)

lemma endTrack_stops:
  "playingID rm = Some t \<Longrightarrow> \<exists>rm'. endTrack_locked t rm = Some rm'"
  by (auto simp: endTrack_locked_def playingID_def)

lemma endTrack_idle: "playingID rm \<noteq> Some t \<Longrightarrow> endTrack t rm = (rm, [])"
  by (auto simp: endTrack_def endTrack_locked_def playingID_def split: option.splits)

lemma endTrack_signal_ok:
  assumes "signal_ok rm" shows "signal_ok (fst (endTrack t rm))"
proof (cases "endTrack_locked t rm")
  case (Some rm')
  then show ?thesis
    using assms end_keeps [of rm t rm'] maybeStart_keeps [of rm'] endTrack_locked_fields(4) [OF Some]
    by (simp add: signal_ok_def endTrack_fst isStream_mode [of "fst (maybeStart rm')" rm'])
qed (use assms in \<open>simp add: endTrack_fst\<close>)

lemma endTrack_advances:
  assumes ok: "signal_ok rm" and cur: "playingID rm = Some t"
  shows "queueIDs (fst (endTrack t rm)) = filter (\<lambda>i. i \<noteq> t) (queueIDs rm)"
    and "readyIDs (fst (endTrack t rm)) = filter (\<lambda>i. i \<noteq> t) (readyIDs rm)"
    and "playingID (fst (endTrack t rm)) =
      (case filter (\<lambda>i. i \<noteq> t) (readyIDs rm) of [] \<Rightarrow> None | i # _ \<Rightarrow> Some i)"
proof -
  obtain rm' where e: "endTrack_locked t rm = Some rm'" using endTrack_stops [OF cur] ..
  note f = endTrack_locked_fields [OF e]
  have d: "queueIDs rm' = filter (\<lambda>i. i \<noteq> t) (queueIDs rm)" "readyIDs rm' = filter (\<lambda>i. i \<noteq> t) (readyIDs rm)"
      "map_option tr_ID (firstReady (rm_queue rm')) =
        (case filter (\<lambda>i. i \<noteq> t) (readyIDs rm) of [] \<Rightarrow> None | i # _ \<Rightarrow> Some i)"
    using deleted_ids [OF _ f(2)] ok by (simp_all add: signal_ok_def)
  have fst: "fst (endTrack t rm) = fst (maybeStart rm')" by (simp add: endTrack_fst e)
  show "queueIDs (fst (endTrack t rm)) = filter (\<lambda>i. i \<noteq> t) (queueIDs rm)"
    and "readyIDs (fst (endTrack t rm)) = filter (\<lambda>i. i \<noteq> t) (readyIDs rm)"
    using d ids_cong [of "fst (maybeStart rm')" rm'] by (simp_all add: fst)
  show "playingID (fst (endTrack t rm)) =
      (case filter (\<lambda>i. i \<noteq> t) (readyIDs rm) of [] \<Rightarrow> None | i # _ \<Rightarrow> Some i)"
    using d(3) maybeStart_plays [OF f(3)] by (simp add: fst)
qed

interpretation signal: queue_player signal_ok playingID queueIDs readyIDs endTrack
  by unfold_locales
    (simp_all add: endTrack_signal_ok endTrack_idle endTrack_advances signal_okD distinct_ready_ids)

subsection \<open>Stream mode\<close>

definition stream_ok :: "Room \<Rightarrow> bool" where
  "stream_ok rm \<longleftrightarrow> room_ok rm \<and> isStream rm \<and> rm_broadcaster rm"

lemma stream_okD: "stream_ok rm \<Longrightarrow> room_ok rm" "stream_ok rm \<Longrightarrow> isStream rm"
  "stream_ok rm \<Longrightarrow> rm_broadcaster rm"
  by (simp_all add: stream_ok_def)

lemma streamMaybeStart_fst:
  "fst (streamMaybeStart rm) = (case streamMaybeStart_locked rm of None \<Rightarrow> rm | Some (rm', _) \<Rightarrow> rm')"
  by (auto simp: streamMaybeStart_def case_prod_beta split: option.splits)

lemma streamMaybeStart_fields:
  "rm_queue (fst (streamMaybeStart rm)) = rm_queue rm"
  "rm_Mode (fst (streamMaybeStart rm)) = rm_Mode rm"
  "rm_broadcaster (fst (streamMaybeStart rm)) = rm_broadcaster rm"
  by (auto simp: streamMaybeStart_fst streamMaybeStart_locked_def split: option.splits)

lemma streamMaybeStart_plays:
  "rm_playing rm = None \<Longrightarrow> rm_broadcaster rm \<Longrightarrow>
    playingID (fst (streamMaybeStart rm)) = map_option tr_ID (firstReady (rm_queue rm))"
  by (auto simp: streamMaybeStart_fst streamMaybeStart_locked_def playingID_def split: option.splits)

lemma streamMaybeStart_keeps:
  assumes "room_ok rm" and "isStream rm" shows "room_ok (fst (streamMaybeStart rm))"
  using assms stream_start_keeps [of rm] by (auto simp: streamMaybeStart_fst split: option.splits)

lemma streamEndTrack_fst:
  "fst (streamEndTrack t rm) =
    (case streamEndTrack_locked t rm of None \<Rightarrow> rm | Some rm' \<Rightarrow> fst (streamMaybeStart rm'))"
  by (auto simp: streamEndTrack_def case_prod_beta split: option.splits)

lemma streamEndTrack_locked_fields:
  assumes "streamEndTrack_locked t rm = Some rm'"
  shows "playingID rm = Some t" "rm_queue rm' = delete_first (\<lambda>u. tr_ID u = t) (rm_queue rm)"
    "rm_playing rm' = None" "isStream rm' = isStream rm" "rm_broadcaster rm' = rm_broadcaster rm"
  using assms by (auto simp: streamEndTrack_locked_def playingID_def isStream_def
      split: option.splits if_splits)

lemma streamEndTrack_stops:
  "playingID rm = Some t \<Longrightarrow> \<exists>rm'. streamEndTrack_locked t rm = Some rm'"
  by (auto simp: streamEndTrack_locked_def playingID_def)

lemma streamEndTrack_idle: "playingID rm \<noteq> Some t \<Longrightarrow> streamEndTrack t rm = (rm, [])"
  by (auto simp: streamEndTrack_def streamEndTrack_locked_def playingID_def split: option.splits)

lemma streamEndTrack_ok:
  assumes "stream_ok rm" shows "stream_ok (fst (streamEndTrack t rm))"
proof (cases "streamEndTrack_locked t rm")
  case (Some rm')
  then show ?thesis
    using assms stream_end_keeps [of rm t rm'] streamMaybeStart_keeps [of rm']
      streamEndTrack_locked_fields(4,5) [OF Some] streamMaybeStart_fields(2,3) [of rm']
    by (simp add: stream_ok_def streamEndTrack_fst isStream_mode [of "fst (streamMaybeStart rm')" rm'])
qed (use assms in \<open>simp add: streamEndTrack_fst\<close>)

lemma streamEndTrack_advances:
  assumes ok: "stream_ok rm" and cur: "playingID rm = Some t"
  shows "queueIDs (fst (streamEndTrack t rm)) = filter (\<lambda>i. i \<noteq> t) (queueIDs rm)"
    and "readyIDs (fst (streamEndTrack t rm)) = filter (\<lambda>i. i \<noteq> t) (readyIDs rm)"
    and "playingID (fst (streamEndTrack t rm)) =
      (case filter (\<lambda>i. i \<noteq> t) (readyIDs rm) of [] \<Rightarrow> None | i # _ \<Rightarrow> Some i)"
proof -
  obtain rm' where e: "streamEndTrack_locked t rm = Some rm'" using streamEndTrack_stops [OF cur] ..
  note f = streamEndTrack_locked_fields [OF e]
  note d = deleted_ids [OF stream_okD(1) [OF ok] f(2)]
  have fst: "fst (streamEndTrack t rm) = fst (streamMaybeStart rm')" by (simp add: streamEndTrack_fst e)
  show "queueIDs (fst (streamEndTrack t rm)) = filter (\<lambda>i. i \<noteq> t) (queueIDs rm)"
    and "readyIDs (fst (streamEndTrack t rm)) = filter (\<lambda>i. i \<noteq> t) (readyIDs rm)"
    using d ids_cong [of "fst (streamMaybeStart rm')" rm'] by (simp_all add: fst streamMaybeStart_fields)
  show "playingID (fst (streamEndTrack t rm)) =
      (case filter (\<lambda>i. i \<noteq> t) (readyIDs rm) of [] \<Rightarrow> None | i # _ \<Rightarrow> Some i)"
    using d(3) streamMaybeStart_plays [OF f(3)] f(5) stream_okD(3) [OF ok] by (simp add: fst)
qed

interpretation stream: queue_player stream_ok playingID queueIDs readyIDs streamEndTrack
  by unfold_locales
    (simp_all add: streamEndTrack_ok streamEndTrack_idle streamEndTrack_advances stream_okD
      distinct_ready_ids)

subsection \<open>The properties of playing a queue\<close>

text \<open>A room of either mode that plays the first of two ready tracks, for the witnesses.\<close>

definition playingRoom :: "RoomMode \<Rightarrow> Room" where
  "playingRoom mode =
     demoRoom mode
       \<lparr>rm_queue := [track ''t1'', track ''t2''],
        rm_playing := Some
          \<lparr>pb_trackID = ''t1'', pb_fileURL = ''f'', pb_title = [], pb_durationMs = 0,
           pb_ready = (if mode = ModeStream then None else Some []), pb_started = False,
           pb_paused = False, pb_t0 = 0, pb_s = 0, pb_readyTimer = None, pb_endTimer = None\<rparr>\<rparr>"

lemma playingRoom_sel [simp]:
  "playingID (playingRoom mode) = Some ''t1''" "isStream (playingRoom mode) = (mode = ModeStream)"
  "rm_broadcaster (playingRoom mode) = (mode = ModeStream)"
  "readyIDs (playingRoom mode) = [''t1'', ''t2'']"
  by (simp_all add: playingRoom_def playingID_def isStream_def readyIDs_def demoRoom_def newRoom_def
      track_def)

lemma playingRoom_ok: "room_ok (playingRoom mode)"
  by (rule room_ok_cong [OF demoRoom_ok [of mode]])
    (simp_all add: queue_ok_def playing_ok_def,
     simp_all add: playingRoom_def demoRoom_def newRoom_def isStream_def track_def)

text \<open>
  C23: ends of a track are idempotent. The end timer, \<open>skip\<close> and a removed source may all end the
  same track; the first takes it out of the queue, and after it a second end of the same track
  changes nothing and sends nothing, in both modes. In particular it does not end the track that
  started in between.
\<close>

theorem track_ends_once:
  assumes ok: "room_ok rm" and cur: "playingID rm = Some t"
  shows "(\<not> isStream rm \<longrightarrow> endTrack t (fst (endTrack t rm)) = (fst (endTrack t rm), []))
    \<and> (isStream rm \<and> rm_broadcaster rm \<longrightarrow>
         streamEndTrack t (fst (streamEndTrack t rm)) = (fst (streamEndTrack t rm), []))"
  using signal.finish_once [OF _ cur] stream.finish_once [OF _ cur] ok
  by (simp add: signal_ok_def stream_ok_def)

theorem track_ends_once_witness:
  "endTrack ''t1'' (fst (endTrack ''t1'' (playingRoom ModeSignal)))
     = (fst (endTrack ''t1'' (playingRoom ModeSignal)), [])
   \<and> streamEndTrack ''t1'' (fst (streamEndTrack ''t1'' (playingRoom ModeStream)))
     = (fst (streamEndTrack ''t1'' (playingRoom ModeStream)), [])"
  using track_ends_once [OF playingRoom_ok [of ModeSignal], of "''t1''"]
    track_ends_once [OF playingRoom_ok [of ModeStream], of "''t1''"]
  by simp

text \<open>
  C8: the queue is played to its end in its order. Started from a playing track, ending what
  plays again and again plays each track that is ready, once, in queue order, and then nothing:
  for a signal room the ends are \<^verbatim>\<open>endTrack\<close>s, for a stream room \<^verbatim>\<open>streamEndTrack\<close>s, and as many
  ends as there are ready tracks are enough.
\<close>

theorem queue_is_played_in_order:
  assumes ok: "room_ok rm" and cur: "playingID rm = Some t" and n: "length (readyIDs rm) < n"
  shows "(\<not> isStream rm \<longrightarrow>
           heard playingID endTrack n rm = t # filter (\<lambda>i. i \<noteq> t) (readyIDs rm))
    \<and> (isStream rm \<and> rm_broadcaster rm \<longrightarrow>
           heard playingID streamEndTrack n rm = t # filter (\<lambda>i. i \<noteq> t) (readyIDs rm))"
proof -
  have l: "length (filter (\<lambda>i. i \<noteq> t) (readyIDs rm)) < n"
    by (rule le_less_trans [OF length_filter_le n])
  show ?thesis
    using signal.heard_all [OF _ cur l] stream.heard_all [OF _ cur l] ok
    by (simp add: signal_ok_def stream_ok_def)
qed

theorem queue_is_played_in_order_witness:
  "heard playingID endTrack 3 (playingRoom ModeSignal) = [''t1'', ''t2'']
   \<and> heard playingID streamEndTrack 3 (playingRoom ModeStream) = [''t1'', ''t2'']"
  using queue_is_played_in_order [OF playingRoom_ok [of ModeSignal], of "''t1''" 3]
    queue_is_played_in_order [OF playingRoom_ok [of ModeStream], of "''t1''" 3]
  by simp

end
