(* ===== verification/Cache_Props.thy ===== *)
theory Cache_Props
  imports Cache_Plan
begin

section \<open>The plan fits the memory budget\<close>

text \<open>
  \<open>planFull\<close> is a greedy prefix fit. \<open>charge\<close> is what one track adds to the running total under
  a plan; \<open>weight\<close> bounds it from above, and while the weights of the whole room stay below the
  64-bit range no sum wraps around.
\<close>

definition charge :: "(string, bool) gomap \<Rightarrow> ReconcileTrack \<Rightarrow> int" where
  "charge plan t =
     (if not_full_candidate t then estimateOpusBytes (rt_DurationMs t)
      else if gget plan (rt_ID t) = Some True then estimateM4ABytes (rt_DurationMs t) else 0)"

definition weight :: "ReconcileTrack \<Rightarrow> int" where
  "weight t = 17 * rt_DurationMs t"

definition planned_bytes :: "(string, bool) gomap \<Rightarrow> ReconcileTrack list \<Rightarrow> int" where
  "planned_bytes plan ts =
     (\<Sum>t \<leftarrow> ts. if gget plan (rt_ID t) = Some True then estimateM4ABytes (rt_DurationMs t) else 0)"

lemma estimate_bounds:
  assumes "0 \<le> rt_DurationMs t" and "weight t < 2 ^ 63"
  shows "0 \<le> estimateM4ABytes (rt_DurationMs t)" "estimateM4ABytes (rt_DurationMs t) \<le> weight t"
    and "0 \<le> estimateOpusBytes (rt_DurationMs t)" "estimateOpusBytes (rt_DurationMs t) \<le> weight t"
proof -
  let ?s = "rt_DurationMs t div 1000"
  have s: "rt_DurationMs t sdiv 1000 = ?s" "0 \<le> ?s" "1000 * ?s \<le> rt_DurationMs t"
    using assms(1) by (auto simp: signed_divide_int_def sgn_if)
  then have "in64 (?s * 16500)" "in64 (?s * 12500)"
    using assms by (auto simp: in64_def weight_def)
  with s show "0 \<le> estimateM4ABytes (rt_DurationMs t)" "estimateM4ABytes (rt_DurationMs t) \<le> weight t"
    "0 \<le> estimateOpusBytes (rt_DurationMs t)" "estimateOpusBytes (rt_DurationMs t) \<le> weight t"
    by (simp_all add: estimateM4ABytes_def estimateOpusBytes_def m4aBytesPerSec_def
        opusBytesPerSec_def weight_def)
qed

text \<open>What the loop needs of the rest of the tracks and of the total so far.\<close>

definition loop_ok :: "ReconcileTrack list \<Rightarrow> int \<Rightarrow> bool" where
  "loop_ok ts used \<longleftrightarrow>
     distinct (List.map rt_ID ts) \<and> (\<forall>t \<in> set ts. 0 \<le> rt_DurationMs t) \<and> 0 \<le> used
     \<and> used + (\<Sum>t \<leftarrow> ts. weight t) < 2 ^ 63"

lemma weights_nonneg: "\<forall>t \<in> set ts. 0 \<le> rt_DurationMs t \<Longrightarrow> 0 \<le> (\<Sum>t \<leftarrow> ts. weight t)"
  by (induction ts) (auto simp: weight_def)

lemma loop_ok_step:
  assumes "loop_ok (t # ts) used" and "0 \<le> x" "x \<le> weight t"
  shows "in64 (used + x)" "loop_ok ts (used + x)"
  using assms weights_nonneg [of ts] by (auto simp: loop_ok_def in64_def weight_def)

lemma loop_ok_head:
  assumes "loop_ok (t # ts) used"
  shows "0 \<le> rt_DurationMs t" "weight t < 2 ^ 63" "rt_ID t \<notin> set (List.map rt_ID ts)" "0 \<le> used"
  using assms weights_nonneg [of ts] by (auto simp: loop_ok_def)

lemmas loop_bounds = estimate_bounds [OF loop_ok_head(1,2)]

lemma plan_others [simp]:
  "i \<notin> set (List.map rt_ID ts) \<Longrightarrow> gget (planFull_loop budget ts used plan) i = gget plan i"
  by (induction ts arbitrary: used plan) (auto simp: Let_def)

text \<open>One turn of the loop, without wrap-around: what the head decides and what the rest does.\<close>

lemma planFull_loop_turn:
  assumes ok: "loop_ok (t # ts) used" and p_def: "p = planFull_loop budget (t # ts) used plan"
  shows "\<exists>plan'. p = planFull_loop budget ts (used + charge p t) plan'
    \<and> loop_ok ts (used + charge p t) \<and> (\<forall>i. i \<noteq> rt_ID t \<longrightarrow> gget plan' i = gget plan i)
    \<and> gget p (rt_ID t) = (if not_full_candidate t then gget plan (rt_ID t)
         else Some (used + estimateM4ABytes (rt_DurationMs t) \<le> budget))"
proof -
  note b = loop_bounds [OF ok ok]
  note i = loop_ok_head(3) [OF ok]
  note o = loop_ok_step [OF ok b(3,4)] loop_ok_step [OF ok b(1,2)] loop_ok_step(2) [OF ok, of 0]
  consider "not_full_candidate t"
    | "\<not> not_full_candidate t" "used + estimateM4ABytes (rt_DurationMs t) \<le> budget"
    | "\<not> not_full_candidate t" "\<not> used + estimateM4ABytes (rt_DurationMs t) \<le> budget"
    by blast
  then show ?thesis
  proof cases
    case 1
    with i o show ?thesis by (auto simp: p_def charge_def)
  next
    case 2
    then have "p = planFull_loop budget ts (used + estimateM4ABytes (rt_DurationMs t)) (gset (rt_ID t) True plan)"
      using o by (simp add: p_def Let_def)
    with 2 i o show ?thesis by (auto simp: charge_def)
  next
    case 3
    then have "p = planFull_loop budget ts used (gset (rt_ID t) False plan)"
      using o by (simp add: p_def Let_def)
    with 3 i o b loop_ok_head(1) [OF ok] show ?thesis by (auto simp: charge_def weight_def)
  qed
qed

text \<open>The plan for a track, from what the tracks before it were charged.\<close>

lemma planFull_loop_greedy:
  assumes "loop_ok (xs @ t # ys) used" and p_def: "p = planFull_loop budget (xs @ t # ys) used plan"
  shows "gget p (rt_ID t) = (if not_full_candidate t then gget plan (rt_ID t)
           else Some (used + (\<Sum>u \<leftarrow> xs. charge p u) + estimateM4ABytes (rt_DurationMs t) \<le> budget))"
  using assms(1) unfolding p_def
proof (induction xs arbitrary: used plan)
  case Nil
  then show ?case using planFull_loop_turn [OF _ refl, of t ys used budget plan] by auto
next
  case (Cons x xs)
  let ?p = "planFull_loop budget ((x # xs) @ t # ys) used plan"
  from Cons.prems have ok: "loop_ok (x # xs @ t # ys) used" by simp
  obtain plan' where "?p = planFull_loop budget (xs @ t # ys) (used + charge ?p x) plan'"
    "loop_ok (xs @ t # ys) (used + charge ?p x)" "\<forall>i. i \<noteq> rt_ID x \<longrightarrow> gget plan' i = gget plan i"
    using planFull_loop_turn [OF ok refl, of budget plan] by auto
  moreover have "rt_ID t \<noteq> rt_ID x" using loop_ok_head(3) [OF ok] by auto
  ultimately show ?case
    using Cons.IH [of "used + charge ?p x" plan'] by (simp add: add.assoc)
qed

lemma planFull_loop_budget:
  assumes "loop_ok ts used"
  shows "planned_bytes (planFull_loop budget ts used plan) (filter (\<lambda>t. \<not> not_full_candidate t) ts)
    \<le> max 0 (budget - used)"
  using assms
proof (induction ts arbitrary: used plan)
  case (Cons t ts)
  let ?p = "planFull_loop budget (t # ts) used plan"
  obtain plan' where "?p = planFull_loop budget ts (used + charge ?p t) plan'"
    "loop_ok ts (used + charge ?p t)"
    and g: "gget ?p (rt_ID t) = (if not_full_candidate t then gget plan (rt_ID t)
         else Some (used + estimateM4ABytes (rt_DurationMs t) \<le> budget))"
    using planFull_loop_turn [OF Cons.prems refl, of budget plan] by blast
  then have "planned_bytes ?p (filter (\<lambda>t. \<not> not_full_candidate t) ts) \<le> max 0 (budget - (used + charge ?p t))"
    using Cons.IH [of "used + charge ?p t" plan'] by simp
  then show ?case using g loop_bounds [OF Cons.prems Cons.prems]
    by (auto simp: planned_bytes_def charge_def max_def split: if_splits)
qed (simp add: planned_bytes_def)

lemma planFull_loop_ok:
  assumes "distinct (List.map rt_ID tracks)" "\<And>t. t \<in> set tracks \<Longrightarrow> 0 \<le> rt_DurationMs t"
    and "(\<Sum>t \<leftarrow> tracks. weight t) < 2 ^ 63"
  shows "loop_ok tracks 0"
  using assms by (simp add: loop_ok_def)

lemma budget_in64: "0 \<le> mb \<Longrightarrow> mb \<le> MemLimitMaxMB \<Longrightarrow> wrap64 (mb * 2 ^ 20) = mb * 2 ^ 20"
  by (simp add: in64_def MemLimitMaxMB_def)

lemma reconcile_loop_set:
  "EnsureFull i u \<in> set (reconcile_loop plan ts) \<longleftrightarrow>
     (\<exists>t \<in> set ts. rt_ID t = i \<and> rt_SourceURL t = u \<and> gget plan i = Some True)"
  "EvictFull i \<in> set (reconcile_loop plan ts) \<longleftrightarrow>
     (\<exists>t \<in> set ts. rt_ID t = i \<and> \<not> rt_Playing t \<and> gget plan i = Some False)"
  by (induction ts) (auto split: option.splits)

subsection \<open>Properties of the plan\<close>

text \<open>Two long tracks, a short one and an upload, for the witnesses.\<close>

definition demoTracks :: "ReconcileTrack list" where
  "demoTracks =
     [\<lparr>rt_ID = ''a'', rt_SourceURL = ''u'', rt_DurationMs = 900000, rt_Playing = True\<rparr>,
      \<lparr>rt_ID = ''b'', rt_SourceURL = ''u'', rt_DurationMs = 60000, rt_Playing = False\<rparr>,
      \<lparr>rt_ID = ''c'', rt_SourceURL = ''u'', rt_DurationMs = 3600000, rt_Playing = False\<rparr>]"

lemma demoTracks_plan: "planFull demoTracks 50 = [(''a'', True), (''c'', False)]"
  by code_simp

text \<open>
  C30: the full files planned for a room fit its memory budget: the estimated sizes of all tracks
  planned in full are at most the budget, for any budget the settings allow and any queue whose
  estimates do not leave the 64-bit range.
\<close>

theorem cache_plan_fits_budget:
  assumes d: "distinct (List.map rt_ID tracks)" and n: "\<And>t. t \<in> set tracks \<Longrightarrow> 0 \<le> rt_DurationMs t"
    and w: "(\<Sum>t \<leftarrow> tracks. weight t) < 2 ^ 63" and mb: "0 \<le> mb" "mb \<le> MemLimitMaxMB"
  shows "planned_bytes (planFull tracks mb) tracks \<le> mb * 2 ^ 20"
proof -
  let ?p = "planFull tracks mb"
  note ok = planFull_loop_ok [OF d n w]
  have none: "gget ?p (rt_ID t) = None" if "t \<in> set tracks" "not_full_candidate t" for t
  proof -
    from that obtain xs ys where "tracks = xs @ t # ys" by (auto simp: in_set_conv_decomp)
    then show ?thesis
      using planFull_loop_greedy [OF _ refl, of xs t ys 0 "wrap64 (mb * 2 ^ 20)" "[]"] ok that
      by (simp add: planFull_def)
  qed
  have "planned_bytes ?p ts = planned_bytes ?p (filter (\<lambda>t. \<not> not_full_candidate t) ts)"
    if "set ts \<subseteq> set tracks" for ts
    using that by (induction ts) (auto simp: planned_bytes_def none)
  from this [of tracks] show ?thesis
    using planFull_loop_budget [OF ok, of "mb * 2 ^ 20" "[]"] mb budget_in64 [OF mb]
    by (simp add: planFull_def)
qed

theorem cache_plan_fits_budget_witness:
  "planned_bytes (planFull demoTracks 50) demoTracks \<le> 50 * 2 ^ 20"
  by (rule cache_plan_fits_budget)
    (simp_all add: demoTracks_def weight_def MemLimitMaxMB_def, auto)

text \<open>
  The plan is the greedy one in queue order. A short track or an upload gets no entry; a long
  remote track is planned in full exactly when its estimate still fits after what the tracks
  before it were charged (an estimate of the served file for short tracks and uploads, the full
  file for planned ones, nothing for refused ones).
\<close>

lemma cache_plan_is_greedy:
  assumes d: "distinct (List.map rt_ID (xs @ t # ys))"
    and n: "\<And>u. u \<in> set (xs @ t # ys) \<Longrightarrow> 0 \<le> rt_DurationMs u"
    and w: "(\<Sum>u \<leftarrow> xs @ t # ys. weight u) < 2 ^ 63" and mb: "0 \<le> mb" "mb \<le> MemLimitMaxMB"
  shows "gget (planFull (xs @ t # ys) mb) (rt_ID t) =
    (if not_full_candidate t then None
     else Some ((\<Sum>u \<leftarrow> xs. charge (planFull (xs @ t # ys) mb) u)
                  + estimateM4ABytes (rt_DurationMs t) \<le> mb * 2 ^ 20))"
  using planFull_loop_greedy [OF planFull_loop_ok [OF d n w] refl, of "mb * 2 ^ 20" "[]"]
    budget_in64 [OF mb]
  by (simp add: planFull_def)

lemma cache_plan_is_greedy_example:
  "gget (planFull demoTracks 50) ''c'' = Some False"
proof -
  let ?c = "\<lparr>rt_ID = ''c'', rt_SourceURL = ''u'', rt_DurationMs = 3600000, rt_Playing = False\<rparr>"
  have dt: "demoTracks = take 2 demoTracks @ ?c # []" by (simp add: demoTracks_def)
  have "gget (planFull (take 2 demoTracks @ ?c # []) 50) (rt_ID ?c) =
    (if not_full_candidate ?c then None
     else Some ((\<Sum>u \<leftarrow> take 2 demoTracks. charge (planFull (take 2 demoTracks @ ?c # []) 50) u)
                  + estimateM4ABytes (rt_DurationMs ?c) \<le> 50 * 2 ^ 20))"
    by (rule cache_plan_is_greedy)
      (simp_all add: demoTracks_def weight_def MemLimitMaxMB_def, auto)
  also have "\<dots> = Some False"
    unfolding dt [symmetric] demoTracks_plan by (simp add: demoTracks_def charge_def) code_simp
  finally show ?thesis by (simp add: dt [symmetric])
qed

text \<open>
  \<^verbatim>\<open>Reconcile\<close> carries out the plan and nothing else: a full file is requested exactly for the
  tracks planned in full, and evicted exactly for the long tracks the plan refuses that are not
  playing, so the file of a playing track stays.
\<close>

lemma reconcile_carries_out_plan:
  "(EnsureFull i u \<in> set (Reconcile_actions ts mb) \<longleftrightarrow>
      (\<exists>t \<in> set ts. rt_ID t = i \<and> rt_SourceURL t = u \<and> gget (planFull ts mb) i = Some True))
   \<and> (EvictFull i \<in> set (Reconcile_actions ts mb) \<longleftrightarrow>
      (\<exists>t \<in> set ts. rt_ID t = i \<and> \<not> rt_Playing t \<and> gget (planFull ts mb) i = Some False))"
  by (simp add: Reconcile_actions_def reconcile_loop_set)

end
