(* ===== verification/Queue_Props.thy ===== *)
theory Queue_Props
  imports Player Cache_Props
begin

section \<open>The queue of a room\<close>

text \<open>
  Properties of the operations that clients and the pipeline apply to the queue: updating a track
  by id, removing one, what starts to play afterwards, what the room asks of the cache manager
  and what it hands to the track cleaner when it is closed.
\<close>

lemma seq_broadcast_fst: "fst (seq [broadcastState, f] rm) = fst (f rm)"
  by (simp add: case_prod_beta Let_def broadcastState_def)

lemma startNext_queue [simp]: "rm_queue (fst (startNext rm)) = rm_queue rm"
  by (simp add: startNext_def streamMaybeStart_fields case_prod_beta Let_def)

lemma startNext_mode: "isStream (fst (startNext rm)) = isStream rm"
  by (simp add: startNext_def isStream_mode [OF streamMaybeStart_fields(2)] case_prod_beta Let_def
      isStream_mode [OF maybeStart_fields(6)])

lemma maybeStart_busy: "rm_playing rm \<noteq> None \<Longrightarrow> fst (maybeStart rm) = rm"
  by (simp add: maybeStart_def maybeStart_locked_def)

lemma streamMaybeStart_busy: "rm_playing rm \<noteq> None \<Longrightarrow> fst (streamMaybeStart rm) = rm"
  by (simp add: streamMaybeStart_fst streamMaybeStart_locked_def)

lemma startNext_plays:
  assumes "isStream rm \<Longrightarrow> rm_broadcaster rm"
  shows "playingID (fst (startNext rm)) =
    (case playingID rm of Some t \<Rightarrow> Some t | None \<Rightarrow> map_option tr_ID (firstReady (rm_queue rm)))"
proof (cases "rm_playing rm")
  case None
  then show ?thesis using assms maybeStart_plays [OF None] streamMaybeStart_plays [OF None]
    by (simp add: startNext_def case_prod_beta Let_def playingID_def)
next
  case (Some pb)
  then show ?thesis
    by (simp add: startNext_def case_prod_beta Let_def playingID_def maybeStart_busy streamMaybeStart_busy)
qed

lemma startNext_keeps:
  assumes "room_ok rm" shows "room_ok (fst (startNext rm))"
  using assms maybeStart_keeps [of rm] streamMaybeStart_keeps [of rm]
  by (simp add: startNext_def case_prod_beta Let_def)

lemma UpsertTrack_fst: "fst (UpsertTrack t rm) = fst (startNext (rm\<lparr>rm_queue := upsert t (rm_queue rm)\<rparr>))"
  by (simp add: UpsertTrack_def seq_broadcast_fst del: seq.simps)

lemma RemoveTrack_fst:
  "fst (RemoveTrack t rm) =
    (if playingID rm = Some t then rm
     else rm\<lparr>rm_queue := delete_first (\<lambda>u. tr_ID u = t) (rm_queue rm)\<rparr>)"
  by (simp add: RemoveTrack_def seq_broadcast_fst del: seq.simps)

lemma queue_update_sel [simp]:
  "playingID (rm\<lparr>rm_queue := q\<rparr>) = playingID rm" "isStream (rm\<lparr>rm_queue := q\<rparr>) = isStream rm"
  by (simp_all add: playingID_def isStream_def)

lemma find_upsert: "find (\<lambda>u. tr_ID u = tr_ID t) (upsert t q) = Some t"
  by (induction q) (auto simp: upsert_def)

lemma upsert_others: "tr_ID u \<noteq> tr_ID t \<Longrightarrow> u \<in> set (upsert t q) \<longleftrightarrow> u \<in> set q"
  by (induction q) (auto simp: upsert_def)

lemma upsert_twice: "upsert s (upsert t q) = upsert s q" if "tr_ID s = tr_ID t"
  using that by (induction q) (auto simp: upsert_def)

subsection \<open>Properties\<close>

text \<open>Rooms for the witnesses; \<open>cachedRoom\<close> has a cache manager.\<close>

lemma demoRoom_sel [simp]:
  "playingID (demoRoom mode) = None" "isStream (demoRoom mode) = (mode = ModeStream)"
  "rm_broadcaster (demoRoom mode) = (mode = ModeStream)" "rm_queue (demoRoom mode) = []"
  by (simp_all add: demoRoom_def newRoom_def playingID_def isStream_def)

lemma track_sel [simp]: "tr_ID (track i) = i" "tr_Status (track i) = StatusReady"
  by (simp_all add: track_def)

lemma playingRoom_queue [simp]:
  "rm_queue (playingRoom mode) = [track ''t1'', track ''t2'']"
  "queueIDs (playingRoom mode) = [''t1'', ''t2'']"
  by (simp_all add: playingRoom_def queueIDs_def)

definition cachedRoom :: Room where
  "cachedRoom = (playingRoom ModeSignal)\<lparr>rm_cache := True\<rparr>"

lemma cachedRoom_sel [simp]:
  "rm_cache cachedRoom" "\<not> isStream cachedRoom" "playingID cachedRoom = Some ''t1''"
  "rm_queue cachedRoom = [track ''t1'', track ''t2'']"
  using playingRoom_sel(1,2) [of ModeSignal]
  by (simp_all add: cachedRoom_def isStream_def playingID_def)

lemma cachedRoom_ok: "room_ok cachedRoom"
  by (rule room_ok_cong [OF playingRoom_ok [of ModeSignal]])
    (use room_okD(2,3,5) [OF playingRoom_ok [of ModeSignal]] in
      \<open>simp_all add: cachedRoom_def queue_ok_def playing_ok_def isStream_def\<close>)

text \<open>
  C29: an update of a track replaces the track with its id where it stands, or appends it: the
  order of the queue is kept, no id gets into it twice, the track is found under its id as it was
  given, every other track is untouched, and of two updates the later one counts.
\<close>

theorem upsert_updates_in_place:
  assumes "room_ok rm"
  shows "queueIDs (fst (UpsertTrack t rm))
       = (if tr_ID t \<in> set (queueIDs rm) then queueIDs rm else queueIDs rm @ [tr_ID t])
    \<and> distinct (queueIDs (fst (UpsertTrack t rm)))
    \<and> find (\<lambda>u. tr_ID u = tr_ID t) (rm_queue (fst (UpsertTrack t rm))) = Some t
    \<and> (tr_ID u = tr_ID t \<or> (u \<in> set (rm_queue (fst (UpsertTrack t rm))) \<longleftrightarrow> u \<in> set (rm_queue rm)))
    \<and> (tr_ID s = tr_ID t \<longrightarrow>
         rm_queue (fst (UpsertTrack s (fst (UpsertTrack t rm)))) = rm_queue (fst (UpsertTrack s rm)))"
proof -
  have q: "rm_queue (fst (UpsertTrack t rm)) = upsert t (rm_queue rm)" for t rm
    by (simp add: UpsertTrack_fst)
  have "distinct (List.map tr_ID (upsert t (rm_queue rm)))"
    using room_okD(6) [OF assms] by (simp add: map_upsert del: set_map)
  moreover have "List.map tr_ID (upsert t (rm_queue rm)) = (if tr_ID t \<in> set (List.map tr_ID (rm_queue rm))
      then List.map tr_ID (rm_queue rm) else List.map tr_ID (rm_queue rm) @ [tr_ID t])"
    by (rule map_upsert)
  ultimately show ?thesis
    using find_upsert [of t "rm_queue rm"] upsert_others [of u t "rm_queue rm"]
      upsert_twice [of s t "rm_queue rm"]
    unfolding q queueIDs_def by blast
qed

theorem upsert_updates_in_place_witness:
  "queueIDs (fst (UpsertTrack (track ''t2'') (playingRoom ModeSignal))) = [''t1'', ''t2'']
   \<and> queueIDs (fst (UpsertTrack (track ''t3'') (playingRoom ModeSignal))) = [''t1'', ''t2'', ''t3'']"
  using upsert_updates_in_place [OF playingRoom_ok [of ModeSignal], of "track ''t2''"]
    upsert_updates_in_place [OF playingRoom_ok [of ModeSignal], of "track ''t3''"]
  by simp

text \<open>
  Whoever plays keeps playing when the queue is updated; if nothing plays, the update starts
  the first track of the queue that is ready, so a track starts by the update that makes it ready.
\<close>

lemma update_starts_first_ready:
  assumes "room_ok rm" and "isStream rm \<Longrightarrow> rm_broadcaster rm"
  shows "playingID (fst (UpsertTrack t rm)) =
    (case playingID rm of
       Some i \<Rightarrow> Some i
     | None \<Rightarrow> map_option tr_ID (firstReady (upsert t (rm_queue rm))))
    \<and> room_ok (fst (UpsertTrack t rm))"
proof -
  let ?rm = "rm\<lparr>rm_queue := upsert t (rm_queue rm)\<rparr>"
  show ?thesis
    unfolding UpsertTrack_fst
    using startNext_plays [of ?rm] startNext_keeps [OF upsert_keeps [OF assms(1)]] assms(2)
    by (simp split: option.splits)
qed

lemma update_starts_first_ready_example:
  "playingID (fst (UpsertTrack (track ''t1'') (demoRoom ModeSignal))) = Some ''t1''
   \<and> playingID (fst (UpsertTrack (track ''t1'') (demoRoom ModeStream))) = Some ''t1''"
  using update_starts_first_ready [OF demoRoom_ok [of ModeSignal], of "track ''t1''"]
    update_starts_first_ready [OF demoRoom_ok [of ModeStream], of "track ''t1''"]
  by (simp add: demoRoom_sel upsert_def firstReady_def)

text \<open>
  \<open>remove\<close> never touches what is playing; any other track leaves the queue, the rest of the
  queue keeps its order and nothing else of the room changes.
\<close>

lemma remove_spares_playing:
  assumes "room_ok rm"
  shows "(playingID rm = Some t \<longrightarrow> RemoveTrack t rm = (rm, []))
    \<and> (playingID rm \<noteq> Some t \<longrightarrow>
         fst (RemoveTrack t rm) = rm\<lparr>rm_queue := filter (\<lambda>u. tr_ID u \<noteq> t) (rm_queue rm)\<rparr>)"
proof (cases "playingID rm = Some t")
  case True
  then show ?thesis by (simp add: RemoveTrack_def)
next
  case False
  then show ?thesis
    using delete_first_filter [OF room_okD(6) [OF assms], of t] by (simp add: RemoveTrack_fst)
qed

text \<open>
  The pipeline's updates are not aware of a removal. When a client has removed a track, the
  next update the pipeline sends for it (its title, its end of download) puts it back at the end
  of the queue, from where it is played once it is ready.
\<close>

lemma late_update_readds_removed_track:
  assumes "room_ok rm" and "playingID rm \<noteq> Some (tr_ID t)"
  shows "tr_ID t \<notin> set (queueIDs (fst (RemoveTrack (tr_ID t) rm)))
    \<and> queueIDs (fst (UpsertTrack t (fst (RemoveTrack (tr_ID t) rm))))
        = queueIDs (fst (RemoveTrack (tr_ID t) rm)) @ [tr_ID t]"
proof -
  have r: "rm_queue (fst (RemoveTrack (tr_ID t) rm)) = filter (\<lambda>u. tr_ID u \<noteq> tr_ID t) (rm_queue rm)"
    using delete_first_filter [OF room_okD(6) [OF assms(1)], of "tr_ID t"] assms(2)
    by (simp add: RemoveTrack_fst)
  have "rm_queue (fst (UpsertTrack t rm')) = upsert t (rm_queue rm')" for rm'
    by (simp add: UpsertTrack_fst)
  then show ?thesis by (auto simp: queueIDs_def r map_upsert)
qed

lemma late_update_readds_removed_track_example:
  "queueIDs (fst (RemoveTrack ''t2'' (playingRoom ModeSignal))) = [''t1'']
   \<and> queueIDs (fst (UpsertTrack (track ''t2'') (fst (RemoveTrack ''t2'' (playingRoom ModeSignal)))))
      = [''t1'', ''t2'']"
  using late_update_readds_removed_track [OF playingRoom_ok [of ModeSignal], of "track ''t2''"]
  by (simp add: RemoveTrack_fst queueIDs_def)

text \<open>
  What the room asks of the cache manager: its queue with distinct ids, in order, with a
  budget the settings allow; and carrying that request out never evicts the track the room is
  playing.
\<close>

lemma cache_request_spares_playing:
  assumes "room_ok rm" and "snd (reconcileCache rm) = [Reconcile ts mb]"
  shows "List.map rt_ID ts = queueIDs rm \<and> distinct (List.map rt_ID ts)
    \<and> MemLimitMinMB \<le> mb \<and> mb \<le> MemLimitMaxMB
    \<and> (playingID rm = Some i \<longrightarrow> EvictFull i \<notin> set (Reconcile_actions ts mb))"
proof -
  let ?req = "\<lambda>t. \<lparr>rt_ID = tr_ID t, rt_SourceURL = tr_SourceURL t, rt_DurationMs = tr_DurationMs t,
    rt_Playing = (case rm_playing rm of Some pb \<Rightarrow> pb_trackID pb = tr_ID t | None \<Rightarrow> False)\<rparr>"
  have eq: "ts = List.map ?req (rm_queue rm)" "mb = set_MemLimitMB (rm_settings rm)"
    using assms(2) by (simp_all add: reconcileCache_def split: if_splits)
  have ts: "List.map rt_ID ts = queueIDs rm" "\<forall>t \<in> set ts. rt_Playing t \<longleftrightarrow> playingID rm = Some (rt_ID t)"
    unfolding eq(1) by (simp_all add: queueIDs_def playingID_def comp_def split: option.split)
  have "EvictFull i \<notin> set (Reconcile_actions ts mb)" if "playingID rm = Some i"
    unfolding Reconcile_actions_def reconcile_loop_set using ts(2) that by blast
  then show ?thesis
    using ts(1) eq(2) room_okD(5,6) [OF assms(1)] by (simp add: settings_ok_def queueIDs_def)
qed

lemma cache_request_spares_playing_example:
  "\<exists>ts mb. snd (reconcileCache (cachedRoom)) = [Reconcile ts mb] \<and> List.map rt_ID ts = [''t1'', ''t2'']
     \<and> EvictFull ''t1'' \<notin> set (Reconcile_actions ts mb)"
proof -
  obtain ts mb where r: "snd (reconcileCache cachedRoom) = [Reconcile ts mb]"
    by (simp add: reconcileCache_def cachedRoom_sel)
  show ?thesis
    using cache_request_spares_playing [OF cachedRoom_ok r, of "''t1''"] r
    by (simp add: cachedRoom_sel queueIDs_def)
qed

text \<open>
  Closing a room hands every track it references, the playing one and the queued ones, to the
  cleaner exactly once, after closing its broadcaster, and leaves it with nothing queued, nothing
  playing and no removal timer.
\<close>

lemma closing_cleans_each_track_once:
  "(let rm' = fst (cleanupMedia rm);
        cleaned = filter (\<lambda>c. c \<noteq> BcClose) (snd (cleanupMedia rm))
    in rm_queue rm' = [] \<and> rm_playing rm' = None \<and> rm_emptyTimer rm' = None
      \<and> (\<forall>i. \<not> referencesTrack i rm')
      \<and> distinct cleaned
      \<and> (\<forall>i. CleanTrack i \<in> set cleaned \<longleftrightarrow> rm_cleanTrack rm \<and> referencesTrack i rm)
      \<and> (rm_broadcaster rm \<longleftrightarrow> BcClose \<in> set (take 1 (snd (cleanupMedia rm)))))"
proof -
  have m: "distinct (media_ids rm)" "i \<in> set (media_ids rm) \<longleftrightarrow> referencesTrack i rm" for i
    by (auto simp: media_ids_def referencesTrack_def list_ex_iff split: option.splits)
  have f: "filter (\<lambda>c. c \<noteq> BcClose) (List.map CleanTrack xs) = List.map CleanTrack xs" for xs
    by (auto simp: filter_id_conv)
  have c: "filter (\<lambda>c. c \<noteq> BcClose) (snd (cleanupMedia rm)) =
      (if rm_cleanTrack rm then List.map CleanTrack (media_ids rm) else [])"
    by (simp add: cleanupMedia_def f)
  have t: "BcClose \<notin> set (take 1 (List.map CleanTrack xs))" for xs by (cases xs) simp_all
  show ?thesis
    unfolding Let_def c
    by (auto simp: m distinct_map inj_on_def cleanupMedia_fields referencesTrack_def cleanupMedia_def
        dest: in_set_takeD)
qed

end
