(* ===== verification/Registry_Props.thy ===== *)
theory Registry_Props
  imports Registry Queue_Props
begin

section \<open>Rooms, codes, channels and files of the server\<close>

text \<open>
  Properties of the registry and of the world a room's methods run in: codes and tokens, creating
  and removing rooms, what reaches a client's channel, and which files the cleaner is given. The
  locale \<open>bounded_channel\<close> is the contract of a Go channel under non-blocking sends.
\<close>

locale bounded_channel =
  fixes send :: "'v \<Rightarrow> 'q \<Rightarrow> 'q"
    and queued :: "'q \<Rightarrow> 'v list"
    and cap :: nat
  assumes send_queued: "queued (send v q) =
    (if length (queued q) < cap then queued q @ [v] else queued q)"
begin

lemma queued_fold: "queued (fold send vs q) = queued q @ take (cap - length (queued q)) vs"
proof (induction vs arbitrary: q)
  case (Cons v vs)
  show ?case
  proof (cases "length (queued q) < cap")
    case True
    then have "cap - length (queued q) = Suc (cap - length (queued (send v q)))"
      by (simp add: send_queued)
    with True Cons show ?thesis by (simp add: send_queued)
  qed (simp add: Cons send_queued)
qed simp

lemma bounded: "length (queued q) \<le> cap \<Longrightarrow> length (queued (fold send vs q)) \<le> cap"
  by (simp add: queued_fold)

end

lemma chan_trySend: "chan ch' (trySend ch env w) =
    (if ch' = ch then try_send env (chan ch w) else chan ch' w)"
  by (simp add: chan_def trySend_def)

interpretation outbox: bounded_channel "trySend ch" "chan ch" chan_cap for ch
  by unfold_locales (simp add: chan_trySend try_send_def)

subsection \<open>What the calls of a method change\<close>

definition sent_to :: "nat \<Rightarrow> call list \<Rightarrow> Envelope list" where
  "sent_to ch calls = List.map_filter (\<lambda>c. case c of Send ch' env \<Rightarrow> if ch' = ch then Some env else None | _ \<Rightarrow> None) calls"

lemma sent_to_Nil [simp]: "sent_to ch [] = []"
  by (simp add: sent_to_def List.map_filter_simps)

lemma sent_to_Cons: "sent_to ch (c # calls) =
    (case c of Send ch' env \<Rightarrow> if ch' = ch then env # sent_to ch calls else sent_to ch calls
     | _ \<Rightarrow> sent_to ch calls)"
  by (simp add: sent_to_def List.map_filter_simps split: call.splits)

lemma exec_call_frame [simp]:
  "w_heap (fst (exec_call room c w)) = w_heap w" "w_reg (fst (exec_call room c w)) = w_reg w"
  "w_nextRoom (fst (exec_call room c w)) = w_nextRoom w"
  by (cases c; simp add: trySend_def)+

lemma exec_calls_Nil [simp]: "exec_calls room [] w = (w, [])"
  by (simp add: exec_calls_def)

lemma exec_calls_Cons: "exec_calls room (c # calls) w =
    (fst (exec_calls room calls (fst (exec_call room c w))),
     snd (exec_call room c w) @ snd (exec_calls room calls (fst (exec_call room c w))))"
  by (simp add: exec_calls_def case_prod_beta Let_def)

lemma exec_calls_frame [simp]:
  "w_heap (fst (exec_calls room calls w)) = w_heap w" "w_reg (fst (exec_calls room calls w)) = w_reg w"
  "w_nextRoom (fst (exec_calls room calls w)) = w_nextRoom w"
  by (induction calls arbitrary: w) (simp_all add: exec_calls_Cons)

lemma in_use_cong: "w_heap w = w_heap v \<Longrightarrow> w_reg w = w_reg v \<Longrightarrow> in_use i w = in_use i v"
  by (simp add: in_use_def)

lemma cleanIfUnused_cong:
  "w_heap w = w_heap v \<Longrightarrow> w_reg w = w_reg v \<Longrightarrow> cleanIfUnused i w = cleanIfUnused i v"
  unfolding cleanIfUnused_def using in_use_cong [of w v i] by simp

lemma exec_call_chan: "chan ch (fst (exec_call room c w)) = chan ch (fold (trySend ch) (sent_to ch [c]) w)"
  by (cases c) (simp_all add: sent_to_Cons chan_trySend)

lemma fold_trySend_cong: "chan ch w = chan ch v \<Longrightarrow> chan ch (fold (trySend ch) es w) = chan ch (fold (trySend ch) es v)"
  by (simp add: outbox.queued_fold)

lemma exec_calls_chan:
  "chan ch (fst (exec_calls room calls w)) = chan ch (fold (trySend ch) (sent_to ch calls) w)"
proof (induction calls arbitrary: w)
  case (Cons c calls)
  have "chan ch (fst (exec_calls room (c # calls) w)) =
      chan ch (fold (trySend ch) (sent_to ch calls) (fold (trySend ch) (sent_to ch [c]) w))"
    using Cons fold_trySend_cong [OF exec_call_chan] by (simp add: exec_calls_Cons)
  then show ?case by (cases c) (simp_all add: sent_to_Cons)
qed simp

lemma exec_calls_effects:
  "snd (exec_calls room calls w) = concat (List.map (\<lambda>c. snd (exec_call room c w)) calls)"
proof (induction calls arbitrary: w)
  case (Cons c calls)
  have "snd (exec_call room d (fst (exec_call room c w))) = snd (exec_call room d w)" for d
    by (cases d) (simp_all add: cleanIfUnused_cong [of "fst (exec_call room c w)" w])
  with Cons show ?case by (simp add: exec_calls_Cons)
qed simp

lemma on_room_frame [simp]: "w_reg (fst (on_room room m w)) = w_reg w"
  by (simp add: on_room_def case_prod_beta split: option.splits)

lemma on_room_heap: "gget (w_heap (fst (on_room room m w))) r =
    (if r = room then map_option (\<lambda>rm. fst (m rm)) (gget (w_heap w) r) else gget (w_heap w) r)"
  by (auto simp: on_room_def case_prod_beta split: option.splits)

lemma CleanFile_exec: "CleanFile i \<in> set (snd (exec_call room c w)) \<longleftrightarrow>
    c = CleanTrack i \<and> rg_cleanTrack (w_reg w) \<and> \<not> in_use i w"
  by (cases c) (auto simp: cleanIfUnused_def split: if_splits)

lemma in_useI:
  "gget (rg_rooms (w_reg w)) code = Some r \<Longrightarrow> gget (w_heap w) r = Some rm \<Longrightarrow>
    referencesTrack i rm \<Longrightarrow> in_use i w"
  unfolding in_use_def list_ex_iff by (rule bexI [OF _ map_of_SomeD]) simp_all

lemma CleanFile_on_room: "CleanFile i \<in> set (snd (on_room room m w)) \<longleftrightarrow>
    (\<exists>rm. gget (w_heap w) room = Some rm \<and> CleanTrack i \<in> set (snd (m rm)))
    \<and> rg_cleanTrack (w_reg w) \<and> \<not> in_use i (fst (on_room room m w))"
proof (cases "gget (w_heap w) room")
  case (Some rm)
  let ?w = "w\<lparr>w_heap := gset room (fst (m rm)) (w_heap w)\<rparr>"
  have o: "on_room room m w = exec_calls room (snd (m rm)) ?w"
    by (simp add: on_room_def Some case_prod_beta)
  have "in_use i (fst (on_room room m w)) = in_use i ?w"
    unfolding o by (rule in_use_cong) simp_all
  then show ?thesis
    by (auto simp: Some o exec_calls_effects CleanFile_exec)
qed (simp add: on_room_def)

subsection \<open>Codes and tokens\<close>

lemma alphabet_distinct: "distinct alphabet" "length alphabet = 32"
  by (simp_all add: alphabet_def)

lemma code_char_in: "code_char b \<in> set alphabet"
  unfolding code_char_def by (rule nth_mem) (simp add: alphabet_distinct)

lemma residues_count:
  assumes "k < 32" shows "card {n::nat. n < 256 \<and> n mod 32 = k} = 8"
proof -
  have "{n::nat. n < 256 \<and> n mod 32 = k} = (\<lambda>q. 32 * q + k) ` {..<8}"
  proof (intro subset_antisym subsetI)
    fix n assume n: "n \<in> {n::nat. n < 256 \<and> n mod 32 = k}"
    then have "n = 32 * (n div 32) + k" "n div 32 < 8" by auto
    then show "n \<in> (\<lambda>q. 32 * q + k) ` {..<8}" by blast
  qed (use assms in auto)
  moreover have "inj_on (\<lambda>q. 32 * q + k) {..<8}" by (simp add: inj_on_def)
  ultimately show ?thesis by (simp add: card_image)
qed

lemma pick_code_first:
  "pick_code rooms draws i = Some code \<Longrightarrow>
    \<exists>j. i \<le> j \<and> code = genCode (draws j) \<and> gget rooms code = None
      \<and> (\<forall>k. i \<le> k \<and> k < j \<longrightarrow> gget rooms (genCode (draws k)) \<noteq> None)"
proof (erule pick_code.raw_induct [rotated, where P = "\<lambda>rooms draws i code.
    \<exists>j. i \<le> j \<and> code = genCode (draws j) \<and> gget rooms code = None
      \<and> (\<forall>k. i \<le> k \<and> k < j \<longrightarrow> gget rooms (genCode (draws k)) \<noteq> None)"])
  fix pc and rooms :: "(string, nat) gomap" and draws i code
  assume IH: "\<And>rooms draws i code. pc rooms draws i = Some code \<Longrightarrow>
      \<exists>j. i \<le> j \<and> code = genCode (draws j) \<and> gget rooms code = None
        \<and> (\<forall>k. i \<le> k \<and> k < j \<longrightarrow> gget rooms (genCode (draws k)) \<noteq> None)"
    and body: "(let code = genCode (draws i)
      in if gget rooms code = None then Some code else pc rooms draws (Suc i)) = Some code"
  show "\<exists>j. i \<le> j \<and> code = genCode (draws j) \<and> gget rooms code = None
      \<and> (\<forall>k. i \<le> k \<and> k < j \<longrightarrow> gget rooms (genCode (draws k)) \<noteq> None)"
  proof (cases "gget rooms (genCode (draws i)) = None")
    case True
    with body show ?thesis by (auto simp: Let_def)
  next
    case False
    with body have "pc rooms draws (Suc i) = Some code" by (simp add: Let_def)
    from IH [OF this] show ?thesis
    proof (elim exE conjE)
      fix j assume j: "Suc i \<le> j" "code = genCode (draws j)" "gget rooms code = None"
        "\<forall>k. Suc i \<le> k \<and> k < j \<longrightarrow> gget rooms (genCode (draws k)) \<noteq> None"
      have "gget rooms (genCode (draws k)) \<noteq> None" if "i \<le> k" "k < j" for k
        using that j(4) False by (cases "k = i") auto
      with j(1-3) show ?thesis by (intro exI [where x = j]) auto
    qed
  qed
qed

lemma pick_code_ends:
  assumes "gget rooms (genCode (draws j)) = None" and "i \<le> j"
  shows "\<exists>code. pick_code rooms draws i = Some code"
  using assms(2)
proof (induction i rule: inc_induct)
  case base
  then show ?case using assms(1) by (simp add: pick_code.simps)
next
  case (step i)
  then show ?case by (subst pick_code.simps) (auto simp: Let_def)
qed

lemma pick_code_iff: "pick_code rooms draws 0 = None \<longleftrightarrow> (\<forall>i. gget rooms (genCode (draws i)) \<noteq> None)"
  using pick_code_ends [of rooms draws _ 0] pick_code_first [of rooms draws 0]
  by (metis not_Some_eq zero_le)

lemma hex_digits_inj: "n < 16 \<Longrightarrow> m < 16 \<Longrightarrow> hex_digit n = hex_digit m \<longleftrightarrow> n = m"
proof -
  have "distinct ''0123456789abcdef''" by simp
  then show "n < 16 \<Longrightarrow> m < 16 \<Longrightarrow> hex_digit n = hex_digit m \<longleftrightarrow> n = m"
    unfolding hex_digit_def by (subst nth_eq_iff_index_eq) simp_all
qed

lemma hex_byte_inj:
  assumes "hex_digit (unat x div 16) = hex_digit (unat y div 16)"
    and "hex_digit (unat x mod 16) = hex_digit (unat y mod 16)"
  shows "x = (y :: 8 word)"
proof -
  have b: "unat z div 16 < 16" for z :: "8 word"
    using unsigned_less [of z, where ?'a = nat] by simp
  have "unat x div 16 = unat y div 16" "unat x mod 16 = unat y mod 16"
    using assms hex_digits_inj [OF b b] hex_digits_inj [of "unat x mod 16" "unat y mod 16"] by auto
  then have "unat x = unat y" by (metis div_mult_mod_eq)
  from arg_cong [OF this, of "of_nat :: nat \<Rightarrow> 8 word"] show ?thesis by simp
qed

lemma EncodeToString_inj: "EncodeToString b = EncodeToString b' \<longleftrightarrow> b = b'"
proof (induction b arbitrary: b')
  case Nil
  then show ?case by (cases b') (simp_all add: EncodeToString_def)
next
  case (Cons x b)
  then show ?case using hex_byte_inj by (cases b') (auto simp: EncodeToString_def)
qed

subsection \<open>The well-formed world\<close>

text \<open>
  Codes are keys of the registry once, each names an allocated room with that code, and every
  allocated room is well formed.
\<close>

definition world_ok :: "World \<Rightarrow> bool" where
  "world_ok w \<longleftrightarrow>
     gmap_ok (rg_rooms (w_reg w))
     \<and> (\<forall>code r. gget (rg_rooms (w_reg w)) code = Some r \<longrightarrow>
          (\<exists>rm. gget (w_heap w) r = Some rm \<and> rm_Code rm = code))
     \<and> (\<forall>r rm. gget (w_heap w) r = Some rm \<longrightarrow> r < w_nextRoom w \<and> room_ok rm)"

lemma world_okD:
  assumes "world_ok w"
  shows "gmap_ok (rg_rooms (w_reg w))"
    and "gget (rg_rooms (w_reg w)) code = Some r \<Longrightarrow> \<exists>rm. gget (w_heap w) r = Some rm \<and> rm_Code rm = code"
    and "gget (w_heap w) r = Some rm \<Longrightarrow> r < w_nextRoom w"
    and "gget (w_heap w) r = Some rm \<Longrightarrow> room_ok rm"
  using assms by (auto simp: world_ok_def)

lemma exec_calls_ok: "world_ok (fst (exec_calls room calls w)) = world_ok w"
  by (simp add: world_ok_def)

text \<open>A method that keeps the room's invariant and code keeps the world's.\<close>

lemma on_room_ok:
  assumes ok: "world_ok w"
    and m: "\<And>rm. gget (w_heap w) room = Some rm \<Longrightarrow> room_ok rm \<Longrightarrow>
      room_ok (fst (m rm)) \<and> rm_Code (fst (m rm)) = rm_Code rm"
  shows "world_ok (fst (on_room room m w))"
proof (cases "gget (w_heap w) room")
  case (Some rm)
  have "world_ok (w\<lparr>w_heap := gset room (fst (m rm)) (w_heap w)\<rparr>)"
    using ok m [OF Some world_okD(4) [OF ok Some]] Some by (fastforce simp: world_ok_def)
  then show ?thesis by (simp add: on_room_def Some case_prod_beta exec_calls_ok)
qed (use ok in \<open>simp add: on_room_def\<close>)

lemma Get_iff: "Get code w = Inr r \<longleftrightarrow> gget (rg_rooms (w_reg w)) code = Some r"
  "Get code w = Inl e \<longleftrightarrow> gget (rg_rooms (w_reg w)) code = None"
  by (cases e; simp add: Get_def split: option.split)+

lemma stop_pending_Code [simp]: "rm_Code (stop_pending ps rm) = rm_Code rm"
  by (induction ps arbitrary: rm) simp_all

lemma cleanupMedia_Code [simp]: "rm_Code (cleanupMedia_locked rm) = rm_Code rm"
  by (simp add: cleanupMedia_locked_def Let_def stopEmptyTimerLocked_def split: option.splits)

lemma CleanTrack_cleanup:
  "CleanTrack i \<in> set (snd (cleanupMedia rm)) \<longleftrightarrow> rm_cleanTrack rm \<and> referencesTrack i rm"
  by (auto simp: cleanupMedia_def media_ids_def referencesTrack_def list_ex_iff split: option.splits)

lemma removed_references [simp]: "\<not> referencesTrack i (cleanupMedia_locked rm)"
  by (simp add: referencesTrack_def cleanupMedia_fields)

lemma in_use_iff:
  assumes "gmap_ok (rg_rooms (w_reg w))"
  shows "in_use i w \<longleftrightarrow> (\<exists>code r rm. gget (rg_rooms (w_reg w)) code = Some r
    \<and> gget (w_heap w) r = Some rm \<and> referencesTrack i rm)"
proof
  assume "in_use i w"
  then obtain code r rm where "(code, r) \<in> set (rg_rooms (w_reg w))" "gget (w_heap w) r = Some rm"
    "referencesTrack i rm"
    by (auto simp: in_use_def list_ex_iff split: option.splits)
  with gget_in_set [OF assms] show "\<exists>code r rm. gget (rg_rooms (w_reg w)) code = Some r
    \<and> gget (w_heap w) r = Some rm \<and> referencesTrack i rm" by blast
qed (blast intro: in_useI)

subsection \<open>Properties\<close>

text \<open>A world with two rooms that share a track, for the witnesses.\<close>

definition otherRoom :: Room where
  "otherRoom = (playingRoom ModeSignal)\<lparr>rm_Code := ''S'', rm_playing := None, rm_queue := [track ''t2'']\<rparr>"

definition demoWorld :: World where
  "demoWorld =
     \<lparr>w_reg = \<lparr>rg_rooms = [(''R'', 0), (''S'', 1)], rg_udpPort = 0, rg_cleanTrack = True,
        rg_cacheMgr = False, rg_streamSrc = False, rg_emptyRoomTTL = emptyRoomTTL\<rparr>,
      w_heap = [(0, playingRoom ModeSignal), (1, otherRoom)], w_nextRoom = 2, w_chans = []\<rparr>"

lemma playing_references [simp]:
  "referencesTrack i (playingRoom ModeSignal) \<longleftrightarrow> i = ''t1'' \<or> i = ''t2''"
  "referencesTrack i otherRoom \<longleftrightarrow> i = ''t2''"
  "rm_cleanTrack (playingRoom ModeSignal)"
  by (auto simp: referencesTrack_def playingRoom_def otherRoom_def demoRoom_def newRoom_def)

lemma demoWorld_sel:
  "gget (rg_rooms (w_reg demoWorld)) = [''R'' \<mapsto> 0, ''S'' \<mapsto> 1]"
  "rg_cleanTrack (w_reg demoWorld)"
  "gget (w_heap demoWorld) 0 = Some (playingRoom ModeSignal)"
  "gget (w_heap demoWorld) 1 = Some otherRoom"
  by (auto simp: demoWorld_def)

lemma otherRoom_ok: "room_ok otherRoom"
  by (rule room_ok_cong [OF playingRoom_ok [of ModeSignal]])
    (use room_okD(5) [OF playingRoom_ok [of ModeSignal]] in
      \<open>simp_all add: otherRoom_def queue_ok_def playing_ok_def\<close>)

lemma demoWorld_ok: "world_ok demoWorld"
proof -
  have "rm_Code (playingRoom ModeSignal) = ''R''" "rm_Code otherRoom = ''S''"
    by (simp_all add: playingRoom_def otherRoom_def demoRoom_def newRoom_def)
  then show ?thesis
    using playingRoom_ok otherRoom_ok
    by (auto simp: world_ok_def demoWorld_def gmap_ok_def split: if_splits)
qed

text \<open>
  The codes of rooms are unbiased: of the 256 values of a random byte exactly 8 give each
  letter of the alphabet and none gives anything else, so uniform bytes give uniform codes.
\<close>

lemma room_codes_unbiased:
  "card {b. code_char b = c} = (if c \<in> set alphabet then 8 else 0)"
proof (cases "c \<in> set alphabet")
  case True
  then obtain k where k: "k < 32" "c = alphabet ! k"
    by (auto simp: in_set_conv_nth alphabet_distinct)
  have "code_char b = c \<longleftrightarrow> unat b mod 32 = k" for b
    using nth_eq_iff_index_eq [OF alphabet_distinct(1), of "unat b mod 32" k] k
    by (simp add: code_char_def alphabet_distinct)
  then have "{b. code_char b = c} = {b :: 8 word. unat b mod 32 = k}" by simp
  also have "\<dots> = word_of_nat ` {n::nat. n < 256 \<and> n mod 32 = k}"
  proof (intro subset_antisym subsetI)
    fix b :: "8 word" assume "b \<in> {b. unat b mod 32 = k}"
    then show "b \<in> word_of_nat ` {n::nat. n < 256 \<and> n mod 32 = k}"
      using unsigned_less [of b, where ?'a = nat]
      by (intro image_eqI [where x = "unat b"]) simp_all
  qed (auto simp: unsigned_of_nat take_bit_nat_eq_self)
  finally show ?thesis
    using True residues_count [OF k(1)]
    by (simp add: card_image inj_on_def word_of_nat_eq_iff take_bit_nat_eq_self)
next
  case False
  with code_char_in have "{b. code_char b = c} = {}" by auto
  with False show ?thesis by simp
qed

text \<open>
  Different random bytes give different tokens, and a token of 16 bytes is 32 hexadecimal
  digits long, so it is never empty, the value that stands for \<open>no token\<close>.
\<close>

lemma tokens_determined_by_bytes:
  "(genToken b = genToken b' \<longleftrightarrow> b = b') \<and> length (genToken b) = 2 * length b"
proof -
  have "length (EncodeToString b) = 2 * length b"
    by (induction b) (simp_all add: EncodeToString_def)
  then show ?thesis by (simp add: genToken_def EncodeToString_inj)
qed






text \<open>
  Removing a room takes its code out of the registry, leaves every other code and room alone,
  and releases the room's files: a track it referenced is handed to the cleaner exactly if no
  other registered room references it.
\<close>

lemma removed_room_releases_files:
  assumes ok: "world_ok w" and g: "Get code w = Inr r" and h: "gget (w_heap w) r = Some rm"
  shows "Get code (fst (remove code w)) = Inl ErrRoomNotFound
    \<and> (\<forall>c. c \<noteq> code \<longrightarrow> Get c (fst (remove code w)) = Get c w)
    \<and> (\<forall>r'. r' \<noteq> r \<longrightarrow> gget (w_heap (fst (remove code w))) r' = gget (w_heap w) r')
    \<and> (CleanFile i \<in> set (snd (remove code w)) \<longleftrightarrow>
         rg_cleanTrack (w_reg w) \<and> rm_cleanTrack rm \<and> referencesTrack i rm
         \<and> \<not> (\<exists>c r' rm'. c \<noteq> code \<and> Get c w = Inr r' \<and> gget (w_heap w) r' = Some rm'
               \<and> referencesTrack i rm'))
    \<and> world_ok (fst (remove code w))"
proof -
  let ?w = "w\<lparr>w_reg := (w_reg w)\<lparr>rg_rooms := gdel code (rg_rooms (w_reg w))\<rparr>\<rparr>"
  let ?w' = "fst (on_room r cleanupMedia ?w)"
  have rem: "remove code w = on_room r cleanupMedia ?w"
    using g by (simp add: remove_def Get_iff)
  have other: "r' \<noteq> r" if "c \<noteq> code" "gget (rg_rooms (w_reg w)) c = Some r'" for c r'
    using that world_okD(2) [OF ok that(2)] world_okD(2) [OF ok, of code r] g h by (auto simp: Get_iff)
  have ok': "world_ok ?w'"
    by (rule on_room_ok)
      (use ok in \<open>auto simp: world_ok_def cleanupMedia_def split: if_splits intro: cleanup_keeps\<close>)
  have "in_use i ?w' \<longleftrightarrow> (\<exists>c r' rm'. c \<noteq> code \<and> Get c w = Inr r' \<and> gget (w_heap w) r' = Some rm'
               \<and> referencesTrack i rm')"
    unfolding in_use_iff [OF world_okD(1) [OF ok']] using other h
    by (auto simp: on_room_heap Get_iff cleanupMedia_def split: if_splits) 
  then show ?thesis
    using h ok' by (auto simp: rem CleanFile_on_room CleanTrack_cleanup on_room_heap Get_def)
qed

lemma removed_room_releases_files_example:
  "CleanFile ''t1'' \<in> set (snd (remove ''R'' demoWorld))
   \<and> CleanFile ''t2'' \<notin> set (snd (remove ''R'' demoWorld))"
proof -
  have g: "Get ''R'' demoWorld = Inr 0" "Get ''S'' demoWorld = Inr 1"
    using demoWorld_sel by (simp_all add: Get_def)
  have only: "r' = 1" if "c \<noteq> ''R''" "Get c demoWorld = Inr r'" for c r'
    using that demoWorld_sel by (auto simp: Get_iff split: if_splits)
  note p = removed_room_releases_files [OF demoWorld_ok g(1) demoWorld_sel(3)]
  have "\<not> (\<exists>c r' rm'. c \<noteq> ''R'' \<and> Get c demoWorld = Inr r' \<and> gget (w_heap demoWorld) r' = Some rm'
      \<and> referencesTrack ''t1'' rm')"
    using only demoWorld_sel(4) playing_references by fastforce
  moreover have "\<exists>c r' rm'. c \<noteq> ''R'' \<and> Get c demoWorld = Inr r' \<and> gget (w_heap demoWorld) r' = Some rm'
      \<and> referencesTrack ''t2'' rm'"
    using g(2) demoWorld_sel(4) playing_references
    by (intro exI [where x = "''S''"] exI [where x = 1] exI [where x = otherRoom]) simp
  ultimately show ?thesis
    using p [of "''t1''"] p [of "''t2''"] demoWorld_sel(2) playing_references by simp
qed

end
