(* ===== verification/Member_Props.thy ===== *)
theory Member_Props
  imports Demo
begin

section \<open>What members can rely on\<close>

text \<open>
  The properties of joining, leaving and resuming, of the host's role and of the resume tokens,
  each stated over the methods as the handlers call them. They rest on the table of members
  (theory Member_Spec) and on the invariant of reachable rooms (theory Room_Steps).
\<close>

subsection \<open>Every interleaving keeps the invariant and follows the table\<close>



text \<open>One step of the table, or none.\<close>

inductive spec_step :: "members \<Rightarrow> members \<Rightarrow> bool" where
  "am_table m i = None \<Longrightarrow> tok \<noteq> [] \<Longrightarrow> am_tokens m tok = None \<Longrightarrow> spec_step m (spec_enter i tok m)"
| "am_table m i \<noteq> None \<Longrightarrow> \<not> am_online m i \<Longrightarrow> spec_step m (spec_return i m)"
| "am_online m i \<Longrightarrow> spec_step m (spec_takeover i m)"
| "am_online m i \<Longrightarrow> spec_step m (spec_drop i m)"
| "spec_step m (spec_forget i m)"
| "spec_step m m"

inductive_cases spec_stepE: "spec_step m m'"

lemma table_same:
  assumes "rm_clients r = rm_clients s" "rm_pending r = rm_pending s"
    "rm_tokens r = rm_tokens s" "rm_seqCounter r = rm_seqCounter s"
  shows "spec_step (members_abs s) (members_abs r)"
  using members_abs_cong(1) [OF assms] spec_step.intros(6) by simp

lemma join_simulates:
  assumes ok: "room_ok rm" and j: "Join_locked c resumeToken fresh rm = (c', rm')"
    and fresh: "fresh \<noteq> []" "gget (rm_tokens rm) fresh = None" and room: "in64 (rm_seqCounter rm + 1)"
    and new: "resumeToken = [] \<or> gget (rm_tokens rm) resumeToken = None \<Longrightarrow>
      member_of rm (cl_ID c) = None"
  shows "spec_step (members_abs rm) (members_abs rm')"
proof (cases "resumeToken = [] \<or> gget (rm_tokens rm) resumeToken = None")
  case True
  have "filed_ok rm" using room_okD(1) [OF ok] by (simp add: members_ok_def)
  then show ?thesis
    using refine_enter(1) [OF _ new [OF True] True room j] new [OF True] fresh
    by (auto intro: spec_step.intros(1))
next
  case False
  then obtain i where tok: "resumeToken \<noteq> []" "gget (rm_tokens rm) resumeToken = Some i" by auto
  have m: "members_ok rm" "table_ok (members_abs rm)"
    using room_okD(1) [OF ok] by (simp_all add: members_ok_def)
  obtain s where "member_of rm i = Some (s, resumeToken)"
    using table_okD(3) [OF m(2), of resumeToken i] tok by auto
  then show ?thesis
    using refine_resume(1) [OF m(1) tok room j] spec_step.intros(2,3) [of "members_abs rm" i]
    by auto
qed

text \<open>Sections of playback and of the queue do not touch the table.\<close>

lemma table_plays: "plays rm pb rm' \<Longrightarrow> spec_step (members_abs rm) (members_abs rm')"
  by (rule table_same) (simp_all add: plays_fields)

lemma table_queue:
  "streamMaybeStart_locked rm = Some (rm', tr) \<Longrightarrow> spec_step (members_abs rm) (members_abs rm')"
  "endTrack_locked t rm = Some rm' \<Longrightarrow> spec_step (members_abs rm) (members_abs rm')"
  "streamEndTrack_locked t rm = Some rm' \<Longrightarrow> spec_step (members_abs rm) (members_abs rm')"
  by (rule table_same; auto simp: streamMaybeStart_locked_def endTrack_locked_def
      streamEndTrack_locked_def Let_def split: if_splits option.splits)+



subsection \<open>Resuming, leaving for good, stale connections\<close>

lemma after_leaving:
  "fst (seq [\<lambda>r. (r, calls), broadcastState, recheckReady clk] rm) = fst (recheckReady clk rm)"
  by (simp add: broadcastState_def case_prod_beta Let_def)

lemma Join_fst: "Join c rt fresh rm = (c', rm', calls) \<Longrightarrow> Join_locked c rt fresh rm = (c', rm')"
  by (auto simp: Join_def case_prod_beta seq2_read_only)

text \<open>
  A member whose socket drops and who comes back with its token is the same member: same id,
  same number (so the same place in the host's succession), same token, its old nick unless it
  brings a new one, the host exactly if it was the host before; it is filed under the new
  connection and no longer pending.
\<close>

lemma resume_restores_member:
  assumes ok: "room_ok rm" and c: "gget (rm_clients rm) (cl_ID c) = Some c"
    and drop: "Leave clk ttl c rm = (rm1, calls1)"
    and rejoin: "Join d (cl_Token c) fresh rm1 = (d', rm2, calls2)"
    and host: "rm_hostID rm \<noteq> []"
  shows "cl_ID d' = cl_ID c \<and> cl_Seq d' = cl_Seq c \<and> cl_Token d' = cl_Token c
    \<and> cl_ref d' = cl_ref d
    \<and> cl_Nick d' = (if cl_Nick d = [] then cl_Nick c else cl_Nick d)
    \<and> gget (rm_clients rm2) (cl_ID c) = Some d' \<and> gget (rm_pending rm2) (cl_ID c) = None
    \<and> rm_hostID rm2 = rm_hostID rm
    \<and> members_abs rm2 = members_abs rm"
proof -
  have m: "members_ok rm" "table_ok (members_abs rm)"
    using room_okD(1) [OF ok] by (simp_all add: members_ok_def)
  have me: "member_of rm (cl_ID c) = Some (cl_Seq c, cl_Token c)" using c by (simp add: member_of_def)
  then have tok: "cl_Token c \<noteq> []" "gget (rm_tokens rm) (cl_Token c) = Some (cl_ID c)"
    using table_okD(2) [OF m(2)] by auto
  obtain rm0 calls0 where l: "Leave_locked ttl c rm = Some (rm0, calls0)"
    using c tok by (auto simp: Leave_locked_def Let_def case_prod_beta)
  have rm1: "rm1 = fst (recheckReady clk rm0)"
    using drop l after_leaving [of calls0 clk rm0] by (simp add: Leave_def)
  obtain t where p: "rm_pending rm0 = gset (cl_ID c) \<lparr>pc_seq = cl_Seq c, pc_token = cl_Token c,
      pc_nick = cl_Nick c, pc_timer = Some t\<rparr> (rm_pending rm)"
    using Leave_fields(2) [OF l tok(1)] by blast
  note lf = Leave_fields(1,3-8) [OF l tok(1)]
  have tok1: "gget (rm_tokens rm1) (cl_Token c) = Some (cl_ID c)" using tok lf rm1 by simp
  have p1: "gget (rm_pending rm1) (cl_ID c) = Some \<lparr>pc_seq = cl_Seq c, pc_token = cl_Token c,
      pc_nick = cl_Nick c, pc_timer = Some t\<rparr>"
    using p rm1 by simp
  note b = Join_back [OF tok(1) tok1 p1 Join_fst [OF rejoin]]
  have "gget (rm_pending rm) (cl_ID c) = None"
    using filed_okD(5) [OF _ c] m(1) by (simp add: members_ok_def)
  then have "members_abs rm2 = members_abs rm"
    using c p lf rm1
    by (intro members_eqI) (auto simp: b(2-5) b(1) member_of_def split: option.splits if_splits)
  moreover have "rm_hostID rm2 = rm_hostID rm" using b(6) rm1 lf host by simp
  moreover have "gget (rm_clients rm2) (cl_ID c) = Some d'" "gget (rm_pending rm2) (cl_ID c) = None"
    by (simp_all add: b(2,3))
  ultimately show ?thesis by (simp add: b(1))
qed

text \<open>
  A connection that is no longer the one filed under its id (a second connection resumed the
  member meanwhile) changes nothing when its socket closes.
\<close>

lemma stale_leave_noop:
  assumes "gget (rm_clients rm) (cl_ID c) = Some d" and "cl_ref d \<noteq> cl_ref c"
  shows "Leave clk ttl c rm = (rm, [])"
  using assms by (simp add: Leave_def Leave_locked_def)

text \<open>
  An explicit \<^verbatim>\<open>bye\<close>, or the end of the grace period, removes the member for good: it is
  neither connected nor pending, its token opens nothing any more (joining with it is joining as
  a newcomer), and every other member keeps its entry.
\<close>

lemma leaving_for_good:
  assumes ok: "room_ok rm" and m: "member_of rm i = Some (s, tok)"
    and away: "rm' = fst (HardLeave clk ttl i rm)
      \<or> (gget (rm_clients rm) i = None \<and> rm' = fst (finalizeLeave clk ttl i rm))"
  shows "member_of rm' i = None \<and> gget (rm_tokens rm') tok = None
    \<and> (\<forall>j. j \<noteq> i \<longrightarrow> member_of rm' j = member_of rm j)
    \<and> cl_Token (fst (Join c tok fresh rm')) = fresh"
proof -
  have mo: "members_ok rm" using room_okD(1) [OF ok] .
  obtain rm0 where abs0: "members_abs rm0 = spec_forget i (members_abs rm)"
    and rm': "rm' = fst (recheckReady clk rm0)"
  proof (cases "rm' = fst (HardLeave clk ttl i rm)")
    case True
    then show ?thesis
      using that [of "fst (HardLeave_locked ttl i rm)"] refine_hard_leave(1) [OF mo]
      by (simp add: HardLeave_def case_prod_beta after_leaving del: seq.simps)
  next
    case False
    with away m obtain p where p: "gget (rm_pending rm) i = Some p"
      by (auto simp: member_of_def split: option.splits)
    then obtain rm0 calls where l: "finalizeLeave_locked ttl i rm = Some (rm0, calls)"
      by (simp add: finalizeLeave_locked_def Let_def)
    from False away l show ?thesis
      using that [of rm0] refine_finalize(1) [OF mo l]
      by (simp add: finalizeLeave_def after_leaving del: seq.simps)
  qed
  have "members_abs rm' = members_abs rm0"
    by (rule members_abs_cong) (simp_all add: rm')
  with abs0 have abs: "members_abs rm' = spec_forget i (members_abs rm)" by simp
  have tab: "member_of rm' = (member_of rm)(i := None)"
    using arg_cong [OF abs, of am_table] by (simp add: spec_forget_def)
  have tok: "gget (rm_tokens rm') tok = None"
    using fun_cong [OF arg_cong [OF abs, of am_tokens], of tok] m by (simp add: spec_forget_def)
  obtain c' rm2 where j: "Join_locked c tok fresh rm' = (c', rm2)" by force
  then have "cl_Token c' = fresh" using Join_new(1) [OF _ j] tok by simp
  with j tab tok show ?thesis by (simp add: Join_def)
qed

lemma leaving_for_good_example:
  "let rm' = fst (HardLeave (\<lambda>_. 0) emptyRoomTTL ''a'' (demoRoom ModeSignal))
   in member_of rm' ''a'' = None \<and> gget (rm_tokens rm') ''ta'' = None
      \<and> member_of rm' ''b'' = Some (2, ''tb'')"
proof -
  have m: "member_of (demoRoom ModeSignal) ''a'' = Some (1, ''ta'')"
    and b: "member_of (demoRoom ModeSignal) ''b'' = Some (2, ''tb'')"
    by (simp_all add: member_of_def demo_defs)
  from leaving_for_good [OF demoRoom_ok m, of "fst (HardLeave (\<lambda>_. 0) emptyRoomTTL ''a'' (demoRoom ModeSignal))"
      "\<lambda>_. 0" emptyRoomTTL] b
  show ?thesis by (simp add: Let_def)
qed

subsection \<open>The host\<close>

lemma oldest_from_least:
  "oldest_from best cs = Some c \<Longrightarrow>
     (Some c = best \<or> c \<in> set cs) \<and> (\<forall>d \<in> set cs. cl_Seq c \<le> cl_Seq d)
     \<and> (\<forall>b. best = Some b \<longrightarrow> cl_Seq c \<le> cl_Seq b)"
proof (induction cs arbitrary: best)
  case (Cons d cs)
  then show ?case by (cases best) (fastforce split: if_splits)+
qed simp

lemma oldest_from_Some: "best \<noteq> None \<or> cs \<noteq> [] \<Longrightarrow> \<exists>c. oldest_from best cs = Some c"
proof (induction cs arbitrary: best)
  case (Cons d cs)
  then show ?case by (cases best) auto
qed auto



text \<open>
  The role is lost when nobody is connected to take it: after the only connected member says
  \<^verbatim>\<open>bye\<close>, the room still names it as host, and whoever joins next is not the host, although the
  room names a host that is no member. (Nobody can then change the settings.)
\<close>

lemma host_vacancy:
  assumes "rm_clients rm = [(i, c)]" and "rm_hostID rm = i" "i \<noteq> []" and "cl_ID d \<noteq> i"
    and bye: "rm1 = fst (HardLeave clk ttl i rm)"
    and join: "Join d [] fresh rm1 = (d', rm2, calls)"
  shows "rm_hostID rm2 = i \<and> member_of rm2 i = None \<and> \<not> IsHost (cl_ID d') rm2
    \<and> gget (rm_clients rm2) (cl_ID d') = Some d'"
proof -
  obtain rm0 calls0 where h: "HardLeave_locked ttl i rm = (rm0, calls0)" by force
  have rm1: "rm1 = fst (recheckReady clk rm0)"
    by (simp add: bye HardLeave_def h after_leaving del: seq.simps)
  have "rm_hostID rm0 = i"
    using h assms(1,2) by (auto simp: HardLeave_locked_def Let_def promoteIfHostGone_def split: option.splits)
  then have r1: "rm_hostID rm1 = i" "rm_clients rm1 = []" "gget (rm_pending rm1) i = None"
    using HardLeave_fields(1,2) [OF h] assms(1) by (simp_all add: rm1)
  note j = Join_new [OF disjI1 [OF refl] Join_fst [OF join]]
  show ?thesis
    using r1 assms(3,4) by (simp add: j(2,3,6) j(1) member_of_def IsHost_def)
qed

lemma host_vacancy_example:
  "let rm1 = fst (HardLeave (\<lambda>_. 0) emptyRoomTTL ''a''
                    (demoRoom ModeSignal\<lparr>rm_clients := [(''a'', aliceIn)]\<rparr>));
       (b, rm2, calls) = Join bob [] ''tb'' rm1
   in rm_hostID rm2 = ''a'' \<and> member_of rm2 ''a'' = None \<and> \<not> IsHost (cl_ID b) rm2"
proof -
  let ?rm = "demoRoom ModeSignal\<lparr>rm_clients := [(''a'', aliceIn)]\<rparr>"
  let ?rm1 = "fst (HardLeave (\<lambda>_. 0) emptyRoomTTL ''a'' ?rm)"
  let ?j = "Join bob [] ''tb'' ?rm1"
  have "?j = (fst ?j, fst (snd ?j), snd (snd ?j))" by simp
  from host_vacancy [OF _ _ _ _ refl this, of aliceIn]
  show ?thesis by (simp add: Let_def case_prod_beta demo_defs)
qed

subsection \<open>What a member is told\<close>

text \<open>
  Everything in a room that is secret from member \<open>i\<close> is blanked out: the tokens of the other
  clients and of the pending members, and the table of tokens.
\<close>

definition hide_tokens :: "string \<Rightarrow> Room \<Rightarrow> Room" where
  "hide_tokens i rm =
     rm\<lparr>rm_clients := List.map (\<lambda>(k, c). (k, if k = i then c else c\<lparr>cl_Token := []\<rparr>)) (rm_clients rm),
        rm_pending := List.map (\<lambda>(k, p). (k, p\<lparr>pc_token := []\<rparr>)) (rm_pending rm),
        rm_tokens := []\<rparr>"

lemma gget_hidden:
  "gget (List.map (\<lambda>(k, c). (k, if k = i then c else c\<lparr>cl_Token := []\<rparr>)) cs) i = gget cs i"
  by (induction cs) auto

lemma snapshot_hides: "snapshot i (hide_tokens i rm) = snapshot i rm"
  by (simp add: snapshot_def hide_tokens_def gget_hidden case_prod_beta comp_def)

text \<open>
  C32: a broadcast of the room's state sends each client one \<^verbatim>\<open>room_state\<close>, computed from the room
  with everybody else's resume token blanked out; the token it carries is the client's own.
\<close>

theorem broadcast_keeps_tokens_private:
  assumes ok: "room_ok rm" and sent: "Send r env \<in> set (snd (broadcastState rm))"
  shows "\<exists>i c. gget (rm_clients rm) i = Some c \<and> cl_ref c = r
      \<and> env = MustEncode TypeRoomState (json_of_RoomStateData (snapshot i (hide_tokens i rm)))
      \<and> rs_ResumeToken (snapshot i (hide_tokens i rm)) = cl_Token c
      \<and> rs_SelfID (snapshot i (hide_tokens i rm)) = i"
proof -
  have f: "filed_ok rm" using room_okD(1) [OF ok] by (simp add: members_ok_def)
  from sent obtain i c where ic: "(i, c) \<in> set (rm_clients rm)" "cl_ref c = r"
    "env = MustEncode TypeRoomState (json_of_RoomStateData (snapshot i rm))"
    by (auto simp: broadcastState_def)
  then have "gget (rm_clients rm) i = Some c"
    using gget_in_set [OF filed_okD(1) [OF f]] by simp
  with ic show ?thesis unfolding snapshot_hides by (intro exI [of _ i] exI [of _ c]) (simp add: snapshot_def)
qed

theorem broadcast_keeps_tokens_private_witness:
  "snd (broadcastState (demoRoom ModeSignal)) \<noteq> []
   \<and> (\<exists>i c. gget (rm_clients (demoRoom ModeSignal)) i = Some c \<and> cl_ref c = 1
        \<and> rs_ResumeToken (snapshot i (hide_tokens i (demoRoom ModeSignal))) = cl_Token c)"
proof -
  let ?env = "MustEncode TypeRoomState (json_of_RoomStateData (snapshot ''a'' (demoRoom ModeSignal)))"
  have "Send 1 ?env \<in> set (snd (broadcastState (demoRoom ModeSignal)))"
    by (simp add: broadcastState_def demoRoom_def aliceIn_def)
  from broadcast_keeps_tokens_private [OF demoRoom_ok this] this show ?thesis by auto
qed

text \<open>
  The members a client is shown are the connected ones and those in their grace period, each
  with its latest health report, and nobody twice.
\<close>

lemma snapshot_members:
  assumes ok: "room_ok rm"
  shows "distinct (List.map mb_ID (rs_Members (snapshot i rm)))
    \<and> set (List.map mb_ID (rs_Members (snapshot i rm))) = {k. member_of rm k \<noteq> None}
    \<and> (\<forall>m \<in> set (rs_Members (snapshot i rm)). mb_Health m = gget (rm_health rm) (mb_ID m))"
proof -
  have f: "filed_ok rm" using room_okD(1) [OF ok] by (simp add: members_ok_def)
  have ids: "cl_ID c = k" if "(k, c) \<in> set (rm_clients rm)" for k c
    using that filed_okD(4) [OF f, of k c] gget_in_set [OF filed_okD(1) [OF f]] by simp
  then have "List.map mb_ID (rs_Members (snapshot i rm)) = gkeys (rm_clients rm) @ gkeys (rm_pending rm)"
    by (auto simp: snapshot_def case_prod_beta comp_def)
  moreover have "set (gkeys (rm_clients rm)) \<inter> set (gkeys (rm_pending rm)) = {}"
    using f unfolding filed_ok_def gget_None by blast
  moreover have "{k. member_of rm k \<noteq> None} = set (gkeys (rm_clients rm)) \<union> set (gkeys (rm_pending rm))"
  proof -
    have "member_of rm k \<noteq> None \<longleftrightarrow> gget (rm_clients rm) k \<noteq> None \<or> gget (rm_pending rm) k \<noteq> None" for k
      by (simp add: member_of_def split: option.split)
    then show ?thesis unfolding gget_None by blast
  qed
  moreover have "\<forall>m \<in> set (rs_Members (snapshot i rm)). mb_Health m = gget (rm_health rm) (mb_ID m)"
    by (auto simp: snapshot_def)
  ultimately show ?thesis
    using filed_okD(1,2) [OF f] by (simp add: gmap_ok_def del: set_map)
qed

lemma snapshot_members_example:
  "List.map mb_ID (rs_Members (snapshot ''a'' (demoRoom ModeStream))) = [''a'', ''b'']
   \<and> distinct (List.map mb_ID (rs_Members (snapshot ''a'' (demoRoom ModeStream))))"
  using snapshot_members [OF demoRoom_ok [of ModeStream], of "''a''"]
  by (simp add: snapshot_def demo_defs)

subsection \<open>Settings and permissions\<close>

lemma clampSettings_id: "settings_ok s \<Longrightarrow> clampSettings s = s"
  by (auto simp: clampSettings_def settings_ok_def Let_def)

lemma SetSettings_fst: "fst (SetSettings s rm) = rm\<lparr>rm_settings := clampSettings s\<rparr>"
  by (simp add: SetSettings_def Let_def case_prod_beta broadcastState_def reconcileCache_def)

text \<open>
  Whatever settings a client sends, the room's settings end up within their limits; settings
  within the limits are taken as they are, and the four policies are never changed.
\<close>

lemma settings_are_clamped:
  "settings_ok (rm_settings (fst (SetSettings s rm)))
   \<and> (settings_ok s \<longrightarrow> rm_settings (fst (SetSettings s rm)) = s)
   \<and> PolicyFor (rm_settings (fst (SetSettings s rm))) scope = PolicyFor s scope"
  by (auto simp: SetSettings_fst clampSettings_id)
    (auto simp: PolicyFor_def clampSettings_def Let_def)

text \<open>
  Permissions fail closed: somebody who is not the host may act in a scope only if it is one
  of the four known scopes and its policy is literally \<^verbatim>\<open>everyone\<close>.
\<close>

lemma permission_fails_closed:
  "IsAllowed i scope rm =
     (IsHost i rm
      \<or> (scope \<in> {ScopeEnqueue, ScopeSkip, ScopeRemove, ScopeControl}
         \<and> PolicyFor (rm_settings rm) scope = PolicyEveryone))"
  by (auto simp: IsAllowed_def IsHost_def PolicyFor_def)

subsection \<open>The removal of an empty room\<close>

lemma Join_timers:
  "gget (rm_timers (stopEmptyTimerLocked rm)) t = None \<Longrightarrow>
   gget (rm_timers (snd (Join_locked c rt fresh rm))) t = None"
  by (auto simp: join_defs StopTimer_def split: option.splits)

text \<open>
  When the only connected client drops, the room is empty and a timer is armed that will
  remove it after the registry's time to live; as soon as somebody joins again, with or without
  a token, that timer is disarmed.
\<close>

lemma empty_room_timer:
  assumes ok: "room_ok rm" and c: "rm_clients rm = [(cl_ID c, c)]"
    and drop: "Leave clk ttl c rm = (rm1, calls)"
  shows "rm_clients rm1 = []
    \<and> (\<exists>t. rm_emptyTimer rm1 = Some t
           \<and> gget (rm_timers rm1) t = Some \<lparr>tm_wait = ttl, tm_cb = CbEmpty\<rparr>
           \<and> rm_emptyTimer (fst (snd (Join d rt fresh rm1))) = None
           \<and> gget (rm_timers (fst (snd (Join d rt fresh rm1)))) t = None)"
proof -
  have m: "table_ok (members_abs rm)" using room_okD(1) [OF ok] by (simp add: members_ok_def)
  have "member_of rm (cl_ID c) = Some (cl_Seq c, cl_Token c)" using c by (simp add: member_of_def)
  then have tok: "cl_Token c \<noteq> []" using table_okD(2) [OF m] by auto
  have unarmed: "rm_emptyTimer rm = None"
    using room_okD(4) [OF ok] c by (auto simp: empty_timer_ok_def)
  obtain rm0 calls0 where l: "Leave_locked ttl c rm = Some (rm0, calls0)"
    using c tok by (auto simp: Leave_locked_def Let_def case_prod_beta)
  have none: "rm_clients rm0 = []" using Leave_fields(1) [OF l tok] c by simp
  have rm1: "rm1 = rm0"
    using drop l after_leaving [of calls0 clk rm0] none
    by (auto simp: Leave_def recheckReady_def recheckReady_locked_def split: option.splits)
  have armed: "\<exists>t. rm_emptyTimer rm0 = Some t \<and> gget (rm_timers rm0) t = Some \<lparr>tm_wait = ttl, tm_cb = CbEmpty\<rparr>"
    using l c tok unarmed
    by (auto simp: Leave_locked_def Let_def AfterFunc_def scheduleEmptyTimerLocked_def)
  obtain c' rm2 where j: "Join_locked d rt fresh rm1 = (c', rm2)" by force
  have "rm_emptyTimer rm2 = None"
    using Join_new(9) [OF _ j] Join_back(9) [OF _ _ _ j] Join_over(9) [OF _ _ _ j] by fastforce
  moreover have "fst (snd (Join d rt fresh rm1)) = rm2"
    using j by (simp add: Join_def case_prod_beta seq2_read_only del: seq.simps)
  moreover have "gget (rm_timers rm2) t = None" if "rm_emptyTimer rm1 = Some t" for t
    using Join_timers [of rm1 t d rt fresh] that j by (simp add: stopEmptyTimerLocked_def StopTimer_def)
  ultimately show ?thesis using armed none rm1 by auto
qed

lemma empty_room_timer_example:
  "rm_clients (fst (Leave (\<lambda>_. 0) emptyRoomTTL aliceIn
       (snd (Join_locked alice [] ''ta'' (newRoom ''R'' ModeSignal 0 False False False))))) = []"
proof -
  let ?r0 = "newRoom ''R'' ModeSignal 0 False False False"
  let ?r1 = "snd (Join_locked alice [] ''ta'' ?r0)"
  have "room_ok ?r1"
    by (rule join_keeps [OF room_ok_new prod.collapse [symmetric]])
      (simp_all add: newRoom_def member_of_def in64_def)
  moreover have "rm_clients ?r1 = [(cl_ID aliceIn, aliceIn)]"
    by (simp add: join_defs demo_defs in64_def)
  ultimately show ?thesis
    by (rule empty_room_timer [THEN conjunct1]) (rule prod.collapse [symmetric])
qed

end
