(* ===== verification/Handler_Props.thy ===== *)
theory Handler_Props
  imports Handler Registry_Props Member_Props
begin

section \<open>What a connection can do\<close>

text \<open>
  Properties of the handler: what a client may change with and without permission and outside a
  room, when the handler can get stuck or panic, and what creating a room and a ping give back.
\<close>

lemmas handler_defs = sendErr_def ignore_def run_on_def

lemmas case_defs = on_create_def on_join_def on_enqueue_def on_skip_def on_remove_def on_control_def
  on_set_settings_def on_ready_def on_progress_def on_bye_def on_rtc_def on_ping_def

lemmas client_type_defs = TypeCreate_def TypeJoin_def TypeEnqueue_def TypeSkip_def TypeRemove_def
  TypeControl_def TypeSetSettings_def TypeReady_def TypeProgress_def TypeBye_def TypePing_def
  TypeRTC_def

text \<open>The message a client sends.\<close>

definition message :: "string \<Rightarrow> json option \<Rightarrow> json option" where
  "message typ data = Some (json_of_Envelope \<lparr>env_Type = typ, env_Data = data\<rparr>)"

lemma handle_by_type:
  "handle_message ev (message TypeCreate data) = on_create ev data"
  "handle_message ev (message TypeJoin data) = on_join ev data"
  "handle_message ev (message TypeEnqueue data) = on_enqueue ev data"
  "handle_message ev (message TypeSkip data) = on_skip"
  "handle_message ev (message TypeRemove data) = on_remove data"
  "handle_message ev (message TypeControl data) = on_control ev data"
  "handle_message ev (message TypeSetSettings data) = on_set_settings data"
  "handle_message ev (message TypeReady data) = on_ready ev data"
  "handle_message ev (message TypeProgress data) = on_progress ev data"
  "handle_message ev (message TypeBye data) = on_bye ev"
  "handle_message ev (message TypePing data) = on_ping ev data"
  "handle_message ev (message TypeRTC data) = on_rtc data"
  by (rule ext, rule ext, simp add: handle_message_def message_def decode_envelope client_type_defs)+

definition error_reply :: "Conn \<Rightarrow> string \<Rightarrow> string \<Rightarrow> World \<Rightarrow> World" where
  "error_reply c code msg w =
     trySend (cl_ref (cn_client c))
       (MustEncode TypeError (json_of_ErrorData \<lparr>err_Code = code, err_Message = msg\<rparr>)) w"

lemma sendErr_reply: "sendErr code msg c w = Done (c, error_reply c code msg w, [])"
  by (simp add: sendErr_def error_reply_def)

lemma trySend_frame [simp]:
  "w_heap (trySend ch env w) = w_heap w" "w_reg (trySend ch env w) = w_reg w"
  by (simp_all add: trySend_def)

lemma error_reply_frame [simp]:
  "w_heap (error_reply c code msg w) = w_heap w" "w_reg (error_reply c code msg w) = w_reg w"
  by (simp_all add: error_reply_def)

definition permission :: "(string \<times> string) list" where
  "permission = [(TypeEnqueue, ScopeEnqueue), (TypeSkip, ScopeSkip), (TypeRemove, ScopeRemove),
                 (TypeControl, ScopeControl)]"

text \<open>A connection in the first room of the demo world.\<close>

definition demoConn :: Conn where
  "demoConn = \<lparr>cn_client = bobIn, cn_current = Some 0\<rparr>"

definition demoEnv :: Env where
  "demoEnv = \<lparr>ev_clock = (\<lambda>_. 5000), ev_tokenBytes = [1], ev_draws = (\<lambda>_. [0, 0, 0, 0, 0, 0]),
     ev_bcOK = True, ev_hasPipeline = True, ev_resolve = track\<rparr>"

text \<open>The type a message has, as the handler reads it; empty for an envelope it rejects.\<close>

definition type_of :: "json option \<Rightarrow> string" where
  "type_of raw =
     (let (env, err) = Unmarshal Envelope_fields Envelope_zero raw in if err then [] else env_Type env)"

lemma type_of_message [simp]: "type_of (message typ data) = typ"
  by (simp add: type_of_def message_def decode_envelope)

lemma handle_cases:
  obtains (error) code msg where "handle_message ev raw = sendErr code msg"
  | (create) data where "handle_message ev raw = on_create ev data" "type_of raw = TypeCreate"
  | (join) data where "handle_message ev raw = on_join ev data" "type_of raw = TypeJoin"
  | (enqueue) data where "handle_message ev raw = on_enqueue ev data" "type_of raw = TypeEnqueue"
  | (skip) "handle_message ev raw = on_skip" "type_of raw = TypeSkip"
  | (remove) data where "handle_message ev raw = on_remove data" "type_of raw = TypeRemove"
  | (control) data where "handle_message ev raw = on_control ev data" "type_of raw = TypeControl"
  | (settings) data where "handle_message ev raw = on_set_settings data" "type_of raw = TypeSetSettings"
  | (ready) data where "handle_message ev raw = on_ready ev data" "type_of raw = TypeReady"
  | (progress) data where "handle_message ev raw = on_progress ev data" "type_of raw = TypeProgress"
  | (bye) "handle_message ev raw = on_bye ev" "type_of raw = TypeBye"
  | (rtc) data where "handle_message ev raw = on_rtc data" "type_of raw = TypeRTC"
  | (ping) data where "handle_message ev raw = on_ping ev data" "type_of raw = TypePing"
proof -
  obtain env err where u: "Unmarshal Envelope_fields Envelope_zero raw = (env, err)" by fastforce
  let ?t = "env_Type env"
  note h = handle_message_def u type_of_def
  show thesis
  proof (cases err)
    case True
    have "handle_message ev raw = sendErr ''bad_message'' ''invalid envelope''"
      by (rule ext, rule ext) (simp add: h True)
    then show thesis by (rule error)
  next
    case False
    consider "?t = TypeCreate" | "?t = TypeJoin" | "?t = TypeEnqueue" | "?t = TypeSkip"
      | "?t = TypeRemove" | "?t = TypeControl" | "?t = TypeSetSettings" | "?t = TypeReady"
      | "?t = TypeProgress" | "?t = TypeBye" | "?t = TypeRTC" | "?t = TypePing"
      | "?t \<notin> {TypeCreate, TypeJoin, TypeEnqueue, TypeSkip, TypeRemove, TypeControl,
          TypeSetSettings, TypeReady, TypeProgress, TypeBye, TypeRTC, TypePing}" by auto
    then show thesis
    proof cases
      case 1 show thesis by (rule create [of "env_Data env"]) (use False 1 in \<open>simp_all add: h fun_eq_iff\<close>) next
      case 2 show thesis by (rule join [of "env_Data env"]) (use False 2 in \<open>simp_all add: h client_type_defs fun_eq_iff\<close>) next
      case 3 show thesis by (rule enqueue [of "env_Data env"]) (use False 3 in \<open>simp_all add: h client_type_defs fun_eq_iff\<close>) next
      case 4 show thesis by (rule skip) (use False 4 in \<open>simp_all add: h client_type_defs fun_eq_iff\<close>) next
      case 5 show thesis by (rule remove [of "env_Data env"]) (use False 5 in \<open>simp_all add: h client_type_defs fun_eq_iff\<close>) next
      case 6 show thesis by (rule control [of "env_Data env"]) (use False 6 in \<open>simp_all add: h client_type_defs fun_eq_iff\<close>) next
      case 7 show thesis by (rule settings [of "env_Data env"]) (use False 7 in \<open>simp_all add: h client_type_defs fun_eq_iff\<close>) next
      case 8 show thesis by (rule ready [of "env_Data env"]) (use False 8 in \<open>simp_all add: h client_type_defs fun_eq_iff\<close>) next
      case 9 show thesis by (rule progress [of "env_Data env"]) (use False 9 in \<open>simp_all add: h client_type_defs fun_eq_iff\<close>) next
      case 10 show thesis by (rule bye) (use False 10 in \<open>simp_all add: h client_type_defs fun_eq_iff\<close>) next
      case 11 show thesis by (rule rtc [of "env_Data env"]) (use False 11 in \<open>simp_all add: h client_type_defs fun_eq_iff\<close>) next
      case 12 show thesis by (rule ping [of "env_Data env"]) (use False 12 in \<open>simp_all add: h client_type_defs fun_eq_iff\<close>) next
      case 13
      have "handle_message ev raw = sendErr ''unknown_type'' ''unsupported message type''"
        by (rule ext, rule ext) (use False 13 in \<open>simp add: h\<close>)
      then show thesis by (rule error)
    qed
  qed
qed

lemma done_simps [simp]:
  "sendErr code msg c w \<noteq> Blocks" "sendErr code msg c w \<noteq> Crashes m"
  "ignore c w \<noteq> Blocks" "ignore c w \<noteq> Crashes m"
  "run_on room f c w \<noteq> Blocks" "run_on room f c w \<noteq> Crashes m"
  "join_room ev room tok c w \<noteq> Blocks" "join_room ev room tok c w \<noteq> Crashes m"
  "try_on room g c w \<noteq> Blocks"
  by (simp_all add: handler_defs join_room_def try_on_def case_prod_beta Let_def
      split: option.splits outcome.splits)

lemma Create_blocks: "Create draws bcOK mode w = None \<longleftrightarrow> (\<forall>i. Get (genCode (draws i)) w \<noteq> Inl ErrRoomNotFound)"
  using pick_code_iff [of "rg_rooms (w_reg w)" draws]
  by (cases "pick_code (rg_rooms (w_reg w)) draws 0") (simp_all add: Create_def Let_def Get_iff)

lemma ping_blocks: "on_ping ev data c w = Blocks \<longleftrightarrow> chan_cap \<le> length (chan (cl_ref (cn_client c)) w)"
  by (simp add: on_ping_def Let_def case_prod_beta not_less)

definition streamWorld :: World where
  "streamWorld = demoWorld\<lparr>w_reg := (w_reg demoWorld)\<lparr>rg_rooms := [(''R'', 0)]\<rparr>,
     w_heap := [(0, playingRoom ModeStream)]\<rparr>"

lemma streamWorld_ok: "world_ok streamWorld"
proof -
  have "rm_Code (playingRoom ModeStream) = ''R''" by (simp add: playingRoom_def demoRoom_def newRoom_def)
  then show ?thesis
    using playingRoom_ok by (auto simp: world_ok_def streamWorld_def demoWorld_def gmap_ok_def split: if_splits)
qed

text \<open>
  C13: a client without the permission changes nothing. If the room's settings do not allow the
  client an action, the message for it, whatever its payload, has one result: an error reply to
  this client, with no room, no registry entry and no file touched. Settings are for the host
  only, whatever the policies say.
\<close>

theorem forbidden_changes_nothing:
  assumes "cn_current c = Some room" and "gget (w_heap w) room = Some rm"
    and "(typ, scope) \<in> set permission \<and> \<not> IsAllowed (cl_ID (cn_client c)) scope rm
      \<or> typ = TypeSetSettings \<and> cl_ID (cn_client c) \<noteq> rm_hostID rm"
    and "ev_hasPipeline ev"
  shows "\<exists>msg. handle_message ev (message typ data) c w =
    Done (c, error_reply c ''forbidden'' msg w, [])"
  using assms
  by (auto simp: permission_def handle_by_type case_defs allowed_def isHost_def the_room_def
      IsHost_def sendErr_reply)

theorem forbidden_changes_nothing_witness:
  "\<exists>msg. handle_message demoEnv (message TypeSetSettings None) demoConn demoWorld =
    Done (demoConn, error_reply demoConn ''forbidden'' msg demoWorld, [])"
proof -
  have "cn_current demoConn = Some 0" "ev_hasPipeline demoEnv"
    "cl_ID (cn_client demoConn) \<noteq> rm_hostID (playingRoom ModeSignal)"
    by (simp_all add: demoConn_def demoEnv_def playingRoom_def demoRoom_def newRoom_def bobIn_def)
  then show ?thesis
    using forbidden_changes_nothing [OF _ demoWorld_sel(3), of demoConn TypeSetSettings "[]" demoEnv None]
    by simp
qed



text \<open>
  In a signal room no message, well formed or not, panics. The only panics are reports of a
  client of a stream room that something is playing in.
\<close>

lemma MarkReady_panics:
  assumes "MarkReady clk i t rm = Panic m" and "playing_ok rm"
  shows "isStream rm \<and> rm_playing rm \<noteq> None"
  using assms
  by (auto simp: MarkReady_def MarkReady_locked_def ready_set_def playing_ok_def Let_def
      split: option.splits if_splits)

lemma MarkProgress_panics:
  assumes "MarkProgress clk i d rm = Panic m" and "playing_ok rm"
  shows "isStream rm \<and> rm_playing rm \<noteq> None"
proof -
  let ?rm = "rm\<lparr>rm_health := gset i \<lparr>hl_Confidence = prog_Confidence d, hl_BufferedMs = prog_HaveMs d,
    hl_Bps = prog_Bps d, hl_Ready = prog_Ready d\<rparr> (rm_health rm)\<rparr>"
  from assms(1) have "MarkReady clk i (prog_TrackID d) ?rm = Panic m"
    by (cases "MarkReady clk i (prog_TrackID d) ?rm")
      (auto simp: MarkProgress_def broadcastState_def Let_def split: if_splits)
  moreover have "playing_ok ?rm" using assms(2) by (simp add: playing_ok_def isStream_def)
  ultimately show ?thesis using MarkReady_panics by (fastforce simp: isStream_def)
qed

lemma only_stream_reports_panic:
  assumes ok: "world_ok w" and "handle_message ev raw c w = Crashes m"
  shows "(type_of raw = TypeReady \<or> type_of raw = TypeProgress)
    \<and> (\<exists>room rm. cn_current c = Some room \<and> gget (w_heap w) room = Some rm
         \<and> isStream rm \<and> rm_playing rm \<noteq> None)"
proof -
  have p: "playing_ok rm" if "gget (w_heap w) room = Some rm" for room rm
    using room_okD(3) [OF world_okD(4) [OF ok that]] .
  have t: "\<exists>rm. gget (w_heap w) room = Some rm \<and> g rm = Panic m" if "try_on room g c w = Crashes m" for room g
    using that by (auto simp: try_on_def ignore_def run_on_def case_prod_beta split: option.splits outcome.splits)
  show ?thesis
    using assms(2)
  proof (cases rule: handle_cases [of ev raw])
    case (ready data)
    with assms(2) show ?thesis
      by (auto simp: on_ready_def case_prod_beta Let_def split: if_splits option.splits
          dest!: t dest: MarkReady_panics [OF _ p])
  next
    case (progress data)
    with assms(2) show ?thesis
      by (auto simp: on_progress_def case_prod_beta Let_def split: if_splits option.splits
          dest!: t dest: MarkProgress_panics [OF _ p])
  qed (auto simp: case_defs case_prod_beta Let_def split: if_splits option.splits sum.splits)
qed

text \<open>
  A connection that is in no room can enter one and nothing else: any other message leaves
  every room, the registry and the connection as they are and touches no file; at most a reply
  for this client is queued.
\<close>

lemma outsiders_change_nothing:
  assumes "cn_current c = None" and "type_of raw \<noteq> TypeCreate" and "type_of raw \<noteq> TypeJoin"
    and "handle_message ev raw c w = Done (c', w', es)"
  shows "c' = c \<and> es = [] \<and> w_heap w' = w_heap w \<and> w_reg w' = w_reg w
    \<and> (\<forall>ch. ch \<noteq> cl_ref (cn_client c) \<longrightarrow> chan ch w' = chan ch w)"
  using assms(4)
proof (cases rule: handle_cases [of ev raw])
qed (use assms in \<open>auto simp: case_defs handler_defs Let_def case_prod_beta chan_trySend
      split: if_splits\<close>)

lemma outsiders_change_nothing_example:
  "\<exists>w' es. handle_message demoEnv (message TypeSkip None) (newConn 3 ''x'') demoWorld = Done (newConn 3 ''x'', w', es)
     \<and> w_heap w' = w_heap demoWorld"
proof -
  have h: "handle_message demoEnv (message TypeSkip None) (newConn 3 ''x'') demoWorld
      = Done (newConn 3 ''x'', error_reply (newConn 3 ''x'') ''not_in_room'' ''join a room first'' demoWorld, [])"
    by (simp add: handle_by_type on_skip_def newConn_def sendErr_reply)
  with outsiders_change_nothing [OF _ _ _ h] show ?thesis
    by (simp add: newConn_def client_type_defs)
qed

subsection \<open>Entering a room\<close>

lemma join_room_done:
  assumes "gget (w_heap w) room = Some rm"
    and "Join_locked (cn_client c) tok (genToken (ev_tokenBytes ev)) rm = (client, rm')"
  shows "\<exists>w' es. join_room ev room tok c w
      = Done (c\<lparr>cn_client := client, cn_current := Some room\<rparr>, w', es)
    \<and> w_heap w' = gset room rm' (w_heap w) \<and> w_reg w' = w_reg w"
proof -
  let ?e = "exec_calls room (snd (broadcastState rm') @ snd (catchUp client rm'))
    (w\<lparr>w_heap := gset room rm' (w_heap w)\<rparr>)"
  show ?thesis
    using assms
    by (intro exI [where x = "fst ?e"] exI [where x = "snd ?e"])
      (simp add: join_room_def Join_def seq2_read_only case_prod_beta)
qed

text \<open>
  Whoever creates a room is its only member and its host: after a \<open>create\<close> that returns, the
  connection is in a room that was not there before, registered under its code, in the mode asked
  for (signal unless stream was asked for), with this client, under the new token, as its only
  client and its host.
\<close>

lemma creator_is_host:
  assumes ok: "world_ok w" and out: "cn_current c = None"
    and h: "handle_message ev (message TypeCreate (Some (json_of_CreateData d))) c w = Done (c', w', es)"
  shows "\<exists>room rm. cn_current c' = Some room \<and> gget (w_heap w) room = None
    \<and> gget (w_heap w') room = Some rm \<and> Get (rm_Code rm) w' = Inr room
    \<and> rm_Mode rm = (if create_Mode d = ModeStream then ModeStream else ModeSignal)
    \<and> rm_clients rm = [(cl_ID (cn_client c), cn_client c')]
    \<and> cn_client c' = (cn_client c)\<lparr>cl_Nick := create_Nick d, cl_Seq := 1,
        cl_Token := genToken (ev_tokenBytes ev)\<rparr>
    \<and> rm_hostID rm = cl_ID (cn_client c)"
proof -
  let ?mode = "if create_Mode d \<noteq> ModeSignal \<and> create_Mode d \<noteq> ModeStream then ModeSignal else create_Mode d"
  let ?c = "set_nick (create_Nick d) c" and ?tok = "genToken (ev_tokenBytes ev)"
  have o: "on_create ev (Some (json_of_CreateData d)) c w = Done (c', w', es)"
    using h by (simp add: handle_by_type)
  obtain room w1 where cr: "Create (ev_draws ev) (ev_bcOK ev) ?mode w = Some (room, w1)"
    and j: "join_room ev room [] ?c w1 = Done (c', w', es)"
    using o out by (auto simp: on_create_def decode_create Let_def split: option.splits)
  obtain code where p: "pick_code (rg_rooms (w_reg w)) (ev_draws ev) 0 = Some code"
    using cr by (cases "pick_code (rg_rooms (w_reg w)) (ev_draws ev) 0") (simp_all add: Create_def Let_def)
  let ?rm = "newRoom code ?mode (rg_udpPort (w_reg w)) (rg_cacheMgr (w_reg w)) (rg_streamSrc (w_reg w))
    (?mode = ModeStream \<and> rg_streamSrc (w_reg w) \<and> ev_bcOK ev)"
  have w1: "room = w_nextRoom w" "gget (w_heap w1) room = Some ?rm" "gget (rg_rooms (w_reg w1)) code = Some room"
    using cr p by (auto simp: Create_def Let_def)
  obtain client rm' where jl: "Join_locked (cn_client ?c) [] ?tok ?rm = (client, rm')" by fastforce
  note f = Join_new [OF _ jl, simplified]
  have fr: "client = (cn_client c)\<lparr>cl_Nick := create_Nick d, cl_Seq := 1, cl_Token := ?tok\<rparr>"
    "rm_clients rm' = [(cl_ID (cn_client c), client)]" "rm_hostID rm' = cl_ID (cn_client c)"
    "rm_Mode rm' = ?mode"
    using f by (simp_all add: newRoom_def set_nick_def in64_def)
  have "rm_Code rm' = code"
    using jl by (auto simp: join_defs newRoom_def stopEmptyTimerLocked_def)
  moreover have "c' = ?c\<lparr>cn_client := client, cn_current := Some room\<rparr>"
    "w_heap w' = gset room rm' (w_heap w1)" "w_reg w' = w_reg w1"
    using join_room_done [OF w1(2) jl] j by auto
  moreover have "gget (w_heap w) room = None"
    using world_okD(3) [OF ok, of room] w1(1) by (cases "gget (w_heap w) room") auto
  ultimately show ?thesis
    using fr w1(3) by (intro exI [where x = room] exI [where x = rm']) (auto simp: Get_def)
qed

lemma creator_is_host_example:
  "\<exists>c' w' es room rm.
     handle_message demoEnv (message TypeCreate (Some (json_of_CreateData
       \<lparr>create_Mode = ModeSignal, create_Nick = ''N''\<rparr>))) (newConn 3 ''x'') demoWorld = Done (c', w', es)
     \<and> cn_current c' = Some room \<and> gget (w_heap w') room = Some rm \<and> rm_hostID rm = ''x''"
proof -
  let ?h = "handle_message demoEnv (message TypeCreate (Some (json_of_CreateData
       \<lparr>create_Mode = ModeSignal, create_Nick = ''N''\<rparr>))) (newConn 3 ''x'') demoWorld"
  have out: "cn_current (newConn 3 ''x'') = None" by (simp add: newConn_def)
  have c: "Create (ev_draws demoEnv) (ev_bcOK demoEnv) ModeSignal demoWorld \<noteq> None"
    unfolding Create_blocks by (simp add: Get_def demoWorld_def genCode_def code_char_def alphabet_def demoEnv_def)
  then have "?h \<noteq> Blocks" "?h \<noteq> Crashes m" for m
    by (auto simp: handle_by_type on_create_def decode_create newConn_def Let_def split: option.splits)
  then obtain c' w' es where h: "?h = Done (c', w', es)" by (cases ?h) auto
  from creator_is_host [OF demoWorld_ok out h] h show ?thesis by (auto simp: newConn_def)
qed

text \<open>
  A ping is answered with the time it carried, followed by the times it was read and
  answered, in this order, as the last message in the client's channel.
\<close>

lemma pong_echoes_ping:
  assumes "in64 t0" and "length (chan (cl_ref (cn_client c)) w) < chan_cap"
  shows "\<exists>w'. handle_message ev (message TypePing (Some (json_of_PingData \<lparr>ping_T0 = t0\<rparr>))) c w = Done (c, w', [])
    \<and> w_heap w' = w_heap w \<and> w_reg w' = w_reg w
    \<and> chan (cl_ref (cn_client c)) w' = chan (cl_ref (cn_client c)) w
        @ [MustEncode TypePong (json_of_PongData
             \<lparr>pong_T0 = t0, pong_T1 = ev_clock ev 0, pong_T2 = ev_clock ev 1\<rparr>)]"
  using assms
  by (simp add: handle_by_type on_ping_def decode_ping chan_trySend try_send_def Let_def)

lemma pong_echoes_ping_example:
  "\<exists>w'. handle_message demoEnv (message TypePing (Some (json_of_PingData \<lparr>ping_T0 = 7\<rparr>))) demoConn demoWorld
     = Done (demoConn, w', [])
   \<and> chan 2 w' = [MustEncode TypePong (json_of_PongData \<lparr>pong_T0 = 7, pong_T1 = 5000, pong_T2 = 5000\<rparr>)]"
proof -
  have "cl_ref (cn_client demoConn) = 2" "chan 2 demoWorld = []" "ev_clock demoEnv = (\<lambda>_. 5000)"
    by (simp_all add: chan_def demoWorld_def demoConn_def bobIn_def demoEnv_def)
  then show ?thesis
    using pong_echoes_ping [of 7 demoConn demoWorld demoEnv] by (auto simp: in64_def chan_cap_def)
qed

lemma disconnect_room:
  assumes "cn_current c = Some room" and "gget (w_heap w) room = Some rm"
  shows "gget (w_heap (fst (disconnect ev c w))) room
      = Some (fst (Leave (ev_clock ev) (rg_emptyRoomTTL (w_reg w)) (cn_client c) rm))"
    and "w_reg (fst (disconnect ev c w)) = w_reg w"
  using assms by (simp_all add: disconnect_def on_room_heap)

text \<open>
  C7: a dropped connection can be resumed. When the connection of a member is lost and another
  connection joins with the room's code and the member's token before its grace period is over, it
  is the same member: same id, same number, same token, host exactly if it was host, and the room's
  table of members is what it was before the loss; the room now holds the new connection's client.
\<close>

theorem dropped_connection_resumes:
  assumes ok: "world_ok w" and cur: "cn_current c = Some room" and rm: "gget (w_heap w) room = Some rm"
    and filed: "gget (rm_clients rm) (cl_ID (cn_client c)) = Some (cn_client c)"
    and code: "Get code w = Inr room" and host: "rm_hostID rm \<noteq> []" and out: "cn_current d = None"
    and h: "handle_message ev2 (message TypeJoin (Some (json_of_JoinData
        \<lparr>join_RoomCode = code, join_Nick = nick, join_ResumeToken = cl_Token (cn_client c)\<rparr>))) d
      (fst (disconnect ev c w)) = Done (d', w', es)"
  shows "cn_current d' = Some room \<and> cl_ref (cn_client d') = cl_ref (cn_client d)
    \<and> cl_ID (cn_client d') = cl_ID (cn_client c) \<and> cl_Seq (cn_client d') = cl_Seq (cn_client c)
    \<and> cl_Token (cn_client d') = cl_Token (cn_client c)
    \<and> cl_Nick (cn_client d') = (if nick = [] then cl_Nick (cn_client c) else nick)
    \<and> (\<exists>rm'. gget (w_heap w') room = Some rm' \<and> members_abs rm' = members_abs rm
         \<and> rm_hostID rm' = rm_hostID rm
         \<and> gget (rm_clients rm') (cl_ID (cn_client c)) = Some (cn_client d'))"
proof -
  let ?w = "fst (disconnect ev c w)" and ?tok = "cl_Token (cn_client c)" and ?d = "set_nick nick d"
  obtain rm1 calls1 where l: "Leave (ev_clock ev) (rg_emptyRoomTTL (w_reg w)) (cn_client c) rm = (rm1, calls1)"
    by fastforce
  have w1: "gget (w_heap ?w) room = Some rm1" "Get code ?w = Inr room"
    using disconnect_room [OF cur rm, of ev] l code by (simp_all add: Get_def)
  then have j: "join_room ev2 room ?tok ?d ?w = Done (d', w', es)"
    using h out by (simp add: handle_by_type on_join_def decode_join)
  obtain client rm2 calls2 where
    join: "Join (cn_client ?d) ?tok (genToken (ev_tokenBytes ev2)) rm1 = (client, rm2, calls2)"
    by (metis prod_cases3)
  note r = resume_restores_member [OF world_okD(4) [OF ok rm] filed l join host]
  have "d' = ?d\<lparr>cn_client := client, cn_current := Some room\<rparr>" "gget (w_heap w') room = Some rm2"
    using join_room_done [OF w1(1) Join_fst [OF join]] j by auto
  then show ?thesis using r by (simp add: set_nick_def)
qed

theorem dropped_connection_resumes_witness:
  "\<exists>d' w' es. handle_message demoEnv (message TypeJoin (Some (json_of_JoinData
       \<lparr>join_RoomCode = ''R'', join_Nick = [], join_ResumeToken = ''tb''\<rparr>))) (newConn 3 ''x'')
       (fst (disconnect demoEnv demoConn demoWorld)) = Done (d', w', es)
     \<and> cl_ID (cn_client d') = ''b'' \<and> cl_Seq (cn_client d') = 2 \<and> cl_Nick (cn_client d') = ''Bob''"
proof -
  let ?h = "handle_message demoEnv (message TypeJoin (Some (json_of_JoinData
       \<lparr>join_RoomCode = ''R'', join_Nick = [], join_ResumeToken = cl_Token (cn_client demoConn)\<rparr>))) (newConn 3 ''x'')
       (fst (disconnect demoEnv demoConn demoWorld))"
  have "?h \<noteq> Blocks" "?h \<noteq> Crashes m" for m
    by (auto simp: handle_by_type on_join_def decode_join newConn_def split: sum.splits)
  then obtain d' w' es where h: "?h = Done (d', w', es)" by (cases ?h) auto
  have c: "cn_current demoConn = Some 0" "cn_client demoConn = bobIn" "cn_current (newConn 3 ''x'') = None"
    by (simp_all add: demoConn_def newConn_def)
  have "gget (rm_clients (playingRoom ModeSignal)) (cl_ID (cn_client demoConn)) = Some (cn_client demoConn)"
    "rm_hostID (playingRoom ModeSignal) \<noteq> []" "Get ''R'' demoWorld = Inr 0"
    using demoWorld_sel(1) by (simp_all add: playingRoom_def demoRoom_def newRoom_def aliceIn_def bobIn_def c Get_def)
  from dropped_connection_resumes [OF demoWorld_ok c(1) demoWorld_sel(3) this(1,3,2) c(3) h] h
  show ?thesis by (simp add: c) (auto simp: bobIn_def)
qed

subsection \<open>Messages on the wire\<close>



end
