(* ===== verification/System.thy ===== *)
theory System
  imports Handler_Props
begin

section \<open>The server under all its connections, timers and updates\<close>

text \<open>
  The whole server: the world and its live connections. A step is one message of one connection,
  a connect or disconnect, a timer that goes off, an update of the pipeline, the end of a streamed
  track, or a write to a client. Steps of different connections interleave in any order. The
  invariant says what holds between rooms and connections whatever the order is.
\<close>

subsection \<open>Timers of a room\<close>

definition cbs :: "Room \<Rightarrow> callback set" where
  "cbs rm = {cb. \<exists>i t. gget (rm_timers rm) i = Some t \<and> tm_cb t = cb}"

lemma cbs_StopTimer: "cbs (StopTimer t rm) \<subseteq> cbs rm"
  by (auto simp: cbs_def StopTimer_def split: option.splits if_splits)

lemma cbs_AfterFunc: "cbs (snd (AfterFunc d cb rm)) \<subseteq> insert cb (cbs rm)"
  by (auto simp: cbs_def AfterFunc_def split: if_splits)

lemma cbs_cong: "rm_timers r = rm_timers s \<Longrightarrow> cbs r = cbs s"
  by (simp add: cbs_def)

lemma cbs_updates [simp]:
  "cbs (rm\<lparr>rm_clients := x1\<rparr>) = cbs rm" "cbs (rm\<lparr>rm_queue := x2\<rparr>) = cbs rm"
  "cbs (rm\<lparr>rm_playing := x3\<rparr>) = cbs rm" "cbs (rm\<lparr>rm_hostID := x4\<rparr>) = cbs rm"
  "cbs (rm\<lparr>rm_seqCounter := x5\<rparr>) = cbs rm" "cbs (rm\<lparr>rm_settings := x6\<rparr>) = cbs rm"
  "cbs (rm\<lparr>rm_health := x7\<rparr>) = cbs rm" "cbs (rm\<lparr>rm_tokens := x8\<rparr>) = cbs rm"
  "cbs (rm\<lparr>rm_pending := x9\<rparr>) = cbs rm" "cbs (rm\<lparr>rm_emptyTimer := x10\<rparr>) = cbs rm"
  by (simp_all add: cbs_def)

lemma cbs_stopEmpty: "cbs (stopEmptyTimerLocked rm) \<subseteq> cbs rm"
  by (simp add: stopEmptyTimerLocked_def cbs_StopTimer)

lemma cbs_scheduleEmpty: "cbs (scheduleEmptyTimerLocked ttl e rm) \<subseteq> insert CbEmpty (cbs rm)"
  using cbs_stopEmpty [of rm] cbs_AfterFunc [of ttl CbEmpty rm]
  by (auto simp: scheduleEmptyTimerLocked_def case_prod_beta)

lemma cbs_promote [simp]: "cbs (promoteIfHostGone i rm) = cbs rm"
  by (simp add: promoteIfHostGone_def split: option.splits)

lemma cbs_stop_pending: "cbs (stop_pending ps rm) \<subseteq> cbs rm"
proof (induction ps arbitrary: rm)
  case (Cons p ps)
  then show ?case using cbs_StopTimer [of "pc_timer p" rm] by (auto dest: subsetD)
qed simp

lemma cbs_Join: "cbs (snd (Join_locked c tok fresh rm)) \<subseteq> cbs rm"
  using cbs_stopEmpty [of rm] subset_trans [OF cbs_StopTimer cbs_stopEmpty]
  by (auto simp: join_defs split: option.splits dest: subsetD)

lemma cbs_Leave:
  assumes "Leave_locked ttl c rm = Some (rm', calls)"
  shows "cbs rm' \<subseteq> cbs rm \<union> {CbFinalize (cl_ID c), CbEmpty}"
proof -
  note s = subset_trans [OF cbs_scheduleEmpty insert_mono]
  show ?thesis
    using assms cbs_AfterFunc [of resumeTTL "CbFinalize (cl_ID c)" "rm\<lparr>rm_clients := gdel (cl_ID c) (rm_clients rm)\<rparr>"]
    by (auto simp: Leave_locked_def Let_def case_prod_beta split: if_splits
        dest!: subsetD [OF cbs_scheduleEmpty])
qed

lemma cbs_HardLeave: "cbs (fst (HardLeave_locked ttl i rm)) \<subseteq> insert CbEmpty (cbs rm)"
  by (auto simp: HardLeave_locked_def Let_def split: option.splits
      dest!: subsetD [OF cbs_scheduleEmpty] subsetD [OF cbs_StopTimer])

lemma cbs_finalize:
  "finalizeLeave_locked ttl i rm = Some (rm', calls) \<Longrightarrow> cbs rm' \<subseteq> insert CbEmpty (cbs rm)"
  by (auto simp: finalizeLeave_locked_def Let_def split: option.splits
      dest!: subsetD [OF cbs_scheduleEmpty])

lemma cbs_cleanup: "cbs (cleanupMedia_locked rm) \<subseteq> cbs rm"
  by (auto simp: cleanupMedia_locked_def Let_def split: option.splits
      dest!: subsetD [OF cbs_stop_pending] subsetD [OF cbs_StopTimer] subsetD [OF cbs_stopEmpty])

text \<open>In a stream room only the timers of members and of the empty room are ever armed.\<close>

fun member_cb :: "callback \<Rightarrow> bool" where
  "member_cb (CbFinalize i) = True"
| "member_cb CbEmpty = True"
| "member_cb _ = False"

definition room_inv :: "Room \<Rightarrow> bool" where
  "room_inv rm \<longleftrightarrow> room_ok rm \<and> (isStream rm \<longrightarrow> (\<forall>cb \<in> cbs rm. member_cb cb))"

lemma room_invD: "room_inv rm \<Longrightarrow> room_ok rm" "room_inv rm \<Longrightarrow> isStream rm \<Longrightarrow> cb \<in> cbs rm \<Longrightarrow> member_cb cb"
  by (auto simp: room_inv_def)

lemma room_inv_signal: "\<not> isStream rm \<Longrightarrow> room_inv rm \<longleftrightarrow> room_ok rm"
  by (simp add: room_inv_def)

lemma room_inv_cbs:
  assumes "room_inv rm" "room_ok rm'" "rm_Mode rm' = rm_Mode rm" "cbs rm' \<subseteq> cbs rm \<union> {cb. member_cb cb}"
  shows "room_inv rm'"
  using assms by (auto simp: room_inv_def isStream_def)

subsection \<open>Methods that leave the clients alone\<close>

definition keeps :: "room_op \<Rightarrow> Room \<Rightarrow> bool" where
  "keeps m rm \<longleftrightarrow> (room_inv rm \<longrightarrow> room_inv (fst (m rm)))
     \<and> rm_Code (fst (m rm)) = rm_Code rm \<and> rm_clients (fst (m rm)) = rm_clients rm"

named_theorems method_keeps \<open>methods of a room that keep its invariant, code and clients\<close>

lemma plays_Code: "plays rm pb rm' \<Longrightarrow> rm_Code rm' = rm_Code rm"
  by (subst (asm) plays_def, erule ssubst) simp

lemma keeps_id: "fst (m rm) = rm \<Longrightarrow> keeps m rm"
  by (simp add: keeps_def)

lemma keeps_signal:
  assumes "\<not> isStream rm" "room_ok rm \<Longrightarrow> room_ok (fst (m rm))" "rm_Mode (fst (m rm)) = rm_Mode rm"
    "rm_Code (fst (m rm)) = rm_Code rm" "rm_clients (fst (m rm)) = rm_clients rm"
  shows "keeps m rm"
  using assms by (auto simp: keeps_def room_inv_def isStream_def)

lemma startPlayback_fst:
  "fst (startPlayback clk t rm) = (case startPlayback_locked clk t rm of None \<Rightarrow> rm | Some (rm', _) \<Rightarrow> rm')"
  by (simp add: startPlayback_def split: option.splits prod.splits)

lemma startPlayback_Code [simp]: "rm_Code (fst (startPlayback clk t rm)) = rm_Code rm"
  by (auto simp: startPlayback_fst plays_Code elim: startPlayback_acts split: option.splits)

lemma startPlayback_method [method_keeps]: "\<not> isStream rm \<Longrightarrow> keeps (startPlayback clk t) rm"
  using start_keeps [of rm clk t]
  by (intro keeps_signal) (simp_all, auto simp: startPlayback_fst split: option.splits)

text \<open>In a stream room nobody is ready, so nothing is started behind the broadcaster's back.\<close>

lemma recheckReady_stream: "room_ok rm \<Longrightarrow> isStream rm \<Longrightarrow> recheckReady clk rm = (rm, [])"
  using room_okD(10) [of rm]
  by (cases "rm_playing rm"; cases "rm_clients rm")
    (auto simp: recheckReady_def recheckReady_locked_def allReady_def ready_get_def)

lemma recheckReady_Code [simp]: "rm_Code (fst (recheckReady clk rm)) = rm_Code rm"
  by (simp add: recheckReady_def split: option.splits)

lemma recheckReady_inv: "room_inv rm \<Longrightarrow> room_inv (fst (recheckReady clk rm))"
proof (cases "isStream rm")
  case False
  assume "room_inv rm"
  with False startPlayback_method [OF False] show ?thesis
    by (auto simp: recheckReady_def keeps_def split: option.splits)
qed (simp add: recheckReady_stream room_invD)

lemma Pause_fst: "fst (Pause clk rm) =
    (if isStream rm then rm else case Pause_locked clk rm of None \<Rightarrow> rm | Some (rm', _) \<Rightarrow> rm')"
  by (simp add: Pause_def split: option.splits prod.splits)

lemma Resume_fst: "fst (Resume clk rm) =
    (if isStream rm then rm else case Resume_locked clk rm of None \<Rightarrow> rm | Some (rm', _) \<Rightarrow> rm')"
  by (simp add: Resume_def split: option.splits prod.splits)

lemma SeekTo_fst: "fst (SeekTo clk ms rm) =
    (if isStream rm then rm else case SeekTo_locked clk ms rm of None \<Rightarrow> rm | Some (rm', _) \<Rightarrow> rm')"
  by (simp add: SeekTo_def split: option.splits prod.splits)

lemma Pause_method [method_keeps]: "keeps (Pause clk) rm"
proof (cases "isStream rm")
  case False
  then show ?thesis using pause_keeps [of rm clk]
    by (intro keeps_signal) (auto simp: Pause_fst split: option.splits elim!: Pause_acts dest: plays_fields plays_Code)
qed (simp add: Pause_fst keeps_id)

lemma Resume_method [method_keeps]: "keeps (Resume clk) rm"
proof (cases "isStream rm")
  case False
  then show ?thesis using resume_keeps [of rm clk]
    by (intro keeps_signal) (auto simp: Resume_fst split: option.splits elim!: Resume_acts dest: plays_fields plays_Code)
qed (simp add: Resume_fst keeps_id)

lemma SeekTo_method [method_keeps]: "keeps (SeekTo clk ms) rm"
proof (cases "isStream rm")
  case False
  then show ?thesis using seek_keeps [of rm clk ms]
    by (intro keeps_signal) (auto simp: SeekTo_fst split: option.splits elim!: SeekTo_acts dest: plays_fields plays_Code)
qed (simp add: SeekTo_fst keeps_id)

lemma maybeStart_Code [simp]: "rm_Code (fst (maybeStart rm)) = rm_Code rm"
  by (auto simp: maybeStart_def split: option.splits dest!: maybeStart_acts(2) plays_Code)

lemma endTrack_method [method_keeps]: "\<not> isStream rm \<Longrightarrow> keeps (endTrack t) rm"
proof (rule keeps_signal)
  assume "\<not> isStream rm" "room_ok rm"
  then show "room_ok (fst (endTrack t rm))"
    using endTrack_signal_ok [of rm t] by (simp add: signal_ok_def)
qed (auto simp: endTrack_fst endTrack_locked_def Let_def split: option.splits)

lemma streamMaybeStart_frame:
  "rm_Code (fst (streamMaybeStart rm)) = rm_Code rm" "rm_clients (fst (streamMaybeStart rm)) = rm_clients rm"
  "cbs (fst (streamMaybeStart rm)) = cbs rm"
  by (auto simp: streamMaybeStart_fst streamMaybeStart_locked_def split: option.splits)

lemma streamEndTrack_frame:
  "rm_Code (fst (streamEndTrack t rm)) = rm_Code rm" "rm_clients (fst (streamEndTrack t rm)) = rm_clients rm"
  "cbs (fst (streamEndTrack t rm)) = cbs rm" "rm_Mode (fst (streamEndTrack t rm)) = rm_Mode rm"
  by (auto simp: streamEndTrack_fst streamEndTrack_locked_def streamMaybeStart_frame
      streamMaybeStart_fields split: option.splits)

lemma streamEndTrack_room_ok:
  assumes "room_ok rm" and "isStream rm" shows "room_ok (fst (streamEndTrack t rm))"
proof (cases "streamEndTrack_locked t rm")
  case (Some rm')
  then show ?thesis
    using assms stream_end_keeps [of rm t rm'] streamMaybeStart_keeps [of rm']
      streamEndTrack_locked_fields(4) [OF Some] by (simp add: streamEndTrack_fst)
qed (use assms in \<open>simp add: streamEndTrack_fst\<close>)

lemma streamEndTrack_method [method_keeps]: "isStream rm \<Longrightarrow> keeps (streamEndTrack t) rm"
  using streamEndTrack_room_ok [of rm t] by (auto simp: keeps_def room_inv_def streamEndTrack_frame isStream_def)

lemma Skip_method [method_keeps]: "keeps Skip rm"
proof (cases "isStream rm")
  case True
  then show ?thesis using streamEndTrack_method [OF True]
    by (auto simp: Skip_def streamSkip_def keeps_def Let_def case_prod_beta)
next
  case False
  then show ?thesis using endTrack_method [OF False]
    by (auto simp: Skip_def keeps_def split: option.splits)
qed

lemma RemoveTrack_method [method_keeps]: "keeps (RemoveTrack t) rm"
  using remove_keeps [of rm t] by (auto simp: keeps_def RemoveTrack_fst room_inv_def)

lemma UpsertTrack_method [method_keeps]: "keeps (UpsertTrack t) rm"
proof -
  let ?rm = "rm\<lparr>rm_queue := upsert t (rm_queue rm)\<rparr>"
  have "keeps startNext ?rm"
  proof (cases "isStream rm")
    case True
    then show ?thesis using startNext_keeps [of ?rm] streamMaybeStart_frame [of ?rm] startNext_mode [of ?rm]
      by (auto simp: keeps_def room_inv_def startNext_def)
  next
    case False
    then show ?thesis using startNext_keeps [of ?rm]
      by (intro keeps_signal) (auto simp: startNext_def case_prod_beta Let_def)
  qed
  then show ?thesis
    using upsert_keeps [of rm t] by (auto simp: keeps_def UpsertTrack_fst room_inv_def)
qed

lemma SetSettings_method [method_keeps]: "keeps (SetSettings s) rm"
proof -
  have "room_ok rm \<Longrightarrow> room_ok (rm\<lparr>rm_settings := clampSettings s\<rparr>)"
    using step_keeps [OF room_step.settings] .
  then show ?thesis by (auto simp: keeps_def SetSettings_fst room_inv_def isStream_def)
qed

lemma HandleRTC_method [method_keeps]: "keeps (HandleRTC i sig) rm"
  by (rule keeps_id) (simp add: HandleRTC_def)

lemma cleanupMedia_Mode [simp]: "rm_Mode (cleanupMedia_locked rm) = rm_Mode rm"
proof -
  have "rm_Mode (stop_pending ps r) = rm_Mode r" for ps r by (induction ps arbitrary: r) simp_all
  then show ?thesis by (simp add: cleanupMedia_locked_def Let_def split: option.splits)
qed

lemma cleanupMedia_method [method_keeps]: "keeps cleanupMedia rm"
  using cleanup_keeps [of rm] cbs_cleanup [of rm]
  by (auto simp: keeps_def cleanupMedia_def cleanupMedia_fields room_inv_def isStream_def)

lemma Code_fields [simp]:
  "rm_Code (stopEmptyTimerLocked rm) = rm_Code rm"
  "rm_Code (scheduleEmptyTimerLocked ttl e rm) = rm_Code rm"
  "rm_Code (promoteIfHostGone i rm) = rm_Code rm"
  by (simp_all add: stopEmptyTimerLocked_def scheduleEmptyTimerLocked_def promoteIfHostGone_def
      case_prod_beta split: option.splits)

lemma finalizeLeave_fst: "fst (finalizeLeave clk ttl i rm) =
    (case finalizeLeave_locked ttl i rm of None \<Rightarrow> rm | Some (rm', _) \<Rightarrow> fst (recheckReady clk rm'))"
  by (auto simp: finalizeLeave_def after_leaving simp del: seq.simps split: option.splits)

lemma finalize_Code: "finalizeLeave_locked ttl i rm = Some (rm', calls) \<Longrightarrow> rm_Code rm' = rm_Code rm"
  by (auto simp: finalizeLeave_locked_def Let_def split: option.splits)

lemma finalizeLeave_method [method_keeps]: "keeps (finalizeLeave clk ttl i) rm"
proof (cases "finalizeLeave_locked ttl i rm")
  case (Some res)
  obtain rm' calls where l: "finalizeLeave_locked ttl i rm = Some (rm', calls)" using Some by (cases res) auto
  have "room_inv rm'" if inv: "room_inv rm"
    using finalize_keeps [OF room_invD(1) [OF inv] l] finalizeLeave_fields(5) [OF l] cbs_finalize [OF l]
    by (intro room_inv_cbs [OF inv]) auto
  then show ?thesis
    using recheckReady_inv [of rm' clk] finalizeLeave_fields(1) [OF l] finalize_Code [OF l]
    by (simp add: keeps_def finalizeLeave_fst l)
qed (simp add: keeps_def finalizeLeave_fst)

lemma MarkReady_method: "MarkReady clk i t rm = Ok res \<Longrightarrow> keeps (\<lambda>_. res) rm"
proof -
  assume r: "MarkReady clk i t rm = Ok res"
  obtain rm' np start where l: "MarkReady_locked i t rm = Ok (rm', np, start)"
    using r by (cases "MarkReady_locked i t rm") (auto simp: MarkReady_def)
  have f: "fst res = (if np = None \<and> start then fst (startPlayback clk t rm') else rm')"
    using r l by (auto simp: MarkReady_def split: option.splits)
  from l have frame: "rm_Code rm' = rm_Code rm" "rm_clients rm' = rm_clients rm" "rm_Mode rm' = rm_Mode rm"
      "cbs rm' = cbs rm" "start \<Longrightarrow> room_ok rm \<Longrightarrow> \<not> isStream rm"
    by (cases rule: MarkReady_locked_cases; use room_okD(10) [of rm] in force)+
  have inv: "room_inv rm'" if "room_inv rm"
    using that frame ready_keeps [OF room_invD(1) [OF that] l]
    by (intro room_inv_cbs [OF that]) auto
  have "room_inv (fst (startPlayback clk t rm'))" if "room_inv rm" "start"
    using inv [OF that(1)] startPlayback_method [of rm' clk t] frame(3,5) room_invD(1) [OF that(1)] that(2)
    by (simp add: keeps_def isStream_def)
  with inv frame show ?thesis by (auto simp: keeps_def f)
qed

lemma MarkProgress_method: "MarkProgress clk i d rm = Ok res \<Longrightarrow> keeps (\<lambda>_. res) rm"
proof -
  assume r: "MarkProgress clk i d rm = Ok res"
  let ?rm = "rm\<lparr>rm_health := gset i \<lparr>hl_Confidence = prog_Confidence d, hl_BufferedMs = prog_HaveMs d,
    hl_Bps = prog_Bps d, hl_Ready = prog_Ready d\<rparr> (rm_health rm)\<rparr>"
  have k: "room_inv rm \<Longrightarrow> room_inv ?rm"
    using step_keeps [OF room_step.progress, of rm] by (auto simp: room_inv_def isStream_def)
  show ?thesis
  proof (cases "prog_Ready d")
    case True
    then obtain res' where m: "MarkReady clk i (prog_TrackID d) ?rm = Ok res'" and f: "fst res = fst res'"
      using r by (cases "MarkReady clk i (prog_TrackID d) ?rm") (auto simp: MarkProgress_def broadcastState_def)
    show ?thesis using MarkReady_method [OF m] k by (simp add: keeps_def f)
  next
    case False
    then have "fst res = ?rm" using r by (auto simp: MarkProgress_def broadcastState_def Let_def)
    with k show ?thesis by (simp add: keeps_def)
  qed
qed

subsection \<open>Methods that file and unfile clients\<close>

text \<open>
  What an entering connection is promised: its new token is new, its id is not that of a member
  (a uuid, or the id of a member it has removed with \<^verbatim>\<open>bye\<close>), and the counter has room.
\<close>

definition entry_ok :: "Env \<Rightarrow> Conn \<Rightarrow> Room \<Rightarrow> bool" where
  "entry_ok ev c rm \<longleftrightarrow>
     genToken (ev_tokenBytes ev) \<noteq> [] \<and> gget (rm_tokens rm) (genToken (ev_tokenBytes ev)) = None
     \<and> in64 (rm_seqCounter rm + 1) \<and> member_of rm (cl_ID (cn_client c)) = None"

lemma Join_files:
  assumes inv: "room_inv rm" and new: "fresh \<noteq> []" "gget (rm_tokens rm) fresh = None"
      "in64 (rm_seqCounter rm + 1)" "member_of rm (cl_ID c) = None"
    and j: "Join_locked c tok fresh rm = (c', rm')"
  shows "room_inv rm' \<and> rm_Code rm' = rm_Code rm \<and> cl_ref c' = cl_ref c
    \<and> rm_clients rm' = gset (cl_ID c') c' (rm_clients rm)"
proof -
  have ok: "room_ok rm'"
    using join_keeps [OF room_invD(1) [OF inv] j new(1-3)] new(4) by blast
  have "rm_Mode rm' = rm_Mode rm \<and> cl_ref c' = cl_ref c \<and> rm_clients rm' = gset (cl_ID c') c' (rm_clients rm)"
  proof (cases "tok = [] \<or> gget (rm_tokens rm) tok = None")
    case True
    show ?thesis using Join_new [OF True j] by simp
  next
    case False
    then obtain i where i: "tok \<noteq> []" "gget (rm_tokens rm) tok = Some i" by auto
    show ?thesis
      using Join_back [OF i _ j] Join_over [OF i _ j] by (cases "gget (rm_pending rm) i") simp_all
  qed
  moreover have "rm_Code rm' = rm_Code rm"
    using j by (auto simp: join_defs split: option.splits if_splits)
  moreover have "cbs rm' \<subseteq> cbs rm" using cbs_Join [of c tok fresh rm] by (simp add: j)
  ultimately show ?thesis using room_inv_cbs [OF inv ok] by auto
qed

lemma Leave_unfiles:
  assumes inv: "room_inv rm"
    and c: "map_option cl_ref (gget (rm_clients rm) (cl_ID c)) = Some (cl_ref c) \<Longrightarrow>
      gget (rm_clients rm) (cl_ID c) = Some c"
  shows "room_inv (fst (Leave clk ttl c rm)) \<and> rm_Code (fst (Leave clk ttl c rm)) = rm_Code rm
    \<and> rm_clients (fst (Leave clk ttl c rm)) =
      (if gget (rm_clients rm) (cl_ID c) = Some c then gdel (cl_ID c) (rm_clients rm) else rm_clients rm)"
proof (cases "Leave_locked ttl c rm")
  case None
  then have "gget (rm_clients rm) (cl_ID c) \<noteq> Some c"
    by (auto simp: Leave_locked_def Let_def case_prod_beta split: if_splits)
  with None inv show ?thesis by (simp add: Leave_def)
next
  case (Some res)
  obtain rm' calls where l: "Leave_locked ttl c rm = Some (rm', calls)" using Some by (cases res) auto
  then have f: "gget (rm_clients rm) (cl_ID c) = Some c"
    using c by (auto simp: Leave_locked_def split: if_splits)
  have "member_of rm (cl_ID c) = Some (cl_Seq c, cl_Token c)" using f by (simp add: member_of_def)
  then have tok: "cl_Token c \<noteq> []"
    using table_okD(2) [of "members_abs rm"] room_okD(1) [OF room_invD(1) [OF inv]]
    by (simp add: members_ok_def)
  note lf = Leave_fields [OF l tok]
  have "rm_Code rm' = rm_Code rm"
    using l by (auto simp: Leave_locked_def Let_def case_prod_beta split: if_splits)
  moreover have "room_inv rm'"
    using leave_keeps [OF room_invD(1) [OF inv] f l] lf(8) cbs_Leave [OF l]
    by (intro room_inv_cbs [OF inv]) auto
  moreover have "fst (Leave clk ttl c rm) = fst (recheckReady clk rm')"
    by (simp add: Leave_def l after_leaving del: seq.simps)
  ultimately show ?thesis using recheckReady_inv [of rm' clk] lf(1) f by simp
qed

lemma HardLeave_unfiles:
  assumes inv: "room_inv rm"
  shows "room_inv (fst (HardLeave clk ttl i rm)) \<and> rm_Code (fst (HardLeave clk ttl i rm)) = rm_Code rm
    \<and> rm_clients (fst (HardLeave clk ttl i rm)) = gdel i (rm_clients rm)"
proof -
  obtain rm' calls where l: "HardLeave_locked ttl i rm = (rm', calls)" by fastforce
  have "rm_Code rm' = rm_Code rm"
    using l by (auto simp: HardLeave_locked_def Let_def split: option.splits)
  moreover have "room_inv rm'"
    using hard_leave_keeps [OF room_invD(1) [OF inv] l] HardLeave_fields(5) [OF l] cbs_HardLeave [of ttl i rm]
    by (intro room_inv_cbs [OF inv]) (auto simp: l)
  moreover have "fst (HardLeave clk ttl i rm) = fst (recheckReady clk rm')"
    by (simp add: HardLeave_def l after_leaving del: seq.simps)
  ultimately show ?thesis using recheckReady_inv [of rm' clk] HardLeave_fields(1) [OF l] by simp
qed

subsection \<open>Worlds that keep every room's clients\<close>

definition heap_inv :: "World \<Rightarrow> bool" where
  "heap_inv w \<longleftrightarrow> world_ok w \<and> (\<forall>r rm. gget (w_heap w) r = Some rm \<longrightarrow> room_inv rm)"

definition chans_inv :: "World \<Rightarrow> bool" where
  "chans_inv w \<longleftrightarrow> (\<forall>ch. length (chan ch w) \<le> chan_cap)"

definition clients_of :: "nat \<Rightarrow> World \<Rightarrow> (string, Client) gomap option" where
  "clients_of r w = map_option rm_clients (gget (w_heap w) r)"

definition calm :: "World \<Rightarrow> World \<Rightarrow> bool" where
  "calm w w' \<longleftrightarrow> (heap_inv w \<longrightarrow> heap_inv w') \<and> (chans_inv w \<longrightarrow> chans_inv w')
     \<and> (\<forall>r. clients_of r w' = clients_of r w)"

named_theorems calm_intros \<open>steps of the world that leave every room's clients alone\<close>

lemma calm_refl [calm_intros]: "calm w w"
  by (simp add: calm_def)

lemma calm_trans: "calm w w1 \<Longrightarrow> calm w1 w2 \<Longrightarrow> calm w w2"
  by (simp add: calm_def)

lemma heap_inv_cong: "w_heap v = w_heap w \<Longrightarrow> w_reg v = w_reg w \<Longrightarrow> w_nextRoom v = w_nextRoom w \<Longrightarrow> heap_inv v = heap_inv w"
  by (simp add: heap_inv_def world_ok_def)

lemma chans_trySend: "chans_inv w \<Longrightarrow> chans_inv (trySend ch env w)"
  by (auto simp: chans_inv_def chan_trySend try_send_def)

lemma trySend_next [simp]: "w_nextRoom (trySend ch env w) = w_nextRoom w"
  by (simp add: trySend_def)

lemma calm_trySend [calm_intros]: "calm w (trySend ch env w)"
  using heap_inv_cong [of "trySend ch env w" w] by (simp add: calm_def chans_trySend clients_of_def)

lemma chans_exec: "chans_inv w \<Longrightarrow> chans_inv (fst (exec_calls room calls w))"
  unfolding chans_inv_def exec_calls_chan by (simp add: outbox.bounded)

lemma on_room_fst: "fst (on_room room m w) =
    (case gget (w_heap w) room of None \<Rightarrow> w
     | Some rm \<Rightarrow> fst (exec_calls room (snd (m rm)) (w\<lparr>w_heap := gset room (fst (m rm)) (w_heap w)\<rparr>)))"
  by (simp add: on_room_def case_prod_beta split: option.splits)

lemma chans_on_room: "chans_inv w \<Longrightarrow> chans_inv (fst (on_room room m w))"
  using chans_exec [of "w\<lparr>w_heap := h\<rparr>" for h]
  by (auto simp: on_room_fst chans_inv_def chan_def split: option.splits)

lemma heap_inv_on_room:
  assumes "heap_inv w" and "\<And>rm. gget (w_heap w) room = Some rm \<Longrightarrow> room_inv rm \<Longrightarrow>
    room_inv (fst (m rm)) \<and> rm_Code (fst (m rm)) = rm_Code rm"
  shows "heap_inv (fst (on_room room m w))"
proof -
  have inv: "room_inv rm" if "gget (w_heap w) r = Some rm" for r rm
    using assms(1) that by (simp add: heap_inv_def)
  have "world_ok (fst (on_room room m w))"
    using assms inv by (intro on_room_ok) (auto simp: heap_inv_def dest: room_invD(1))
  then show ?thesis
    using assms(2) inv by (auto simp: heap_inv_def on_room_heap split: if_splits)
qed

lemma calm_on_room:
  assumes "\<And>rm. gget (w_heap w) room = Some rm \<Longrightarrow> heap_inv w \<Longrightarrow> keeps m rm"
    and "\<And>rm. gget (w_heap w) room = Some rm \<Longrightarrow> rm_clients (fst (m rm)) = rm_clients rm"
  shows "calm w (fst (on_room room m w))"
proof -
  have "clients_of r (fst (on_room room m w)) = clients_of r w" for r
    using assms(2) by (cases "gget (w_heap w) room") (simp_all add: clients_of_def on_room_heap)
  then show ?thesis
    using heap_inv_on_room [of w room m] assms(1) by (auto simp: calm_def chans_on_room keeps_def)
qed

lemma calm_keeps [calm_intros]: "(\<And>rm. keeps m rm) \<Longrightarrow> calm w (fst (on_room room m w))"
  by (rule calm_on_room) (simp_all add: keeps_def)

lemma calm_remove [calm_intros]: "calm w (fst (remove code w))"
proof -
  let ?w = "w\<lparr>w_reg := (w_reg w)\<lparr>rg_rooms := gdel code (rg_rooms (w_reg w))\<rparr>\<rparr>"
  have "calm w ?w"
    by (auto simp: calm_def heap_inv_def world_ok_def chans_inv_def chan_def clients_of_def)
  then show ?thesis
    using calm_trans [OF _ calm_keeps [OF cleanupMedia_method]]
    by (auto simp: remove_def Let_def split: option.splits)
qed

lemma fire_timers: "room_inv rm \<Longrightarrow> room_inv (rm\<lparr>rm_timers := gdel i (rm_timers rm)\<rparr>)"
  using step_keeps [OF room_step.fired, of rm i] by (auto simp: room_inv_def cbs_def isStream_def split: if_splits)

lemma calm_callback:
  assumes rm: "gget (w_heap w) room = Some rm" and cb: "isStream rm \<Longrightarrow> member_cb cb"
  shows "calm w (fst (run_callback clk room cb w))"
proof (cases cb)
  case (CbStart x)
  with rm cb show ?thesis by (auto simp: run_callback_def intro!: calm_on_room method_keeps)
next
  case (CbEnd x)
  have "rm_clients (fst (endTrack x rm)) = rm_clients rm"
    by (auto simp: endTrack_fst endTrack_locked_def Let_def split: option.splits)
  with CbEnd rm cb show ?thesis by (auto simp: run_callback_def intro!: calm_on_room method_keeps)
next
  case (CbFinalize x)
  then show ?thesis by (auto simp: run_callback_def intro: calm_keeps method_keeps)
next
  case CbEmpty
  then show ?thesis by (auto simp: run_callback_def rm calm_refl calm_remove)
qed

lemma calm_fire:
  assumes inv: "heap_inv w" shows "calm w (fst (fire clk room i w))"
proof (cases "\<exists>rm t. gget (w_heap w) room = Some rm \<and> gget (rm_timers rm) i = Some t")
  case False
  then show ?thesis by (auto simp: fire_def calm_refl split: option.split)
next
  case True
  then obtain rm t where rm: "gget (w_heap w) room = Some rm" and t: "gget (rm_timers rm) i = Some t"
    by auto
  have ri: "room_inv rm" using inv rm by (simp add: heap_inv_def)
  let ?rm = "rm\<lparr>rm_timers := gdel i (rm_timers rm)\<rparr>"
  let ?w = "w\<lparr>w_heap := gset room ?rm (w_heap w)\<rparr>"
  have "calm w ?w"
    using inv rm fire_timers [OF ri] step_keeps [OF room_step.fired, of rm i]
    by (fastforce simp: calm_def heap_inv_def world_ok_def chans_inv_def chan_def clients_of_def
        dest: room_invD(1))
  moreover have "tm_cb t \<in> cbs rm" using t by (auto simp: cbs_def)
  then have "calm ?w (fst (run_callback clk room (tm_cb t) ?w))"
    using room_invD(2) [OF ri] by (intro calm_callback [of _ _ ?rm]) (auto simp: isStream_def)
  ultimately show ?thesis using rm t by (auto simp: fire_def intro: calm_trans)
qed

lemma calm_take: assumes "take_message ch w = Some (env, w')" shows "calm w w'"
proof -
  obtain q where q: "chan ch w = env # q" "w' = w\<lparr>w_chans := gset ch q (w_chans w)\<rparr>"
    using assms by (auto simp: take_message_def split: list.splits)
  have "length (chan ch' w') \<le> length (chan ch' w)" for ch'
    using q(1) by (auto simp: q(2) chan_def)
  then have "chans_inv w \<Longrightarrow> chans_inv w'" unfolding chans_inv_def using le_trans by blast
  then show ?thesis
    using heap_inv_cong [of w' w] q(2) by (simp add: calm_def clients_of_def)
qed

subsection \<open>Messages\<close>

lemma run_on_calm:
  "run_on room m c w = Done (c', w', es) \<Longrightarrow> (\<And>rm. keeps m rm) \<Longrightarrow> c' = c \<and> calm w w'"
  using calm_keeps [of m w room] by (auto simp: run_on_def case_prod_beta)

lemma try_on_calm:
  assumes "try_on room m c w = Done (c', w', es)" and "\<And>rm res. m rm = Ok res \<Longrightarrow> keeps (\<lambda>_. res) rm"
  shows "c' = c \<and> calm w w'"
proof (cases "gget (w_heap w) room")
  case None
  with assms(1) show ?thesis by (simp add: try_on_def ignore_def calm_refl)
next
  case (Some rm)
  then obtain res where r: "m rm = Ok res" "run_on room (\<lambda>_. res) c w = Done (c', w', es)"
    using assms(1) by (cases "m rm") (auto simp: try_on_def)
  have "calm w (fst (on_room room (\<lambda>_. res) w))"
    using assms(2) [OF r(1)] by (intro calm_on_room) (auto simp: Some keeps_def)
  with r(2) show ?thesis by (auto simp: run_on_def case_prod_beta)
qed

lemma quiet_calm:
  "sendErr code msg c w = Done (c', w', es) \<Longrightarrow> c' = c \<and> calm w w'"
  "ignore c w = Done (c', w', es) \<Longrightarrow> c' = c \<and> calm w w'"
  by (auto simp: handler_defs calm_trySend calm_refl)

text \<open>The cases of the switch that neither enter nor leave a room.\<close>

lemma case_calm:
  "on_enqueue ev data c w = Done (c', w', es) \<Longrightarrow> c' = c \<and> calm w w'"
  "on_skip c w = Done (c', w', es) \<Longrightarrow> c' = c \<and> calm w w'"
  "on_remove data c w = Done (c', w', es) \<Longrightarrow> c' = c \<and> calm w w'"
  "on_control ev data c w = Done (c', w', es) \<Longrightarrow> c' = c \<and> calm w w'"
  "on_set_settings data c w = Done (c', w', es) \<Longrightarrow> c' = c \<and> calm w w'"
  "on_ready ev data c w = Done (c', w', es) \<Longrightarrow> c' = c \<and> calm w w'"
  "on_progress ev data c w = Done (c', w', es) \<Longrightarrow> c' = c \<and> calm w w'"
  "on_rtc data c w = Done (c', w', es) \<Longrightarrow> c' = c \<and> calm w w'"
  "on_ping ev data c w = Done (c', w', es) \<Longrightarrow> c' = c \<and> calm w w'"
  using calm_keeps [OF UpsertTrack_method]
  by (auto simp: case_defs Let_def case_prod_beta calm_trySend split: option.splits if_splits
      dest: quiet_calm run_on_calm [OF _ Skip_method] run_on_calm [OF _ RemoveTrack_method]
        run_on_calm [OF _ Pause_method] run_on_calm [OF _ Resume_method] run_on_calm [OF _ SeekTo_method]
        run_on_calm [OF _ SetSettings_method] run_on_calm [OF _ HandleRTC_method]
        try_on_calm [OF _ MarkReady_method] try_on_calm [OF _ MarkProgress_method])

lemma handle_calm:
  assumes h: "handle_message ev raw c w = Done (c', w', es)"
    and t: "type_of raw \<noteq> TypeCreate" "type_of raw \<noteq> TypeJoin" "type_of raw \<noteq> TypeBye"
  shows "c' = c \<and> calm w w'"
  using h by (cases rule: handle_cases [of ev raw])
    (use h t in \<open>auto dest: case_calm quiet_calm(1)\<close>)

subsection \<open>The server\<close>

record Server =
  sv_world :: World
  sv_conns :: "(nat, Conn) gomap"

inductive server_step :: "Server \<Rightarrow> Server \<Rightarrow> bool" where
  connect: "gget (sv_conns s) k = None \<Longrightarrow> chan k (sv_world s) = [] \<Longrightarrow>
    server_step s (s\<lparr>sv_conns := gset k (newConn k uuid) (sv_conns s)\<rparr>)"
| message: "\<lbrakk>gget (sv_conns s) k = Some c; handle_message ev raw c (sv_world s) = Done (c', w', es);
     genToken (ev_tokenBytes ev) \<noteq> [];
     \<And>r rm. cn_current c = None \<Longrightarrow> gget (w_heap (sv_world s)) r = Some rm \<Longrightarrow> entry_ok ev c rm\<rbrakk> \<Longrightarrow>
    server_step s \<lparr>sv_world = w', sv_conns = gset k c' (sv_conns s)\<rparr>"
| closed: "gget (sv_conns s) k = Some c \<Longrightarrow>
    server_step s \<lparr>sv_world = fst (disconnect ev c (sv_world s)), sv_conns = gdel k (sv_conns s)\<rparr>"
| timer: "server_step s (s\<lparr>sv_world := fst (fire clk room i (sv_world s))\<rparr>)"
| update: "server_step s (s\<lparr>sv_world := fst (on_room room (UpsertTrack t) (sv_world s))\<rparr>)"
| streamed: "gget (w_heap (sv_world s)) room = Some rm \<Longrightarrow> isStream rm \<Longrightarrow>
    server_step s (s\<lparr>sv_world := fst (on_room room (streamEndTrack t) (sv_world s))\<rparr>)"
| written: "take_message ch (sv_world s) = Some (env, w') \<Longrightarrow> server_step s (s\<lparr>sv_world := w'\<rparr>)"

definition emptyServer :: "Registry \<Rightarrow> Server" where
  "emptyServer reg =
     \<lparr>sv_world = \<lparr>w_reg = reg\<lparr>rg_rooms := []\<rparr>, w_heap = [], w_nextRoom = 0, w_chans = []\<rparr>, sv_conns = []\<rparr>"

inductive server_reachable :: "Server \<Rightarrow> bool" where
  start: "server_reachable (emptyServer reg)"
| step: "server_reachable s \<Longrightarrow> server_step s s' \<Longrightarrow> server_reachable s'"

text \<open>
  Between rooms and connections: a connection's client carries its number; a client that a room
  counts as connected belongs to a live connection that is in that room and holds the client as the
  room does.
\<close>

definition filed_live :: "World \<Rightarrow> (nat, Conn) gomap \<Rightarrow> bool" where
  "filed_live w conns \<longleftrightarrow>
     (\<forall>r cs i d. clients_of r w = Some cs \<and> gget cs i = Some d \<longrightarrow>
        gget conns (cl_ref d) = Some \<lparr>cn_client = d, cn_current = Some r\<rparr>)"

definition numbered :: "(nat, Conn) gomap \<Rightarrow> bool" where
  "numbered conns \<longleftrightarrow> (\<forall>k c. gget conns k = Some c \<longrightarrow> cl_ref (cn_client c) = k)"

definition server_ok :: "Server \<Rightarrow> bool" where
  "server_ok s \<longleftrightarrow> heap_inv (sv_world s) \<and> chans_inv (sv_world s)
     \<and> filed_live (sv_world s) (sv_conns s) \<and> numbered (sv_conns s)"

lemma calm_server:
  assumes "server_ok s" and "calm (sv_world s) w'" shows "server_ok (s\<lparr>sv_world := w'\<rparr>)"
  using assms by (simp add: server_ok_def calm_def filed_live_def)

text \<open>Filing and unfiling the client of one connection.\<close>

lemma filed_live_change:
  assumes live: "filed_live w conns"
    and "\<And>r cs' i d. clients_of r w' = Some cs' \<Longrightarrow> gget cs' i = Some d \<Longrightarrow>
      (cl_ref d \<noteq> k \<and> (\<exists>cs. clients_of r w = Some cs \<and> gget cs i = Some d))
      \<or> (cl_ref d = k \<and> c' = Some \<lparr>cn_client = d, cn_current = Some r\<rparr>)"
  shows "filed_live w' (case c' of None \<Rightarrow> gdel k conns | Some c \<Rightarrow> gset k c conns)"
  unfolding filed_live_def
proof (intro allI impI)
  fix r cs' i d assume "clients_of r w' = Some cs' \<and> gget cs' i = Some d"
  with assms(2) consider "cl_ref d \<noteq> k" "\<exists>cs. clients_of r w = Some cs \<and> gget cs i = Some d"
    | "cl_ref d = k" "c' = Some \<lparr>cn_client = d, cn_current = Some r\<rparr>" by blast
  then show "gget (case c' of None \<Rightarrow> gdel k conns | Some c \<Rightarrow> gset k c conns) (cl_ref d) =
      Some \<lparr>cn_client = d, cn_current = Some r\<rparr>"
  proof cases
    case 1
    with live have "gget conns (cl_ref d) = Some \<lparr>cn_client = d, cn_current = Some r\<rparr>"
      unfolding filed_live_def by blast
    with 1(1) show ?thesis by (simp split: option.split)
  qed simp
qed

lemma filed_self:
  "filed_live w conns \<Longrightarrow> clients_of r w = Some cs \<Longrightarrow> gget cs i = Some d \<Longrightarrow>
    gget conns (cl_ref d) = Some c \<Longrightarrow> c = \<lparr>cn_client = d, cn_current = Some r\<rparr>"
  unfolding filed_live_def by auto

lemma filed_id: "heap_inv w \<Longrightarrow> clients_of r w = Some cs \<Longrightarrow> gget cs i = Some d \<Longrightarrow> cl_ID d = i"
  using filed_okD(4) room_okD(1) room_invD(1)
  by (fastforce simp: heap_inv_def clients_of_def members_ok_def)

text \<open>A method that takes the connection's client out of its room, and out of no other.\<close>

lemma unfile_live:
  assumes inv: "heap_inv w" and live: "filed_live w conns" and c: "gget conns k = Some c"
    and num: "cl_ref (cn_client c) = k" and cur: "cn_current c = Some room"
    and m: "\<And>rm. gget (w_heap w) room = Some rm \<Longrightarrow>
      rm_clients (fst (m rm)) = gdel (cl_ID (cn_client c)) (rm_clients rm)
      \<or> (rm_clients (fst (m rm)) = rm_clients rm
          \<and> gget (rm_clients rm) (cl_ID (cn_client c)) \<noteq> Some (cn_client c))"
    and c': "\<And>x. c' = Some x \<Longrightarrow> cn_current x = None"
  shows "filed_live (fst (on_room room m w)) (case c' of None \<Rightarrow> gdel k conns | Some c \<Rightarrow> gset k c conns)"
proof (rule filed_live_change [OF live])
  fix r cs' i d
  assume cs': "clients_of r (fst (on_room room m w)) = Some cs'" "gget cs' i = Some d"
  have old: "\<exists>cs. clients_of r w = Some cs \<and> gget cs i = Some d
      \<and> (r = room \<longrightarrow> cs' = gdel (cl_ID (cn_client c)) cs
          \<or> gget cs (cl_ID (cn_client c)) \<noteq> Some (cn_client c))"
    using cs' m by (cases "r = room") (auto simp: clients_of_def on_room_heap split: if_splits)
  have "cl_ref d \<noteq> k"
  proof
    assume k: "cl_ref d = k"
    from old obtain cs where cs: "clients_of r w = Some cs" "gget cs i = Some d"
      and r: "r = room \<Longrightarrow> cs' = gdel (cl_ID (cn_client c)) cs
          \<or> gget cs (cl_ID (cn_client c)) \<noteq> Some (cn_client c)" by auto
    have self: "c = \<lparr>cn_client = d, cn_current = Some r\<rparr>"
      using filed_self [OF live cs] c k by simp
    then have "r = room" "cl_ID (cn_client c) = i" "cn_client c = d"
      using cur filed_id [OF inv cs] by auto
    with r cs(2) cs'(2) show False by auto
  qed
  with old show "(cl_ref d \<noteq> k \<and> (\<exists>cs. clients_of r w = Some cs \<and> gget cs i = Some d))
      \<or> (cl_ref d = k \<and> c' = Some \<lparr>cn_client = d, cn_current = Some r\<rparr>)" by blast
qed

lemma closed_ok:
  assumes ok: "server_ok s" and c: "gget (sv_conns s) k = Some c"
  shows "server_ok \<lparr>sv_world = fst (disconnect ev c (sv_world s)), sv_conns = gdel k (sv_conns s)\<rparr>"
proof -
  let ?w = "sv_world s" and ?conns = "sv_conns s"
  note s = ok [unfolded server_ok_def]
  have num: "cl_ref (cn_client c) = k" "numbered (gdel k ?conns)" using s c by (auto simp: numbered_def)
  show ?thesis
  proof (cases "cn_current c")
    case None
    have "filed_live ?w (case None of None \<Rightarrow> gdel k ?conns | Some c \<Rightarrow> gset k c ?conns)"
    proof (rule filed_live_change)
      fix r cs i d assume "clients_of r ?w = Some cs" "gget cs i = Some d"
      then show "(cl_ref d \<noteq> k \<and> (\<exists>cs. clients_of r ?w = Some cs \<and> gget cs i = Some d))
          \<or> (cl_ref d = k \<and> None = Some \<lparr>cn_client = d, cn_current = Some r\<rparr>)"
        using filed_self [of ?w ?conns r cs i d c] s c None by auto
    qed (use s in simp)
    then show ?thesis using s num None by (simp add: server_ok_def disconnect_def)
  next
    case (Some room)
    let ?m = "Leave (ev_clock ev) (rg_emptyRoomTTL (w_reg ?w)) (cn_client c)"
    have l: "room_inv (fst (?m rm)) \<and> rm_Code (fst (?m rm)) = rm_Code rm
        \<and> rm_clients (fst (?m rm)) = (if gget (rm_clients rm) (cl_ID (cn_client c)) = Some (cn_client c)
            then gdel (cl_ID (cn_client c)) (rm_clients rm) else rm_clients rm)"
      if rm: "gget (w_heap ?w) room = Some rm" for rm
    proof (rule Leave_unfiles)
      show "room_inv rm" using s rm by (simp add: heap_inv_def)
      assume "map_option cl_ref (gget (rm_clients rm) (cl_ID (cn_client c))) = Some (cl_ref (cn_client c))"
      then obtain d where d: "gget (rm_clients rm) (cl_ID (cn_client c)) = Some d" "cl_ref d = k"
        using num by auto
      have "c = \<lparr>cn_client = d, cn_current = Some room\<rparr>"
        by (rule filed_self [of ?w ?conns room "rm_clients rm"]) (use s c rm d in \<open>simp_all add: clients_of_def\<close>)
      then have "d = cn_client c" by simp
      with d(1) show "gget (rm_clients rm) (cl_ID (cn_client c)) = Some (cn_client c)" by simp
    qed
    have "heap_inv (fst (on_room room ?m ?w))" using heap_inv_on_room [of ?w room ?m] s l by blast
    moreover have "filed_live (fst (on_room room ?m ?w)) (case None of None \<Rightarrow> gdel k ?conns | Some c \<Rightarrow> gset k c ?conns)"
      by (rule unfile_live [OF _ _ c num(1) Some]) (use s l in auto)
    ultimately show ?thesis using s num Some chans_on_room by (simp add: server_ok_def disconnect_def)
  qed
qed

lemma bye_ok:
  assumes ok: "server_ok s" and c: "gget (sv_conns s) k = Some c"
    and h: "on_bye ev c (sv_world s) = Done (c', w', es)"
  shows "server_ok \<lparr>sv_world = w', sv_conns = gset k c' (sv_conns s)\<rparr>"
proof -
  let ?w = "sv_world s" and ?conns = "sv_conns s"
  note s = ok [unfolded server_ok_def]
  have num: "cl_ref (cn_client c) = k" using s c by (auto simp: numbered_def)
  show ?thesis
  proof (cases "cn_current c")
    case None
    then have "c' = c" "w' = ?w" using h by (auto simp: on_bye_def ignore_def)
    then show ?thesis using s c by (auto simp: server_ok_def filed_live_def numbered_def)
  next
    case (Some room)
    let ?m = "HardLeave (ev_clock ev) (rg_emptyRoomTTL (w_reg ?w)) (cl_ID (cn_client c))"
    let ?c = "c\<lparr>cn_current := None\<rparr>"
    have e: "c' = ?c" "w' = fst (on_room room ?m ?w)"
      using h Some by (auto simp: on_bye_def run_on_def case_prod_beta)
    have l: "room_inv (fst (?m rm)) \<and> rm_Code (fst (?m rm)) = rm_Code rm
        \<and> rm_clients (fst (?m rm)) = gdel (cl_ID (cn_client c)) (rm_clients rm)"
      if "gget (w_heap ?w) room = Some rm" for rm
      using HardLeave_unfiles s that by (simp add: heap_inv_def)
    have "heap_inv (fst (on_room room ?m ?w))" using heap_inv_on_room [of ?w room ?m] s l by blast
    moreover have "filed_live (fst (on_room room ?m ?w)) (case Some ?c of None \<Rightarrow> gdel k ?conns | Some c \<Rightarrow> gset k c ?conns)"
      by (rule unfile_live [OF _ _ c num Some]) (use s l in auto)
    ultimately show ?thesis using s num chans_on_room by (auto simp: server_ok_def e numbered_def)
  qed
qed

lemma file_live:
  assumes live: "filed_live w conns" and c: "gget conns k = Some c0" "cn_current c0 = None"
    and cl: "\<And>r. clients_of r w' = (if r = room then Some (gset (cl_ID client) client cs) else clients_of r w)"
    and room: "clients_of room w = Some cs" and ref: "cl_ref client = k"
  shows "filed_live w' (gset k \<lparr>cn_client = client, cn_current = Some room\<rparr> conns)"
proof -
  let ?c = "\<lparr>cn_client = client, cn_current = Some room\<rparr>"
  have "filed_live w' (case Some ?c of None \<Rightarrow> gdel k conns | Some c \<Rightarrow> gset k c conns)"
  proof (rule filed_live_change [OF live])
    fix r cs' i d assume cs': "clients_of r w' = Some cs'" "gget cs' i = Some d"
    have out: "cl_ref d \<noteq> k" if "clients_of r w = Some cs" "gget cs i = Some d" for cs
      using filed_self [OF live that] c by auto
    consider "r = room" "i = cl_ID client" | "r = room" "i \<noteq> cl_ID client" | "r \<noteq> room" by blast
    then show "(cl_ref d \<noteq> k \<and> (\<exists>cs. clients_of r w = Some cs \<and> gget cs i = Some d))
      \<or> (cl_ref d = k \<and> Some ?c = Some \<lparr>cn_client = d, cn_current = Some r\<rparr>)"
      using cs' cl [of r] room ref out by cases (auto split: if_splits)
  qed
  then show ?thesis by simp
qed

lemma join_room_ok:
  assumes inv: "heap_inv w" "chans_inv w" "filed_live w conns" "numbered conns"
    and c: "gget conns k = Some c0" "cn_current c0 = None" "cl_ref (cn_client c) = k"
    and e: "\<And>rm. gget (w_heap w) room = Some rm \<Longrightarrow> entry_ok ev c rm"
    and ex: "gget (w_heap w) room \<noteq> None"
    and h: "join_room ev room tok c w = Done (c', w', es)"
  shows "server_ok \<lparr>sv_world = w', sv_conns = gset k c' conns\<rparr>"
proof -
  obtain rm where rm: "gget (w_heap w) room = Some rm" using ex by auto
  have ri: "room_inv rm" using inv rm by (simp add: heap_inv_def)
  obtain client rm' where j: "Join_locked (cn_client c) tok (genToken (ev_tokenBytes ev)) rm = (client, rm')"
    by fastforce
  have f: "room_inv rm' \<and> rm_Code rm' = rm_Code rm \<and> cl_ref client = k
      \<and> rm_clients rm' = gset (cl_ID client) client (rm_clients rm)"
    using Join_files [OF ri _ _ _ _ j] e [OF rm] c(3) by (simp add: entry_ok_def)
  let ?calls = "snd (broadcastState rm') @ snd (catchUp client rm')"
  have J: "Join (cn_client c) tok (genToken (ev_tokenBytes ev)) rm = (client, rm', ?calls)"
    by (simp add: Join_def j seq2_read_only del: seq.simps)
  have e': "c' = \<lparr>cn_client = client, cn_current = Some room\<rparr>"
    "w' = fst (on_room room (\<lambda>_. (rm', ?calls)) w)"
    using h rm J by (auto simp: join_room_def on_room_def case_prod_beta Let_def)
  have "heap_inv w'" unfolding e' by (rule heap_inv_on_room) (use inv rm f in auto)
  moreover have "filed_live w' (gset k c' conns)"
    unfolding e'(1) by (rule file_live [OF inv(3) c(1,2)])
      (use f rm in \<open>auto simp: e'(2) clients_of_def on_room_heap\<close>)
  moreover have "numbered (gset k c' conns)" using inv(4) f by (auto simp: numbered_def e')
  ultimately show ?thesis using chans_on_room inv(2) by (simp add: server_ok_def e')
qed

lemma create_world:
  assumes "Create draws bcOK mode w = Some (room, w1)" and inv: "heap_inv w" "chans_inv w"
  shows "heap_inv w1" "chans_inv w1"
    and "clients_of r w1 = Some cs \<Longrightarrow> cs = [] \<or> clients_of r w = Some cs"
    and "\<exists>code port cm src bc. gget (w_heap w1) room = Some (newRoom code mode port cm src bc)"
proof -
  let ?new = "\<lambda>code. newRoom code mode (rg_udpPort (w_reg w)) (rg_cacheMgr (w_reg w)) (rg_streamSrc (w_reg w))
    (mode = ModeStream \<and> rg_streamSrc (w_reg w) \<and> bcOK)"
  have "world_ok w" using inv(1) by (simp add: heap_inv_def)
  obtain code where p: "pick_code (rg_rooms (w_reg w)) draws 0 = Some code"
    using assms(1) by (cases "pick_code (rg_rooms (w_reg w)) draws 0") (simp_all add: Create_def Let_def)
  then have w1: "room = w_nextRoom w"
    "w1 = w\<lparr>w_reg := (w_reg w)\<lparr>rg_rooms := gset code room (rg_rooms (w_reg w))\<rparr>,
        w_heap := gset room (?new code) (w_heap w), w_nextRoom := Suc room\<rparr>"
    using assms(1) by (auto simp: Create_def Let_def)
  have n: "room_ok (?new code)" "rm_Code (?new code) = code" "rm_clients (?new code) = []" "cbs (?new code) = {}"
    by (rule room_ok_new, simp_all add: newRoom_def cbs_def)
  have free: "gget (w_heap w) room = None"
    using world_okD(3) [OF \<open>world_ok w\<close>, of room] w1(1) by (cases "gget (w_heap w) room") auto
  then have "gget (rg_rooms (w_reg w)) c \<noteq> Some room" for c
    using world_okD(2) [OF \<open>world_ok w\<close>, of c room] by auto
  then have "world_ok w1"
    using \<open>world_ok w\<close> n(1,2) by (auto simp: world_ok_def w1 less_Suc_eq)
  then show "heap_inv w1" using inv(1) n(1,4) by (auto simp: heap_inv_def w1(2) room_inv_def)
  show "chans_inv w1" using inv(2) by (simp add: chans_inv_def chan_def w1(2))
  show "clients_of r w1 = Some cs \<Longrightarrow> cs = [] \<or> clients_of r w = Some cs"
    using n(3) by (auto simp: clients_of_def w1(2) split: if_splits)
  show "\<exists>code port cm src bc. gget (w_heap w1) room = Some (newRoom code mode port cm src bc)"
    by (rule exI, rule exI, rule exI, rule exI, rule exI [where x = "mode = ModeStream \<and> rg_streamSrc (w_reg w) \<and> bcOK"])
      (simp add: w1(2))
qed

lemma entry_ok_nick [simp]: "entry_ok ev (set_nick nick c) rm = entry_ok ev c rm"
  by (simp add: entry_ok_def set_nick_def)

lemma entry_ok_new: "genToken (ev_tokenBytes ev) \<noteq> [] \<Longrightarrow> entry_ok ev c (newRoom code mode port cm src bc)"
  by (simp add: entry_ok_def newRoom_def in64_def member_of_def)

lemma set_nick_sel [simp]: "cl_ref (cn_client (set_nick nick c)) = cl_ref (cn_client c)"
  by (simp add: set_nick_def)

lemma sent_err_ok:
  assumes "server_ok s" and "gget (sv_conns s) k = Some c" and "c' = c \<and> calm (sv_world s) w'"
  shows "server_ok \<lparr>sv_world = w', sv_conns = gset k c' (sv_conns s)\<rparr>"
  using calm_server [OF assms(1), of w'] assms(2,3)
  by (auto simp: server_ok_def filed_live_def numbered_def)

lemma create_ok:
  assumes ok: "server_ok s" and c: "gget (sv_conns s) k = Some c"
    and h: "on_create ev data c (sv_world s) = Done (c', w', es)"
    and tok: "genToken (ev_tokenBytes ev) \<noteq> []"
  shows "server_ok \<lparr>sv_world = w', sv_conns = gset k c' (sv_conns s)\<rparr>"
proof (cases "\<exists>code msg. sendErr code msg c (sv_world s) = Done (c', w', es)")
  case True
  then obtain code msg where "sendErr code msg c (sv_world s) = Done (c', w', es)" by blast
  then show ?thesis by (intro sent_err_ok [OF ok c] quiet_calm(1))
next
  case False
  note s = ok [unfolded server_ok_def]
  from False obtain mode room w1 nick where out: "cn_current c = None"
    and cr: "Create (ev_draws ev) (ev_bcOK ev) mode (sv_world s) = Some (room, w1)"
    and j: "join_room ev room [] (set_nick nick c) w1 = Done (c', w', es)"
    using h by (auto simp: on_create_def Let_def case_prod_beta split: if_splits option.splits)
  have inv: "heap_inv (sv_world s)" "chans_inv (sv_world s)" and num: "cl_ref (cn_client c) = k"
    using s c by (auto simp: numbered_def)
  note w1 = create_world [OF cr inv]
  have "filed_live w1 (sv_conns s)" using w1(3) s unfolding filed_live_def by fastforce
  then show ?thesis
    by (rule join_room_ok [OF w1(1,2) _ _ c out _ _ _ j])
      (use s num w1(4) entry_ok_new [of ev] tok in auto)
qed

lemma join_ok:
  assumes ok: "server_ok s" and c: "gget (sv_conns s) k = Some c"
    and h: "on_join ev data c (sv_world s) = Done (c', w', es)"
    and e: "\<And>r rm. cn_current c = None \<Longrightarrow> gget (w_heap (sv_world s)) r = Some rm \<Longrightarrow> entry_ok ev c rm"
  shows "server_ok \<lparr>sv_world = w', sv_conns = gset k c' (sv_conns s)\<rparr>"
proof (cases "\<exists>code msg. sendErr code msg c (sv_world s) = Done (c', w', es)")
  case True
  then obtain code msg where "sendErr code msg c (sv_world s) = Done (c', w', es)" by blast
  then show ?thesis by (intro sent_err_ok [OF ok c] quiet_calm(1))
next
  case False
  note s = ok [unfolded server_ok_def]
  from False obtain code room tok nick where out: "cn_current c = None"
    and g: "Get code (sv_world s) = Inr room"
    and j: "join_room ev room tok (set_nick nick c) (sv_world s) = Done (c', w', es)"
    using h by (auto simp: on_join_def Let_def case_prod_beta split: if_splits sum.splits)
  have "world_ok (sv_world s)" and "cl_ref (cn_client c) = k"
    using s c by (auto simp: heap_inv_def numbered_def)
  moreover from this(1) have "gget (w_heap (sv_world s)) room \<noteq> None"
    using g world_okD(2) [of "sv_world s" code room] by (auto simp: Get_iff)
  ultimately show ?thesis
    by (intro join_room_ok [OF _ _ _ _ c out _ _ _ j]) (use s e out in simp_all)
qed

lemma message_ok:
  assumes ok: "server_ok s" and c: "gget (sv_conns s) k = Some c"
    and h: "handle_message ev raw c (sv_world s) = Done (c', w', es)"
    and tok: "genToken (ev_tokenBytes ev) \<noteq> []"
    and e: "\<And>r rm. cn_current c = None \<Longrightarrow> gget (w_heap (sv_world s)) r = Some rm \<Longrightarrow> entry_ok ev c rm"
  shows "server_ok \<lparr>sv_world = w', sv_conns = gset k c' (sv_conns s)\<rparr>"
  using h
proof (cases rule: handle_cases [of ev raw])
  case (create data)
  with h tok show ?thesis by (intro create_ok [OF ok c]) simp_all
next
  case (join data)
  with h e show ?thesis by (intro join_ok [OF ok c]) simp_all
next
  case bye
  with h show ?thesis using bye_ok [OF ok c] by simp
qed (use h in \<open>auto intro!: sent_err_ok [OF ok c] dest: case_calm quiet_calm(1)\<close>)

lemma server_step_ok: "server_step s s' \<Longrightarrow> server_ok s \<Longrightarrow> server_ok s'"
proof (induction rule: server_step.induct)
  case (connect s k uuid)
  let ?c = "newConn k uuid"
  note s = connect.prems [unfolded server_ok_def]
  have "filed_live (sv_world s) (case Some ?c of None \<Rightarrow> gdel k (sv_conns s) | Some c \<Rightarrow> gset k c (sv_conns s))"
  proof (rule filed_live_change)
    fix r cs i d assume a: "clients_of r (sv_world s) = Some cs" "gget cs i = Some d"
    then have "cl_ref d \<noteq> k" using s connect.hyps(1) unfolding filed_live_def by auto
    with a show "(cl_ref d \<noteq> k \<and> (\<exists>cs. clients_of r (sv_world s) = Some cs \<and> gget cs i = Some d))
      \<or> (cl_ref d = k \<and> Some ?c = Some \<lparr>cn_client = d, cn_current = Some r\<rparr>)" by blast
  qed (use s in simp)
  then show ?case using s by (auto simp: server_ok_def numbered_def newConn_def)
next
  case (message s k c ev raw c' w' es)
  then show ?case by (intro message_ok)
next
  case (closed s k c ev)
  then show ?case by (intro closed_ok)
next
  case (timer s clk room i)
  then show ?case by (intro calm_server calm_fire) (simp_all add: server_ok_def)
next
  case (update s room t)
  then show ?case by (intro calm_server calm_keeps UpsertTrack_method)
next
  case (streamed s room rm t)
  then show ?case
    by (intro calm_server calm_on_room) (auto simp: streamEndTrack_frame intro: streamEndTrack_method)
next
  case (written ch s env w')
  then show ?case by (intro calm_server calm_take)
qed

lemma server_reachable_ok: "server_reachable s \<Longrightarrow> server_ok s"
proof (induction rule: server_reachable.induct)
  case (start reg)
  show ?case
    by (simp add: emptyServer_def server_ok_def heap_inv_def world_ok_def chans_inv_def chan_def
        filed_live_def clients_of_def numbered_def)
next
  case (step s s')
  then show ?case by (blast intro: server_step_ok)
qed



end
