(* ===== verification/Playback_Props.thy ===== *)
theory Playback_Props
  imports Demo
begin

section \<open>What listeners can rely on\<close>

text \<open>
  The properties of scheduled playback: who starts a track and when, what pause, resume and seek
  do to the position, when the end timer fires, what a late listener is told, and what happens
  when a track ends. The position of a track at server time \<open>t\<close> is that of docs/protocol.md:
  \<open>s + (t - t0)\<close> while playing, \<open>s\<close> while paused.
\<close>

definition position :: "playback \<Rightarrow> int \<Rightarrow> int" where
  "position pb t = (if pb_paused pb then pb_s pb else pb_s pb + (t - pb_t0 pb))"

definition to_all :: "Envelope \<Rightarrow> Room \<Rightarrow> call list" where
  "to_all env rm = List.map (\<lambda>(_, c). Send (cl_ref c) env) (rm_clients rm)"

lemma sendAll_to_all: "sendAll env rm = (rm, to_all env rm)"
  by (simp add: sendAll_def to_all_def)

lemma to_all_cong: "rm_clients r = rm_clients s \<Longrightarrow> to_all env r = to_all env s"
  by (simp add: to_all_def)

text \<open>A room in which \<open>pb\<close> is prepared or playing, for the witnesses.\<close>

definition demoPlayback :: "bool \<Rightarrow> playback" where
  "demoPlayback started =
     \<lparr>pb_trackID = ''t1'', pb_fileURL = ''f'', pb_title = [], pb_durationMs = 300000,
      pb_ready = Some [(''a'', True)], pb_started = started, pb_paused = False,
      pb_t0 = 1000, pb_s = 0, pb_readyTimer = None,
      pb_endTimer = (if started then Some 0 else None)\<rparr>"

definition demoPlaying :: "bool \<Rightarrow> Room" where
  "demoPlaying started =
     demoRoom ModeSignal\<lparr>rm_queue := [track ''t1'', track ''t2''], rm_playing := Some (demoPlayback started)\<rparr>"

lemma demoPlaying_sel [simp]:
  "rm_playing (demoPlaying b) = Some (demoPlayback b)" "pb_trackID (demoPlayback b) = ''t1''"
  "pb_started (demoPlayback b) = b" "\<not> pb_paused (demoPlayback b)"
  "rm_clients (demoPlaying b) = [(''a'', aliceIn), (''b'', bobIn)]"
  "ready_get (demoPlayback b) ''a''" "\<not> ready_get (demoPlayback b) ''b''"
  "rm_queue (demoPlaying b) = [track ''t1'', track ''t2'']" "\<not> isStream (demoPlaying b)"
  by (simp_all add: demoPlaying_def demoPlayback_def demoRoom_def newRoom_def ready_get_def isStream_def)

lemma demoPlaying_ok: "room_ok (demoPlaying b)"
  by (rule room_ok_cong [OF demoRoom_ok [of ModeSignal]])
    (simp_all add: queue_ok_def playing_ok_def track_def,
     simp_all add: demoPlaying_def demoPlayback_def demoRoom_def newRoom_def)

subsection \<open>Starting\<close>

text \<open>
  With no track on, the first ready track of the queue is prepared: it becomes the playing
  track, not yet started and with nobody ready, a deadline is armed for it, and every connected
  client is told to fetch exactly it.
\<close>

lemma prepare_first_ready:
  assumes idle: "rm_playing rm = None" and q: "rm_queue rm = pre @ t # post"
    and t: "tr_Status t = StatusReady" and pre: "\<forall>u \<in> set pre. tr_Status u \<noteq> StatusReady"
  shows "\<exists>pb i. rm_playing (fst (maybeStart rm)) = Some pb \<and> pb_trackID pb = tr_ID t
    \<and> pb_durationMs pb = tr_DurationMs t \<and> \<not> pb_started pb \<and> (\<forall>j. \<not> ready_get pb j)
    \<and> pb_readyTimer pb = Some i
    \<and> gget (rm_timers (fst (maybeStart rm))) i = Some \<lparr>tm_wait = readyDeadline rm, tm_cb = CbStart (tr_ID t)\<rparr>
    \<and> snd (maybeStart rm) = to_all (prepareEnv pb) rm"
proof -
  have "firstReady (rm_queue rm) = Some t"
    using q t pre by (simp add: firstReady_def find_skip)
  then show ?thesis
    using idle
    by (simp add: maybeStart_def maybeStart_locked_def AfterFunc_def Let_def sendAll_def ready_get_def
        to_all_def)
qed

lemma prepare_first_ready_example:
  "let rm = demoRoom ModeSignal\<lparr>rm_queue := [(track ''t0'')\<lparr>tr_Status := StatusResolving\<rparr>, track ''t1'']\<rparr>
   in playingID (fst (maybeStart rm)) = Some ''t1''"
proof -
  let ?rm = "demoRoom ModeSignal\<lparr>rm_queue := [(track ''t0'')\<lparr>tr_Status := StatusResolving\<rparr>, track ''t1'']\<rparr>"
  have "rm_playing ?rm = None"
    and q: "rm_queue ?rm = [(track ''t0'')\<lparr>tr_Status := StatusResolving\<rparr>] @ track ''t1'' # []"
    by (simp_all add: demo_defs)
  from prepare_first_ready [OF this] show ?thesis
    by (auto simp: playingID_def track_def StatusReady_def StatusResolving_def)
qed

text \<open>
  C22: a prepared track starts with a client's \<^verbatim>\<open>ready\<close> exactly if with it every connected client
  is ready for this track; until then the report only marks the client.
\<close>

theorem ready_quorum:
  assumes "playingID rm = Some t" and "rm_playing rm = Some pb" "\<not> pb_started pb"
    and signal: "pb_ready pb \<noteq> None"
  shows "\<exists>rm' calls pb'. MarkReady clk i t rm = Ok (rm', calls) \<and> rm_playing rm' = Some pb'
    \<and> (pb_started pb' \<longleftrightarrow> (\<forall>j \<in> set (gkeys (rm_clients rm)). j = i \<or> ready_get pb j))
    \<and> (\<forall>j. ready_get pb' j \<longleftrightarrow> j = i \<or> ready_get pb j)
    \<and> (\<not> pb_started pb' \<longrightarrow> calls = [])
    \<and> (pb_started pb' \<longrightarrow> pb_t0 pb' = wrap64 (clk 0 + startBufferMs) \<and> pb_s pb' = 0
         \<and> calls = to_all (nowPlayingEnv pb') rm)"
proof -
  obtain m where m: "pb_ready pb = Some m" using signal by auto
  have t: "pb_trackID pb = t" using assms by (simp add: playingID_def)
  let ?pb = "pb\<lparr>pb_ready := Some (gset i True m)\<rparr>"
  let ?rm = "rm\<lparr>rm_playing := Some ?pb\<rparr>"
  have ready: "ready_get ?pb j \<longleftrightarrow> j = i \<or> ready_get pb j" for j
    by (simp add: ready_get_def m)
  then have all: "allReady ?pb ?rm \<longleftrightarrow> (\<forall>j \<in> set (gkeys (rm_clients rm)). j = i \<or> ready_get pb j)"
    by (simp add: allReady_def list_all_iff)
  have lk: "MarkReady_locked i t rm = Ok (?rm, None, allReady ?pb ?rm)"
    using assms t m by (simp add: MarkReady_locked_def ready_set_def Let_def)
  show ?thesis
  proof (cases "allReady ?pb ?rm")
    case False
    then have "MarkReady clk i t rm = Ok (?rm, [])" by (simp add: MarkReady_def lk)
    with False all ready assms(3) show ?thesis by (intro exI [of _ ?rm] exI [of _ "[]"] exI [of _ ?pb]) simp
  next
    case True
    then have mr: "MarkReady clk i t rm = Ok (startPlayback clk t ?rm)" by (simp add: MarkReady_def lk)
    obtain rm' pb' where s: "startPlayback_locked clk t ?rm = Some (rm', pb')"
      using t assms(3) by (auto simp: startPlayback_locked_def Let_def case_prod_beta)
    from s show ?thesis
    proof (rule startPlayback_acts)
      fix pb0 e
      assume a: "rm_playing ?rm = Some pb0" "plays ?rm pb' rm'"
        "pb' = pb0\<lparr>pb_started := True, pb_t0 := wrap64 (clk 0 + startBufferMs), pb_s := 0, pb_endTimer := e\<rparr>"
      have r: "ready_get pb' j \<longleftrightarrow> ready_get ?pb j" for j using a(1,3) by (auto simp: ready_get_def)
      have "startPlayback clk t ?rm = (rm', to_all (nowPlayingEnv pb') rm)"
        using plays_fields(1) [OF a(2)] by (simp add: startPlayback_def s sendAll_to_all to_all_def)
      with mr True all ready r a plays_fields(6) [OF a(2)] show ?thesis
        by (intro exI [of _ rm'] exI [of _ "to_all (nowPlayingEnv pb') rm"] exI [of _ pb']) auto
    qed
  qed
qed

theorem ready_quorum_witness:
  "\<exists>rm' calls pb'. MarkReady (\<lambda>_. 5000) ''b'' ''t1'' (demoPlaying False) = Ok (rm', calls)
     \<and> rm_playing rm' = Some pb' \<and> pb_started pb' \<and> pb_t0 pb' = 7000"
proof -
  have "playingID (demoPlaying False) = Some ''t1''" by (simp add: playingID_def)
  moreover have "pb_ready (demoPlayback False) \<noteq> None" by (simp add: demoPlayback_def)
  ultimately obtain rm' calls pb' where
    "MarkReady (\<lambda>_. 5000) ''b'' ''t1'' (demoPlaying False) = Ok (rm', calls)" "rm_playing rm' = Some pb'"
    "pb_started pb' \<longleftrightarrow> (\<forall>j \<in> set (gkeys (rm_clients (demoPlaying False))). j = ''b'' \<or> ready_get (demoPlayback False) j)"
    "pb_started pb' \<longrightarrow> pb_t0 pb' = wrap64 (5000 + startBufferMs)"
    using ready_quorum [of "demoPlaying False" "''t1''" "demoPlayback False" "\<lambda>_. 5000" "''b''"] by auto
  then show ?thesis
    by (intro exI [of _ rm'] exI [of _ calls] exI [of _ pb'])
      (simp add: startBufferMs_def in64_def)
qed

text \<open>
  A track starts once: after a start, another one (a late deadline, a recheck after somebody
  left, the last \<^verbatim>\<open>ready\<close>) changes nothing and sends nothing, so the schedule all clients were
  given stays the one the server holds.
\<close>

lemma start_is_idempotent:
  "startPlayback clk' t (fst (startPlayback clk t rm)) = (fst (startPlayback clk t rm), [])
   \<and> recheckReady clk' (fst (startPlayback clk t rm))
     = (if playingID rm = Some t then (fst (startPlayback clk t rm), [])
        else recheckReady clk' rm)"
proof (cases "startPlayback_locked clk t rm")
  case None
  then have same: "startPlayback clk t rm = (rm, [])" by (simp add: startPlayback_def)
  have "startPlayback clk' t rm = (rm, [])"
    using None by (auto simp: startPlayback_def startPlayback_locked_def Let_def case_prod_beta
        split: option.splits if_splits)
  moreover have "recheckReady clk' rm = (rm, [])" if "playingID rm = Some t"
    using None that by (auto simp: playingID_def startPlayback_locked_def Let_def case_prod_beta
        recheckReady_def recheckReady_locked_def split: option.splits if_splits)
  ultimately show ?thesis using same by simp
next
  case (Some r)
  obtain rm' pb where s: "startPlayback_locked clk t rm = Some (rm', pb)" using Some by (cases r) auto
  then have r: "fst (startPlayback clk t rm) = rm'" by (simp add: startPlayback_def sendAll_def)
  from s show ?thesis
  proof (rule startPlayback_acts)
    fix pb0 e
    assume a: "rm_playing rm = Some pb0" "pb_trackID pb0 = t" "plays rm pb rm'"
      "pb = pb0\<lparr>pb_started := True, pb_t0 := wrap64 (clk 0 + startBufferMs), pb_s := 0, pb_endTimer := e\<rparr>"
    have p: "rm_playing rm' = Some pb" "pb_started pb" using plays_fields(6) [OF a(3)] a(4) by simp_all
    then have "startPlayback clk' t rm' = (rm', [])" "recheckReady clk' rm' = (rm', [])"
      by (simp_all add: startPlayback_def startPlayback_locked_def recheckReady_def recheckReady_locked_def)
    then show ?thesis using a(1,2) by (simp add: r playingID_def)
  qed
qed

text \<open>
  A client that becomes ready after the start is sent the current schedule, alone and once.
\<close>

lemma late_ready_unicast_once:
  assumes pb: "rm_playing rm = Some pb" "pb_started pb" "pb_trackID pb = t" "pb_ready pb \<noteq> None"
    and late: "\<not> ready_get pb i" and c: "gget (rm_clients rm) i = Some c"
  shows "\<exists>rm'. MarkReady clk i t rm = Ok (rm', [Send (cl_ref c) (nowPlayingEnv pb)])
    \<and> MarkReady clk' i t rm' = Ok (rm', [])
    \<and> (\<exists>pb'. rm_playing rm' = Some pb' \<and> pb_started pb' \<and> pb_t0 pb' = pb_t0 pb \<and> pb_s pb' = pb_s pb)"
proof -
  obtain m where m: "pb_ready pb = Some m" using pb(4) by auto
  let ?pb = "pb\<lparr>pb_ready := Some (gset i True m)\<rparr>"
  let ?rm = "rm\<lparr>rm_playing := Some ?pb\<rparr>"
  have "MarkReady_locked i t rm = Ok (?rm, Some (nowPlayingEnv pb), False)"
    using pb late m by (simp add: MarkReady_locked_def ready_set_def Let_def nowPlayingEnv_def)
  then have "MarkReady clk i t rm = Ok (?rm, [Send (cl_ref c) (nowPlayingEnv pb)])"
    using c by (simp add: MarkReady_def sendTo_def)
  moreover have "MarkReady clk' i t ?rm = Ok (?rm, [])"
    using pb by (simp add: MarkReady_def MarkReady_locked_def ready_get_def)
  ultimately show ?thesis using pb(2) by auto
qed

lemma late_ready_unicast_once_example:
  "\<exists>rm'. MarkReady (\<lambda>_. 0) ''b'' ''t1'' (demoPlaying True) = Ok (rm', [Send 2 (nowPlayingEnv (demoPlayback True))])"
proof -
  have "pb_ready (demoPlayback True) \<noteq> None" "gget (rm_clients (demoPlaying True)) ''b'' = Some bobIn"
    by (simp_all add: demoPlayback_def)
  with late_ready_unicast_once [of "demoPlaying True" "demoPlayback True" "''t1''" "''b''" bobIn "\<lambda>_. 0"]
  show ?thesis by (auto simp: bobIn_def)
qed

text \<open>
  C35: \<^verbatim>\<open>ready\<close> in a stream room. The playback of a stream room has a nil ready map, so a \<^verbatim>\<open>ready\<close>
  (or a \<^verbatim>\<open>progress\<close> with \<^verbatim>\<open>ready: true\<close>) from any client for the track that is playing writes to a
  nil map and panics, inside the room's locked section; in every other case, in particular in
  every signal room, it does not panic.
\<close>

theorem ready_panics_exactly_in_streams:
  assumes ok: "room_ok rm"
  shows "(\<exists>msg. MarkReady clk i t rm = Panic msg) \<longleftrightarrow> isStream rm \<and> playingID rm = Some t"
    (is "?panic \<longleftrightarrow> _")
proof (cases "rm_playing rm")
  case None
  then show ?thesis by (simp add: MarkReady_def MarkReady_locked_def playingID_def)
next
  case (Some pb)
  have nil: "pb_ready pb = None \<longleftrightarrow> isStream rm" by (rule room_okD(10) [OF ok Some])
  show ?thesis
  proof (cases "pb_trackID pb = t")
    case False
    with Some show ?thesis by (simp add: MarkReady_def MarkReady_locked_def playingID_def)
  next
    case True
    show ?thesis
    proof (cases "pb_ready pb")
      case None
      with nil Some True show ?thesis
        by (simp add: MarkReady_def MarkReady_locked_def ready_set_def ready_get_def playingID_def)
    next
      case (Some m)
      with nil \<open>rm_playing rm = Some pb\<close> True show ?thesis
        by (simp add: MarkReady_def MarkReady_locked_def ready_set_def playingID_def Let_def)
    qed
  qed
qed

theorem ready_panics_exactly_in_streams_witness:
  "\<exists>msg. MarkReady (\<lambda>_. 0) ''b'' ''t1''
     (fst (streamMaybeStart (demoRoom ModeStream\<lparr>rm_queue := [track ''t1'']\<rparr>))) = Panic msg"
proof -
  let ?r = "demoRoom ModeStream\<lparr>rm_queue := [track ''t1'']\<rparr>"
  have ok: "room_ok ?r"
    by (rule room_ok_cong [OF demoRoom_ok [of ModeStream]])
      (simp_all add: queue_ok_def playing_ok_def, simp_all add: demo_defs)
  have m: "isStream ?r" by (simp add: isStream_def demo_defs)
  obtain r' tr where s: "streamMaybeStart_locked ?r = Some (r', tr)"
    by (simp add: streamMaybeStart_locked_def firstReady_def demo_defs)
  then have f: "fst (streamMaybeStart ?r) = r'"
    by (simp add: streamMaybeStart_def Let_def case_prod_beta broadcastState_def streamPreloadNext_def)
  have "isStream r'" "playingID r' = Some ''t1''"
    using s by (auto simp: streamMaybeStart_locked_def firstReady_def demo_defs isStream_def playingID_def)
  with ready_panics_exactly_in_streams [OF stream_start_keeps [OF ok s m], of "\<lambda>_. 0" "''b''" "''t1''"]
  show ?thesis by (simp add: f)
qed

subsection \<open>Pause, resume, seek\<close>

lemma scheduleEnd_stops:
  assumes "scheduleEnd now pb rm = (pb', rm')" and "pb_paused pb" and "pb_endTimer pb = Some i"
  shows "gget (rm_timers rm') i = None"
  using assms by (auto simp: scheduleEnd_def StopTimer_def)

text \<open>
  Pausing freezes the position at the clock reading of the pause: from then on the position
  is, at every time, the one the track had then; the end timer is disarmed; and every connected
  client is sent the new schedule. (The hypothesis says that the position itself fits 64 bits.)
\<close>

lemma pause_freezes_position:
  assumes signal: "\<not> isStream rm" and pb: "rm_playing rm = Some pb" "pb_started pb" "\<not> pb_paused pb"
    and fits: "in64 (position pb (clk 0))"
  shows "\<exists>pb'. rm_playing (fst (Pause clk rm)) = Some pb' \<and> pb_paused pb'
    \<and> (\<forall>t. position pb' t = position pb (clk 0))
    \<and> pb_endTimer pb' = None
    \<and> (\<forall>i. pb_endTimer pb = Some i \<longrightarrow> gget (rm_timers (fst (Pause clk rm))) i = None)
    \<and> snd (Pause clk rm) = to_all (nowPlayingEnv pb') rm"
proof -
  let ?pb = "pb\<lparr>pb_s := wrap64 (pb_s pb + wrap64 (clk 0 - pb_t0 pb)), pb_t0 := clk 1, pb_paused := True\<rparr>"
  obtain pb' rm1 where e: "scheduleEnd (clk 2) ?pb rm = (pb', rm1)" by force
  have s: "Pause_locked clk rm = Some (rm1\<lparr>rm_playing := Some pb'\<rparr>, pb')"
    using pb e by (simp add: Pause_locked_def)
  have pos: "pb_s ?pb = position pb (clk 0)" using fits pb(3) by (simp add: position_def)
  have cl: "rm_clients rm1 = rm_clients rm"
    using plays_fields(1) [OF plays_scheduleEnd [OF e]] by simp
  have pb': "pb' = ?pb\<lparr>pb_endTimer := None\<rparr>" "pb_endTimer pb' = None"
    using scheduleEnd_playback [OF e] by simp_all
  have "gget (rm_timers rm1) i = None" if "pb_endTimer pb = Some i" for i
    using scheduleEnd_stops [OF e] that by simp
  then show ?thesis
    using signal pos cl
    by (intro exI [of _ pb'])
      (simp add: Pause_def s sendAll_def to_all_def pb'(1) position_def)
qed

lemma pause_freezes_position_example:
  "\<exists>pb'. rm_playing (fst (Pause (\<lambda>_. 61000) (demoPlaying True))) = Some pb'
     \<and> position pb' 99999 = 60000"
proof -
  have "in64 (position (demoPlayback True) 61000)" and p: "position (demoPlayback True) 61000 = 60000"
    by (simp_all add: position_def demoPlayback_def in64_def)
  with pause_freezes_position [of "demoPlaying True" "demoPlayback True" "\<lambda>_. 61000"]
  show ?thesis by auto
qed

text \<open>
  Resuming continues where the pause left off: playback is scheduled one start buffer ahead
  of the clock reading, and the position when it sets in is the frozen one; an end timer is armed
  again if the track's length is known; every connected client is sent the schedule.
\<close>

lemma resume_continues:
  assumes signal: "\<not> isStream rm" and pb: "rm_playing rm = Some pb" "pb_started pb" "pb_paused pb"
    and fits: "in64 (clk 0 + startBufferMs)"
  shows "\<exists>pb'. rm_playing (fst (Resume clk rm)) = Some pb' \<and> \<not> pb_paused pb'
    \<and> pb_t0 pb' = clk 0 + startBufferMs
    \<and> (\<forall>d. position pb' (pb_t0 pb' + d) = position pb (clk 0) + d)
    \<and> (pb_endTimer pb' \<noteq> None \<longleftrightarrow> 0 < pb_durationMs pb)
    \<and> snd (Resume clk rm) = to_all (nowPlayingEnv pb') rm"
proof -
  obtain rm' pb' where s: "Resume_locked clk rm = Some (rm', pb')"
    using pb by (auto simp: Resume_locked_def Let_def case_prod_beta)
  from s show ?thesis
  proof (rule Resume_acts)
    fix pb0 e
    assume a: "rm_playing rm = Some pb0" "plays rm pb' rm'"
      "pb' = pb0\<lparr>pb_t0 := wrap64 (clk 0 + startBufferMs), pb_paused := False, pb_endTimer := e\<rparr>"
      "e = None \<longleftrightarrow> pb_durationMs pb0 \<le> 0"
    show ?thesis
      using a signal fits pb plays_fields(1,6) [OF a(2)]
      by (intro exI [of _ pb']) (auto simp: Resume_def s sendAll_def to_all_def position_def)
  qed
qed

lemma resume_continues_example:
  "\<exists>pb'. rm_playing (fst (Resume (\<lambda>_. 90000)
       (demoPlaying True\<lparr>rm_playing := Some (demoPlayback True\<lparr>pb_paused := True, pb_s := 60000,
          pb_endTimer := None\<rparr>)\<rparr>))) = Some pb'
     \<and> position pb' 92000 = 60000"
proof -
  let ?pb = "demoPlayback True\<lparr>pb_paused := True, pb_s := 60000, pb_endTimer := None\<rparr>"
  let ?rm = "demoPlaying True\<lparr>rm_playing := Some ?pb\<rparr>"
  have "\<not> isStream ?rm" by (simp add: isStream_def demoPlaying_def demo_defs)
  then obtain pb' where "rm_playing (fst (Resume (\<lambda>_. 90000) ?rm)) = Some pb'"
    "pb_t0 pb' = 92000" "\<forall>d. position pb' (92000 + d) = position ?pb 90000 + d"
    using resume_continues [of ?rm ?pb "\<lambda>_. 90000"] by (auto simp: in64_def startBufferMs_def)
  moreover from this(3) have "position pb' (92000 + 0) = position ?pb 90000 + 0" by (rule spec)
  ultimately show ?thesis by (simp add: position_def)
qed

text \<open>
  Pausing within the start buffer. A track starts one buffer ahead of the clock; if it is
  paused before that moment, the position that is frozen and sent to everybody is negative,
  although seeking never goes below zero. With the pause right after the start it is the whole
  buffer: -2000 ms.
\<close>

lemma pause_in_start_buffer_is_negative:
  assumes signal: "\<not> isStream rm" and pb: "playingID rm = Some t" "rm_playing rm = Some pb" "\<not> pb_started pb"
    "\<not> pb_paused pb"
    and clocks: "\<bar>clk 0\<bar> < 2 ^ 60" "clk 0 \<le> clk' 0" "clk' 0 < clk 0 + startBufferMs"
  shows "\<exists>pb'. rm_playing (fst (Pause clk' (fst (startPlayback clk t rm)))) = Some pb'
    \<and> pb_s pb' = clk' 0 - clk 0 - startBufferMs \<and> pb_s pb' < 0
    \<and> snd (Pause clk' (fst (startPlayback clk t rm))) = to_all (nowPlayingEnv pb') rm"
proof -
  have t: "pb_trackID pb = t" using pb by (simp add: playingID_def)
  obtain rm1 pb1 where s: "startPlayback_locked clk t rm = Some (rm1, pb1)"
    using pb t by (auto simp: startPlayback_locked_def Let_def case_prod_beta)
  then have r1: "fst (startPlayback clk t rm) = rm1" by (simp add: startPlayback_def sendAll_def)
  from s show ?thesis
  proof (rule startPlayback_acts)
    fix pb0 e
    assume a: "rm_playing rm = Some pb0" "plays rm pb1 rm1"
      "pb1 = pb0\<lparr>pb_started := True, pb_t0 := wrap64 (clk 0 + startBufferMs), pb_s := 0, pb_endTimer := e\<rparr>"
    have f: "in64 (clk 0 + startBufferMs)" "in64 (clk' 0 - clk 0 - startBufferMs)"
      using clocks by (auto simp: in64_def startBufferMs_def)
    have p1: "pb_started pb1" "\<not> pb_paused pb1" "position pb1 (clk' 0) = clk' 0 - clk 0 - startBufferMs"
      using a(1,3) f(1) pb by (simp_all add: position_def)
    have "\<not> isStream rm1" "rm_playing rm1 = Some pb1" "rm_clients rm1 = rm_clients rm"
      using signal plays_fields [OF a(2)] by simp_all
    with pause_freezes_position [of rm1 pb1 clk'] p1 f(2) obtain pb' where
      "rm_playing (fst (Pause clk' rm1)) = Some pb'" "pb_paused pb'"
      "position pb' 0 = clk' 0 - clk 0 - startBufferMs" "snd (Pause clk' rm1) = to_all (nowPlayingEnv pb') rm1"
      by auto
    then show ?thesis
      using clocks(3) to_all_cong [OF \<open>rm_clients rm1 = rm_clients rm\<close>]
      by (intro exI [of _ pb']) (simp add: r1 position_def)
  qed
qed

lemma pause_in_start_buffer_is_negative_example:
  "\<exists>pb'. rm_playing (fst (Pause (\<lambda>_. 5000) (fst (startPlayback (\<lambda>_. 5000) ''t1'' (demoPlaying False))))) = Some pb'
     \<and> pb_s pb' = -2000"
proof -
  have "playingID (demoPlaying False) = Some ''t1''" by (simp add: playingID_def)
  with pause_in_start_buffer_is_negative [of "demoPlaying False" "''t1''" "demoPlayback False" "\<lambda>_. 5000" "\<lambda>_. 5000"]
  show ?thesis by (auto simp: startBufferMs_def)
qed

text \<open>
  Seeking puts the position where the client asked, at zero for a negative request: a playing
  track is rescheduled one start buffer ahead and is there when it sets in, a paused track stays
  paused and is there at once.
\<close>

lemma seek_sets_position:
  assumes signal: "\<not> isStream rm" and pb: "rm_playing rm = Some pb" "pb_started pb"
    and fits: "in64 (clk 0 + startBufferMs)"
  shows "\<exists>pb'. rm_playing (fst (SeekTo clk ms rm)) = Some pb'
    \<and> position pb' (pb_t0 pb') = max 0 ms \<and> pb_paused pb' = pb_paused pb
    \<and> pb_t0 pb' = (if pb_paused pb then clk 0 else clk 0 + startBufferMs)
    \<and> (pb_endTimer pb' \<noteq> None \<longleftrightarrow> \<not> pb_paused pb \<and> 0 < pb_durationMs pb)
    \<and> snd (SeekTo clk ms rm) = to_all (nowPlayingEnv pb') rm"
proof -
  obtain rm' pb' where s: "SeekTo_locked clk ms rm = Some (rm', pb')"
    using pb by (auto simp: SeekTo_locked_def Let_def case_prod_beta)
  from s show ?thesis
  proof (rule SeekTo_acts)
    fix pb0 e
    assume a: "rm_playing rm = Some pb0" "plays rm pb' rm'"
      "pb' = pb0\<lparr>pb_s := max 0 ms,
              pb_t0 := (if pb_paused pb0 then clk 0 else wrap64 (clk 0 + startBufferMs)),
              pb_endTimer := e\<rparr>"
      "e = None \<longleftrightarrow> pb_paused pb0 \<or> pb_durationMs pb0 \<le> 0"
    show ?thesis
      using a signal fits pb plays_fields(1,6) [OF a(2)]
      by (intro exI [of _ pb']) (auto simp: SeekTo_def s sendAll_def to_all_def position_def)
  qed
qed

lemma seek_sets_position_example:
  "\<exists>pb'. rm_playing (fst (SeekTo (\<lambda>_. 5000) (-3) (demoPlaying True))) = Some pb' \<and> position pb' 7000 = 0"
  using seek_sets_position [of "demoPlaying True" "demoPlayback True" "\<lambda>_. 5000" "-3"]
  by (auto simp: in64_def startBufferMs_def)

subsection \<open>The end of a track\<close>

text \<open>
  The end timer never cuts a track short: when it fires, the position is the track's length
  (or the position sought to, if that is beyond) plus the grace period. The timer it replaces is
  disarmed. (The bounds, about 34 years in milliseconds, keep the nanoseconds within 64 bits.)
\<close>

lemma end_timer_after_end:
  assumes e: "scheduleEnd now pb rm = (pb', rm')" and on: "\<not> pb_paused pb" "0 < pb_durationMs pb"
    and fits: "\<bar>pb_t0 pb - now\<bar> \<le> 2 ^ 40" "pb_durationMs pb \<le> 2 ^ 40" "\<bar>pb_s pb\<bar> \<le> 2 ^ 40"
  shows "\<exists>i w. pb_endTimer pb' = Some i
    \<and> gget (rm_timers rm') i = Some \<lparr>tm_wait = w * millisecond, tm_cb = CbEnd (pb_trackID pb)\<rparr>
    \<and> position pb' (now + w) = max (pb_durationMs pb) (pb_s pb) + endGraceMs
    \<and> (\<forall>j. pb_endTimer pb = Some j \<longrightarrow> j \<noteq> i \<longrightarrow> gget (rm_timers rm') j = None)"
proof -
  let ?rest = "max 0 (pb_durationMs pb - pb_s pb)"
  let ?w = "pb_t0 pb - now + ?rest + endGraceMs"
  have in0: "in64 (pb_durationMs pb - pb_s pb)" "in64 (pb_t0 pb - now)" "in64 (pb_t0 pb - now + ?rest)"
    "in64 ?w"
    using on fits by (auto simp: in64_def endGraceMs_def)
  have ns: "in64 (x * millisecond)" if "- (2 ^ 40) \<le> x" "x \<le> 2 ^ 42" for x
    using that by (simp add: in64_def millisecond_def)
  have "in64 (?w * millisecond)"
    using on fits by (intro ns) (auto simp: endGraceMs_def)
  note in1 = in0 this
  let ?rem = "wrap64 (pb_durationMs pb - pb_s pb)"
  have rest: "(if ?rem < 0 then 0 else ?rem) = ?rest" using in1(1) by simp
  have wait: "wrap64 (wrap64 (wrap64 (wrap64 (pb_t0 pb - now) + ?rest) + endGraceMs) * millisecond)
      = ?w * millisecond"
    using in1 by simp
  have "scheduleEnd now pb rm =
      (pb\<lparr>pb_endTimer := Some (rm_nextTimer rm)\<rparr>,
       snd (AfterFunc
         (wrap64 (wrap64 (wrap64 (wrap64 (pb_t0 pb - now) + (if ?rem < 0 then 0 else ?rem)) + endGraceMs)
            * millisecond)) (CbEnd (pb_trackID pb)) (StopTimer (pb_endTimer pb) rm)))"
    using on unfolding scheduleEnd_def Let_def case_prod_beta by simp
  then have "pb' = pb\<lparr>pb_endTimer := Some (rm_nextTimer rm)\<rparr>
      \<and> rm_timers rm' = gset (rm_nextTimer rm) \<lparr>tm_wait = ?w * millisecond, tm_cb = CbEnd (pb_trackID pb)\<rparr>
          (rm_timers (StopTimer (pb_endTimer pb) rm))"
    unfolding rest wait e by (simp add: AfterFunc_def)
  then show ?thesis
    using on by (auto simp: position_def StopTimer_def)
qed

lemma end_timer_after_end_example:
  "\<exists>pb' rm' w. scheduleEnd 500 (demoPlayback True) (demoPlaying True) = (pb', rm')
     \<and> position pb' (500 + w) = 300750"
proof -
  obtain pb' rm' where e: "scheduleEnd 500 (demoPlayback True) (demoPlaying True) = (pb', rm')" by force
  obtain w where "position pb' (500 + w)
      = max (pb_durationMs (demoPlayback True)) (pb_s (demoPlayback True)) + endGraceMs"
    using end_timer_after_end [OF e] by (auto simp: demoPlayback_def)
  with e show ?thesis
    by (intro exI [of _ pb'] exI [of _ rm'] exI [of _ w]) (simp add: demoPlayback_def endGraceMs_def)
qed

text \<open>
  Whoever joins a signal room while a track is on is told, after the state of the room, to
  fetch that track, and, if it has started, the schedule all others have; nothing else is sent to
  it alone.
\<close>

lemma join_catches_up:
  assumes signal: "\<not> isStream rm" and pb: "rm_playing rm = Some pb"
    and j: "Join c rt fresh rm = (c', rm', calls)"
  shows "calls = snd (broadcastState rm')
      @ Send (cl_ref c) (prepareEnv pb)
      # (if pb_started pb then [Send (cl_ref c) (nowPlayingEnv pb)] else [])
    \<and> gget (rm_clients rm') (cl_ID c') = Some c' \<and> rm_playing rm' = Some pb"
proof -
  have l: "Join_locked c rt fresh rm = (c', rm')"
    using j by (auto simp: Join_def case_prod_beta seq2_read_only simp del: seq.simps)
  have calls: "calls = snd (broadcastState rm') @ snd (catchUp c' rm')"
    using j l by (auto simp: Join_def case_prod_beta seq2_read_only simp del: seq.simps)
  have "cl_ref c' = cl_ref c \<and> rm_playing rm' = Some pb \<and> \<not> isStream rm'
      \<and> gget (rm_clients rm') (cl_ID c') = Some c'"
  proof (cases "rt = [] \<or> gget (rm_tokens rm) rt = None")
    case True
    then show ?thesis
      using signal pb Join_new(2,8,10) [OF True l] by (simp add: Join_new(1) [OF True l] isStream_def)
  next
    case False
    then obtain i where t: "rt \<noteq> []" "gget (rm_tokens rm) rt = Some i" by auto
    show ?thesis
    proof (cases "gget (rm_pending rm) i")
      case None
      then show ?thesis
        using signal pb Join_over(2,8,10) [OF t None l] by (simp add: Join_over(1) [OF t None l] isStream_def)
    next
      case (Some p)
      then show ?thesis
        using signal pb Join_back(2,8,10) [OF t Some l] by (simp add: Join_back(1) [OF t Some l] isStream_def)
    qed
  qed
  then show ?thesis by (simp add: calls catchUp_def)
qed

lemma join_catches_up_example:
  "Send 5 (nowPlayingEnv (demoPlayback True))
     \<in> set (snd (snd (Join (alice\<lparr>cl_ref := 5, cl_ID := ''c''\<rparr>) [] ''tc'' (demoPlaying True))))"
proof -
  let ?j = "Join (alice\<lparr>cl_ref := 5, cl_ID := ''c''\<rparr>) [] ''tc'' (demoPlaying True)"
  have "?j = (fst ?j, fst (snd ?j), snd (snd ?j))" by simp
  from join_catches_up [OF _ _ this, of "demoPlayback True"] show ?thesis by simp
qed

end
