(* ===== verification/Go_Text.thy ===== *)
theory Go_Text
  imports Json Hex "HOL-Library.Sublist"
begin

section \<open>Strings and paths of Go's standard library\<close>

text \<open>
  What the media packages use of \<^verbatim>\<open>strings\<close>, \<^verbatim>\<open>bufio\<close>, \<^verbatim>\<open>fmt\<close> and \<^verbatim>\<open>path/filepath\<close> (Unix). Strings are
  byte strings; white space and the classes of a pattern are those of ASCII. A function that
  returns a value and a flag returns an option.

  The lemma to remember is \<open>path_Join_name\<close>: joining a directory with a plain name, one
  without a separator that is neither a dot nor two dots, puts a fixed prefix in front of the name.
\<close>

subsection \<open>strings\<close>

definition TrimPrefix :: "string \<Rightarrow> string \<Rightarrow> string" where
  "TrimPrefix s p = (if prefix p s then drop (length p) s else s)"

definition CutSuffix :: "string \<Rightarrow> string \<Rightarrow> string option" where
  "CutSuffix s suf = (if suffix suf s then Some (take (length s - length suf) s) else None)"

definition TrimSuffix :: "string \<Rightarrow> string \<Rightarrow> string" where
  "TrimSuffix s suf = (case CutSuffix s suf of None \<Rightarrow> s | Some r \<Rightarrow> r)"

fun Cut :: "string \<Rightarrow> string \<Rightarrow> (string \<times> string) option" where
  "Cut sep [] = (if sep = [] then Some ([], []) else None)"
| "Cut sep (c # cs) =
     (if prefix sep (c # cs) then Some ([], drop (length sep) (c # cs))
      else map_option (apfst ((#) c)) (Cut sep cs))"

definition Contains :: "string \<Rightarrow> string \<Rightarrow> bool" where
  "Contains s sub \<longleftrightarrow> Cut sub s \<noteq> None"

definition ContainsAny :: "string \<Rightarrow> string \<Rightarrow> bool" where
  "ContainsAny s chars \<longleftrightarrow> list_ex (\<lambda>c. c \<in> set chars) s"

definition TrimRight :: "string \<Rightarrow> string \<Rightarrow> string" where
  "TrimRight s cutset = rev (dropWhile (\<lambda>c. c \<in> set cutset) (rev s))"

definition is_space :: "char \<Rightarrow> bool" where
  "is_space c \<longleftrightarrow> (of_char c :: nat) \<in> {9, 10, 11, 12, 13, 32}"

definition TrimSpace :: "string \<Rightarrow> string" where
  "TrimSpace s = rev (dropWhile is_space (rev (dropWhile is_space s)))"

definition newline :: char where
  "newline = CHR 0x0A"

text \<open>\<^verbatim>\<open>strings.SplitN(s, "\n", 2)[0]\<close>.\<close>

definition first_line :: "string \<Rightarrow> string" where
  "first_line s = takeWhile (\<lambda>c. c \<noteq> newline) s"

text \<open>\<^verbatim>\<open>strings.Split\<close> with a separator of one character.\<close>

fun split_on :: "char \<Rightarrow> string \<Rightarrow> string list" where
  "split_on c [] = [[]]"
| "split_on c (x # xs) =
     (if x = c then [] # split_on c xs
      else case split_on c xs of [] \<Rightarrow> [[x]] | y # ys \<Rightarrow> (x # y) # ys)"

text \<open>The lines a \<^verbatim>\<open>bufio.Scanner\<close> yields: the last one may lack its end, an end may be CR LF.\<close>

definition drop_cr :: "string \<Rightarrow> string" where
  "drop_cr s = (case CutSuffix s [CHR 0x0D] of None \<Rightarrow> s | Some r \<Rightarrow> r)"

definition scan_lines :: "string \<Rightarrow> string list" where
  "scan_lines s =
     (let ls = split_on newline s
      in List.map drop_cr (if last ls = [] then butlast ls else ls))"

text \<open>\<^verbatim>\<open>fmt.Sprintf("%0wd", i)\<close> for a number that is not negative.\<close>

definition pad_left :: "nat \<Rightarrow> string \<Rightarrow> string" where
  "pad_left w s = replicate (w - length s) (CHR ''0'') @ s"

subsection \<open>Facts about strings\<close>

lemma CutSuffix_append [simp]: "CutSuffix (s @ suf) suf = Some s"
  by (simp add: CutSuffix_def suffix_def)

lemma CutSuffix_Some: "CutSuffix s suf = Some r \<longleftrightarrow> s = r @ suf"
  by (auto simp: CutSuffix_def suffix_def)

lemma CutSuffix_None: "CutSuffix s suf = None \<longleftrightarrow> \<not> suffix suf s"
  by (simp add: CutSuffix_def)

lemma TrimSuffix_append [simp]: "TrimSuffix (s @ suf) suf = s"
  by (simp add: TrimSuffix_def)

lemma TrimPrefix_append [simp]: "TrimPrefix (p @ s) p = s"
  by (simp add: TrimPrefix_def)

lemma Cut_Some: "Cut sep s = Some (a, b) \<Longrightarrow> s = a @ sep @ b"
proof (induction s arbitrary: a)
  case Nil
  then show ?case by (auto split: if_splits)
next
  case (Cons c cs)
  show ?case
  proof (cases "prefix sep (c # cs)")
    case True
    with Cons.prems show ?thesis by (auto simp: prefix_def)
  next
    case False
    with Cons.prems obtain a' where "Cut sep cs = Some (a', b)" "a = c # a'" by auto
    with Cons.IH show ?thesis by simp
  qed
qed

lemma Cut_None: "Cut sep s = None \<longleftrightarrow> \<not> sublist sep s"
  by (induction s) (auto simp: sublist_Cons_right)

lemma Contains_iff: "Contains s sub \<longleftrightarrow> sublist sub s"
  by (simp add: Contains_def Cut_None)

text \<open>A separator that begins with a character the text before it does not have is found there.\<close>

lemma Cut_append: "sep = x # xs \<Longrightarrow> x \<notin> set a \<Longrightarrow> Cut sep (a @ sep @ b) = Some (a, b)"
  by (induction a) (auto simp: prefix_def)

lemma ContainsAny_iff: "ContainsAny s chars \<longleftrightarrow> set s \<inter> set chars \<noteq> {}"
  by (auto simp: ContainsAny_def list_ex_iff)

lemma split_on_not_Nil [simp]: "split_on c s \<noteq> []"
  by (cases s) (auto split: list.split)

lemma split_on_append: "split_on c (xs @ c # ys) = split_on c xs @ split_on c ys"
proof (induction xs)
  case (Cons x xs)
  then show ?case by (cases "split_on c xs") auto
qed simp

lemma split_on_single: "c \<notin> set s \<Longrightarrow> split_on c s = [s]"
  by (induction s) auto

lemma split_on_parts: "p \<in> set (split_on c s) \<Longrightarrow> c \<notin> set p"
proof (induction s arbitrary: p)
  case (Cons x xs)
  then show ?case by (cases "split_on c xs") (auto split: if_splits)
qed simp

subsection \<open>filepath.Clean and filepath.Join\<close>

definition slash :: char where
  "slash = CHR ''/''"

definition dot :: string where "dot = ''.''"
definition dotdot :: string where "dotdot = ''..''"

definition rooted :: "string \<Rightarrow> bool" where
  "rooted s \<longleftrightarrow> s \<noteq> [] \<and> hd s = slash"

text \<open>The elements of the cleaned path so far, last one first.\<close>

definition clean_step :: "bool \<Rightarrow> string \<Rightarrow> string list \<Rightarrow> string list" where
  "clean_step r c acc =
     (if c = [] \<or> c = dot then acc
      else if c = dotdot then
        (case acc of
           [] \<Rightarrow> (if r then [] else [dotdot])
         | t # ts \<Rightarrow> if t = dotdot then dotdot # acc else ts)
      else c # acc)"

definition clean_elems :: "string \<Rightarrow> string list" where
  "clean_elems s = rev (fold (clean_step (rooted s)) (split_on slash s) [])"

fun join_slash :: "string list \<Rightarrow> string" where
  "join_slash [] = []"
| "join_slash [x] = x"
| "join_slash (x # y # ys) = x @ slash # join_slash (y # ys)"

definition Clean :: "string \<Rightarrow> string" where
  "Clean s =
     (let es = clean_elems s
      in if rooted s then slash # join_slash es else if es = [] then dot else join_slash es)"

definition path_Join :: "string list \<Rightarrow> string" where
  "path_Join es = (case dropWhile (\<lambda>e. e = []) es of [] \<Rightarrow> [] | es' \<Rightarrow> Clean (join_slash es'))"

text \<open>A name that is one element of a path and stays where it is put.\<close>

definition plain :: "string \<Rightarrow> bool" where
  "plain n \<longleftrightarrow> n \<noteq> [] \<and> slash \<notin> set n \<and> n \<noteq> dot \<and> n \<noteq> dotdot"

text \<open>What \<open>path_Join\<close> puts in front of plain names.\<close>

definition dir_prefix :: "string \<Rightarrow> string" where
  "dir_prefix d =
     (if d = [] then []
      else let es = clean_elems d
           in if rooted d then slash # (if es = [] then [] else join_slash es @ [slash])
              else if es = [] then [] else join_slash es @ [slash])"

lemma clean_step_plain: "plain n \<Longrightarrow> clean_step r n acc = n # acc"
  by (simp add: plain_def clean_step_def)

lemma clean_plains: "list_all plain ns \<Longrightarrow> fold (clean_step r) ns acc = rev ns @ acc"
  by (induction ns arbitrary: acc) (auto simp: clean_step_plain)

lemma join_slash_Cons: "xs \<noteq> [] \<Longrightarrow> join_slash (x # xs) = x @ slash # join_slash xs"
  by (cases xs) auto

lemma join_slash_append:
  "xs \<noteq> [] \<Longrightarrow> ys \<noteq> [] \<Longrightarrow> join_slash (xs @ ys) = join_slash xs @ slash # join_slash ys"
  by (induction xs rule: join_slash.induct) (auto simp: join_slash_Cons)

lemma split_join_plains: "ns \<noteq> [] \<Longrightarrow> list_all plain ns \<Longrightarrow> split_on slash (join_slash ns) = ns"
  by (induction ns rule: join_slash.induct)
    (auto simp: plain_def split_on_single split_on_append)

lemma rooted_append: "d \<noteq> [] \<Longrightarrow> rooted (d @ s) = rooted d"
  by (simp add: rooted_def)

lemma not_rooted_plains: "ns \<noteq> [] \<Longrightarrow> list_all plain ns \<Longrightarrow> \<not> rooted (join_slash ns)"
  by (cases ns rule: join_slash.cases)
    (auto simp: rooted_def plain_def hd_append dest: hd_in_set)

lemma clean_elems_dir:
  assumes "d \<noteq> []" "ns \<noteq> []" "list_all plain ns"
  shows "clean_elems (d @ slash # join_slash ns) = clean_elems d @ ns"
  using assms by (simp add: clean_elems_def rooted_append split_on_append split_join_plains clean_plains)

lemma clean_elems_plains:
  assumes "ns \<noteq> []" "list_all plain ns" shows "clean_elems (join_slash ns) = ns"
  using assms by (simp add: clean_elems_def split_join_plains clean_plains)

lemma join_slash_not_Nil: "ns \<noteq> [] \<Longrightarrow> list_all plain ns \<Longrightarrow> join_slash ns \<noteq> []"
  by (cases ns rule: join_slash.cases) (auto simp: plain_def)

theorem path_Join_names:
  assumes ns: "ns \<noteq> []" "list_all plain ns"
  shows "path_Join (d # ns) = dir_prefix d @ join_slash ns"
proof (cases "d = []")
  case True
  have "dropWhile (\<lambda>e. e = []) ns = ns"
    using ns by (cases ns) (auto simp: plain_def)
  with True ns show ?thesis
    by (cases ns) (simp_all add: path_Join_def Clean_def not_rooted_plains clean_elems_plains dir_prefix_def)
next
  case False
  then have "path_Join (d # ns) = Clean (d @ slash # join_slash ns)"
    using ns by (simp add: path_Join_def join_slash_Cons)
  with False ns show ?thesis
    by (simp add: Clean_def rooted_append clean_elems_dir dir_prefix_def join_slash_append Let_def)
qed

lemma path_Join_name: "plain n \<Longrightarrow> path_Join [d, n] = dir_prefix d @ n"
  using path_Join_names [of "[n]" d] by simp

lemma plain_ext: "slash \<notin> set i \<Longrightarrow> slash \<notin> set e \<Longrightarrow> 2 < length e \<Longrightarrow> plain (i @ e)"
  by (auto simp: plain_def dot_def dotdot_def dest: arg_cong [where f = length])

subsection \<open>filepath.Glob\<close>

text \<open>
  A pattern is read into its elements once, \<open>None\<close> for \<^verbatim>\<open>ErrBadPattern\<close>; \<^verbatim>\<open>*\<close> and \<^verbatim>\<open>?\<close> do not match the
  separator. \<open>Glob\<close> selects among the paths that exist.
\<close>

datatype pat = Star | AnyChar | Lit char | Class bool "(char \<times> char) list"

definition getEsc :: "string \<Rightarrow> (char \<times> string) option" where
  "getEsc s =
     (case s of
        [] \<Rightarrow> None
      | c # cs \<Rightarrow>
          if c = CHR ''-'' \<or> c = CHR '']'' then None
          else if c = CHR 0x5C then (case cs of [] \<Rightarrow> None | e # es \<Rightarrow> if es = [] then None else Some (e, es))
          else if cs = [] then None else Some (c, cs))"

fun parse_class :: "nat \<Rightarrow> string \<Rightarrow> ((char \<times> char) list \<times> string) option" where
  "parse_class 0 s = None"
| "parse_class (Suc k) s =
     (case getEsc s of
        None \<Rightarrow> None
      | Some (lo, s1) \<Rightarrow>
          (case (if hd s1 = CHR ''-'' then getEsc (tl s1) else Some (lo, s1)) of
             None \<Rightarrow> None
           | Some (hi, s2) \<Rightarrow>
               if hd s2 = CHR '']'' then Some ([(lo, hi)], tl s2)
               else map_option (apfst ((#) (lo, hi))) (parse_class k s2)))"

fun parse_pat :: "nat \<Rightarrow> string \<Rightarrow> pat list option" where
  "parse_pat 0 s = (if s = [] then Some [] else None)"
| "parse_pat (Suc k) s =
     (case s of
        [] \<Rightarrow> Some []
      | c # cs \<Rightarrow>
          if c = CHR ''*'' then map_option ((#) Star) (parse_pat k cs)
          else if c = CHR ''?'' then map_option ((#) AnyChar) (parse_pat k cs)
          else if c = CHR 0x5C then
            (case cs of [] \<Rightarrow> None | e # es \<Rightarrow> map_option ((#) (Lit e)) (parse_pat k es))
          else if c = CHR ''['' then
            (let neg = (cs \<noteq> [] \<and> hd cs = CHR ''^'')
             in case parse_class (length cs) (if neg then tl cs else cs) of
                  None \<Rightarrow> None
                | Some (rs, rest) \<Rightarrow> map_option ((#) (Class neg rs)) (parse_pat k rest))
          else map_option ((#) (Lit c)) (parse_pat k cs))"

fun matches :: "pat list \<Rightarrow> string \<Rightarrow> bool" where
  "matches [] s \<longleftrightarrow> s = []"
| "matches (Star # ps) [] \<longleftrightarrow> matches ps []"
| "matches (Star # ps) (c # cs) \<longleftrightarrow> matches ps (c # cs) \<or> c \<noteq> slash \<and> matches (Star # ps) cs"
| "matches (p # ps) [] \<longleftrightarrow> False"
| "matches (AnyChar # ps) (c # cs) \<longleftrightarrow> c \<noteq> slash \<and> matches ps cs"
| "matches (Lit d # ps) (c # cs) \<longleftrightarrow> d = c \<and> matches ps cs"
| "matches (Class neg rs # ps) (c # cs) \<longleftrightarrow>
     (list_ex (\<lambda>(lo, hi). (of_char lo :: nat) \<le> of_char c \<and> (of_char c :: nat) \<le> of_char hi) rs \<noteq> neg)
     \<and> matches ps cs"

definition Glob :: "string \<Rightarrow> string list \<Rightarrow> string list option" where
  "Glob pattern existing =
     map_option (\<lambda>ps. filter (matches ps) existing) (parse_pat (length pattern) pattern)"

text \<open>A text without special characters stands for itself.\<close>

definition literal :: "string \<Rightarrow> bool" where
  "literal s \<longleftrightarrow> set s \<inter> {CHR ''*'', CHR ''?'', CHR ''['', CHR 0x5C} = {}"

lemma parse_literal_star:
  "literal s \<Longrightarrow> parse_pat (Suc (length s)) (s @ ''*'') = Some (List.map Lit s @ [Star])"
  by (induction s) (auto simp: literal_def)

lemma matches_Star: "matches [Star] s \<longleftrightarrow> slash \<notin> set s"
  by (induction s) auto

lemma matches_Lits: "matches (List.map Lit s @ ps) t \<longleftrightarrow> (\<exists>u. t = s @ u \<and> matches ps u)"
proof (induction s arbitrary: t)
  case (Cons c s)
  then show ?case by (cases t) auto
qed simp

theorem Glob_literal_star:
  assumes "literal s"
  shows "Glob (s @ ''*'') existing =
    Some (filter (\<lambda>p. \<exists>u. p = s @ u \<and> slash \<notin> set u) existing)"
proof -
  have "matches (List.map Lit s @ [Star]) = (\<lambda>p. \<exists>u. p = s @ u \<and> slash \<notin> set u)"
    by (rule ext) (simp only: matches_Lits matches_Star)
  then show ?thesis
    using assms by (simp add: Glob_def parse_literal_star del: parse_pat.simps)
qed

end
