(* ===== verification/Disk.thy ===== *)
theory Disk
  imports Go_Text
begin

section \<open>Files\<close>

text \<open>
  The part of the file system the media package works on: the regular files by their path, with
  their sizes, and the directories. Paths are compared as text, as the program builds them
  (\<open>path_Join\<close> cleans them). Contents of files are not modelled; calls that may fail for reasons of
  the system get the outcome from their caller.
\<close>

record Disk =
  dk_files :: "(string, int) gomap"
  dk_dirs :: "string list"

definition no_files :: Disk where
  "no_files = \<lparr>dk_files = [], dk_dirs = []\<rparr>"

text \<open>\<^verbatim>\<open>os.Stat\<close>: the size, \<open>None\<close> if there is no such file; a directory has the size of a block.\<close>

definition Stat :: "string \<Rightarrow> Disk \<Rightarrow> int option" where
  "Stat path d =
     (case gget (dk_files d) path of
        Some n \<Rightarrow> Some n
      | None \<Rightarrow> if path \<in> set (dk_dirs d) then Some 4096 else None)"

definition below :: "string \<Rightarrow> string \<Rightarrow> bool" where
  "below dir path \<longleftrightarrow> prefix (dir @ [slash]) path"

definition paths :: "Disk \<Rightarrow> string list" where
  "paths d = gkeys (dk_files d) @ dk_dirs d"

text \<open>\<^verbatim>\<open>os.Remove\<close>: a file, or a directory that is empty.\<close>

definition Remove :: "string \<Rightarrow> Disk \<Rightarrow> Disk" where
  "Remove path d =
     (if gget (dk_files d) path \<noteq> None then d\<lparr>dk_files := gdel path (dk_files d)\<rparr>
      else if list_ex (below path) (paths d) then d
      else d\<lparr>dk_dirs := removeAll path (dk_dirs d)\<rparr>)"

definition RemoveAll :: "string \<Rightarrow> Disk \<Rightarrow> Disk" where
  "RemoveAll path d =
     d\<lparr>dk_files := filter (\<lambda>(q, _). q \<noteq> path \<and> \<not> below path q) (dk_files d),
       dk_dirs := filter (\<lambda>q. q \<noteq> path \<and> \<not> below path q) (dk_dirs d)\<rparr>"

definition WriteFile :: "string \<Rightarrow> int \<Rightarrow> Disk \<Rightarrow> Disk" where
  "WriteFile path n d = d\<lparr>dk_files := gset path n (dk_files d)\<rparr>"

text \<open>\<^verbatim>\<open>os.Rename\<close>, \<open>None\<close> if there is no such file.\<close>

definition Rename :: "string \<Rightarrow> string \<Rightarrow> Disk \<Rightarrow> Disk option" where
  "Rename old new d =
     (case gget (dk_files d) old of
        None \<Rightarrow> None
      | Some n \<Rightarrow> Some (WriteFile new n (d\<lparr>dk_files := gdel old (dk_files d)\<rparr>)))"

definition MkdirAll :: "string \<Rightarrow> Disk \<Rightarrow> Disk" where
  "MkdirAll path d = d\<lparr>dk_dirs := List.insert path (dk_dirs d)\<rparr>"

lemma Stat_WriteFile [simp]: "Stat q (WriteFile p n d) = (if q = p then Some n else Stat q d)"
  by (simp add: Stat_def WriteFile_def)

lemma Stat_Remove: "q \<noteq> p \<Longrightarrow> Stat q (Remove p d) = Stat q d"
  by (simp add: Stat_def Remove_def)

lemma Stat_Remove_file: "gget (dk_files (Remove p d)) q = (if q = p then None else gget (dk_files d) q)"
  by (auto simp: Remove_def)

lemma map_of_filter_keys:
  "map_of (filter (\<lambda>(q, _). P q) m) k = (if P k then map_of m k else None)"
  by (induction m) auto

lemma Stat_RemoveAll:
  "Stat q (RemoveAll p d) = (if q = p \<or> below p q then None else Stat q d)"
  by (auto simp: Stat_def RemoveAll_def map_of_filter_keys)

lemma Stat_MkdirAll: "q \<noteq> p \<Longrightarrow> Stat q (MkdirAll p d) = Stat q d"
  by (simp add: Stat_def MkdirAll_def)

lemma Stat_paths: "Stat q d \<noteq> None \<longleftrightarrow> q \<in> set (paths d)"
proof (cases "gget (dk_files d) q")
  case None
  then have "q \<notin> set (gkeys (dk_files d))" using gget_None [of "dk_files d" q] by simp
  with None show ?thesis by (simp add: Stat_def paths_def)
next
  case (Some n)
  then have "q \<in> set (gkeys (dk_files d))" using gget_None [of "dk_files d" q] by auto
  with Some show ?thesis by (auto simp: Stat_def paths_def)
qed

end
