(* ===== verification/Pipeline.thy ===== *)
theory Pipeline
  imports Cache_Plan Disk
begin

section \<open>The media pipeline (internal/media/pipeline.go)\<close>

text \<open>
  The pipeline's table of tracks and the goroutines that work on it. \<open>Pipeline\<close> has the fields of
  the struct; a pointer or a channel is a number, with the streams and segment jobs it may point
  to in \<open>pl_streamHeap\<close> and \<open>pl_jobHeap\<close>. A context is a number too, and \<open>pl_cancelled\<close> lists
  the cancelled ones. \<open>pl_crashed\<close> says that a goroutine has panicked. \<open>pl_disk\<close> is the file
  system.

  A goroutine is a \<open>thread\<close>: the point it has reached and its local variables. Each step is the code between two
  points where it takes the mutex, runs a program, or touches a file, and other threads may run in
  between. A step returns the points that follow: none when the goroutine ends, several when it
  starts others. \<open>notice\<close>s are the calls of the update functions: the room that subscribed, and
  the track.

  What the system and the programs \<^verbatim>\<open>yt-dlp\<close>, \<^verbatim>\<open>ffmpeg\<close>, \<^verbatim>\<open>ffprobe\<close> answer is an argument (\<open>tools\<close>), given
  their command lines; so is the digest of SHA-256.
\<close>

subsection \<open>State\<close>

record mediaStream =
  ms_aborted :: bool
  ms_chClosed :: bool

record hlsJob =
  job_done :: bool
  job_err :: bool

record Pipeline =
  pl_cacheDir :: string
  pl_baseURL :: string
  pl_tracks :: "(string, Track) gomap"
  pl_streams :: "(string, nat) gomap"
  pl_directURLs :: "(string, string) gomap"
  pl_hlsJobs :: "(string, nat) gomap"
  pl_segSem :: nat
  pl_notify :: "(string, nat) gomap"
  pl_fullJobs :: "(string, unit) gomap"
  pl_fullDesired :: "(string, bool) gomap"
  pl_ctxs :: "(string, nat) gomap"
  pl_cancels :: "(string, nat) gomap"
  pl_streamHeap :: "(nat, mediaStream) gomap"
  pl_nextStream :: nat
  pl_jobHeap :: "(nat, hlsJob) gomap"
  pl_nextJob :: nat
  pl_cancelled :: "nat list"
  pl_nextCtx :: nat
  pl_crashed :: bool
  pl_disk :: Disk

type_synonym notice = "nat \<times> Track"

text \<open>How the programs and the system behave in one step.\<close>

datatype pipe_start = PipeFails | StartFails | Started

record tools =
  tl_output :: "string list \<Rightarrow> string option"  \<comment> \<open>\<^verbatim>\<open>cmd.Output()\<close>, \<open>None\<close> an error\<close>
  tl_run :: "string list \<Rightarrow> bool"              \<comment> \<open>\<^verbatim>\<open>cmd.Run()\<close> succeeded\<close>
  tl_ext :: "string option"                    \<comment> \<open>the extension of the file a download leaves\<close>
  tl_bytes :: int                              \<comment> \<open>how much the program wrote\<close>
  tl_secs :: "string \<Rightarrow> int option"             \<comment> \<open>\<^verbatim>\<open>ParseFloat\<close>, then \<^verbatim>\<open>int64(sec * 1000)\<close>\<close>
  tl_osOK :: "string \<Rightarrow> bool"                  \<comment> \<open>the system lets the call on this path through\<close>
  tl_start :: "string list \<Rightarrow> string list \<Rightarrow> pipe_start"
  tl_copyOK :: bool                            \<comment> \<open>the copy and \<^verbatim>\<open>ffmpeg\<close>'s exit were fine\<close>

datatype thread =
    RunMeta string string "nat option"
  | RunStat string string "nat option" int
  | RunMark string "nat option" string int
  | RunOpen string string "nat option" int
  | RunCopy string "nat option" int nat
  | RunClose string "nat option" int bool
  | RunFail string "nat option"
  | DirectAsk string string
  | DirectSave string "string option"
  | DeleteAbort string "nat option"
  | DeleteGlob string
  | FullStat string string
  | FullClaim string string
  | FullFetch string string
  | FullForget string bool
  | FullReady string
  | FullDrop string
  | EvictDrop string bool
  | Emit string
  | SegEnter Track int
  | SegClaim Track int
  | SegAwait nat
  | SegAcquire Track int nat
  | SegCheck Track int nat nat
  | SegDirect Track int nat nat
  | SegSave Track int nat nat "string option"
  | SegEncode Track int nat nat string
  | SegPublish Track int nat nat
  | SegFailed Track int nat nat
  | SegRelease Track int nat bool
  | SegForget Track int nat

text \<open>What a step leads to; \<open>None\<close> is a thread that has to wait.\<close>

type_synonym progress = "thread list \<times> Pipeline \<times> notice list"

abbreviation becomes :: "thread list \<Rightarrow> Pipeline \<Rightarrow> progress" where
  "becomes ths p \<equiv> (ths, p, [])"

definition on_disk :: "(Disk \<Rightarrow> Disk) \<Rightarrow> Pipeline \<Rightarrow> Pipeline" where
  "on_disk f p = p\<lparr>pl_disk := f (pl_disk p)\<rparr>"

definition New_pipeline :: "string \<Rightarrow> string \<Rightarrow> Disk \<Rightarrow> Pipeline" where
  "New_pipeline cacheDir baseURL disk =
     \<lparr>pl_cacheDir = cacheDir, pl_baseURL = TrimRight baseURL ''/'',
      pl_tracks = [], pl_streams = [], pl_directURLs = [], pl_hlsJobs = [], pl_segSem = 0,
      pl_notify = [], pl_fullJobs = [], pl_fullDesired = [], pl_ctxs = [], pl_cancels = [],
      pl_streamHeap = [], pl_nextStream = 0, pl_jobHeap = [], pl_nextJob = 0,
      pl_cancelled = [], pl_nextCtx = 0, pl_crashed = False, pl_disk = MkdirAll cacheDir disk\<rparr>"

text \<open>\<open>None\<close> is \<^verbatim>\<open>context.Background()\<close>, which is never cancelled.\<close>

definition ctxFor :: "string \<Rightarrow> Pipeline \<Rightarrow> nat option" where
  "ctxFor i p = gget (pl_ctxs p) i"

definition ctx_cancelled :: "nat option \<Rightarrow> Pipeline \<Rightarrow> bool" where
  "ctx_cancelled ctx p = (case ctx of None \<Rightarrow> False | Some c \<Rightarrow> c \<in> set (pl_cancelled p))"

definition exists_track :: "string \<Rightarrow> Pipeline \<Rightarrow> bool" where
  "exists_track i p \<longleftrightarrow> gget (pl_tracks p) i \<noteq> None"

definition Get_track :: "string \<Rightarrow> Pipeline \<Rightarrow> Track option" where
  "Get_track i p = gget (pl_tracks p) i"

definition cacheFile :: "string \<Rightarrow> string \<Rightarrow> Pipeline \<Rightarrow> string" where
  "cacheFile i ext p = path_Join [pl_cacheDir p, i @ ext]"

definition mediaURL :: "string \<Rightarrow> string \<Rightarrow> Pipeline \<Rightarrow> string" where
  "mediaURL i ext p = pl_baseURL p @ ''/media/'' @ i @ ext"

lemma cacheFile_plain:
  "slash \<notin> set i \<Longrightarrow> slash \<notin> set e \<Longrightarrow> 2 < length e \<Longrightarrow> cacheFile i e p = dir_prefix (pl_cacheDir p) @ i @ e"
  by (simp add: cacheFile_def path_Join_name plain_ext)

subsection \<open>Aborting a download\<close>

definition newMediaStream :: mediaStream where
  "newMediaStream = \<lparr>ms_aborted = False, ms_chClosed = False\<rparr>"

text \<open>Closing a closed channel panics.\<close>

definition abort_stream :: "mediaStream \<Rightarrow> mediaStream outcome" where
  "abort_stream s =
     (if \<not> ms_aborted s
      then let s = s\<lparr>ms_aborted := True\<rparr> in
           if ms_chClosed s then Panic ''close of closed channel'' else Ok (s\<lparr>ms_chClosed := True\<rparr>)
      else Ok s)"

definition isAborted :: "mediaStream \<Rightarrow> bool" where
  "isAborted s = ms_aborted s"

subsection \<open>Identifiers\<close>

definition trackID :: "(string \<Rightarrow> 8 word list) \<Rightarrow> string \<Rightarrow> string" where
  "trackID sha256 sourceURL = take 16 (EncodeToString (sha256 sourceURL))"

definition idFor :: "(string \<Rightarrow> 8 word list) \<Rightarrow> string \<Rightarrow> string" where
  "idFor sha256 sourceURL =
     (if prefix uploadPrefix sourceURL then TrimPrefix sourceURL uploadPrefix
      else trackID sha256 sourceURL)"

subsection \<open>What the programs report\<close>

definition probeMeta_args :: "string \<Rightarrow> string list" where
  "probeMeta_args sourceURL =
     [''yt-dlp'', ''--no-playlist'', ''--skip-download'',
      ''--print'', ''%(title)s'', ''--print'', ''%(duration)s'', sourceURL]"

definition probeMeta :: "tools \<Rightarrow> string \<Rightarrow> string \<times> int" where
  "probeMeta sys sourceURL =
     (case tl_output sys (probeMeta_args sourceURL) of
        None \<Rightarrow> ([], 0)
      | Some out \<Rightarrow>
          let ls = scan_lines out;
              title = (case ls of [] \<Rightarrow> []
                       | l # _ \<Rightarrow> let t = TrimSpace l in if t \<noteq> [] \<and> t \<noteq> ''NA'' then t else []);
              dur = (case ls of
                       _ # l # _ \<Rightarrow> (case tl_secs sys (TrimSpace l) of None \<Rightarrow> 0 | Some ms \<Rightarrow> ms)
                     | _ \<Rightarrow> 0)
          in (title, dur))"

definition probeIsOpus_args :: "string \<Rightarrow> string list" where
  "probeIsOpus_args path =
     [''ffprobe'', ''-v'', ''error'', ''-select_streams'', ''a:0'',
      ''-show_entries'', ''stream=codec_name'', ''-of'', ''default=nw=1:nokey=1'', path]"

definition probeIsOpus :: "tools \<Rightarrow> string \<Rightarrow> bool" where
  "probeIsOpus sys path =
     (case tl_output sys (probeIsOpus_args path) of
        None \<Rightarrow> False
      | Some out \<Rightarrow> TrimSpace out = ''opus'')"

definition probeDuration_args :: "string \<Rightarrow> string list" where
  "probeDuration_args path =
     [''ffprobe'', ''-v'', ''error'',
      ''-show_entries'', ''format=duration'', ''-of'', ''default=nw=1:nokey=1'', path]"

definition probeDurationMs :: "tools \<Rightarrow> string \<Rightarrow> int" where
  "probeDurationMs sys path =
     (case tl_output sys (probeDuration_args path) of
        None \<Rightarrow> 0
      | Some out \<Rightarrow> (case tl_secs sys (TrimSpace out) of None \<Rightarrow> 0 | Some ms \<Rightarrow> ms))"

subsection \<open>The table of tracks\<close>

definition update_track ::
  "string \<Rightarrow> (Track \<Rightarrow> Track) \<Rightarrow> nat option \<Rightarrow> Pipeline \<Rightarrow> Pipeline \<times> notice list" where
  "update_track i fn onUpdate p =
     (case gget (pl_tracks p) i of
        None \<Rightarrow> (p, [])
      | Some t \<Rightarrow>
          (p\<lparr>pl_tracks := gset i (fn t) (pl_tracks p)\<rparr>,
           case onUpdate of None \<Rightarrow> [] | Some room \<Rightarrow> [(room, fn t)]))"

definition markReady ::
  "string \<Rightarrow> string \<Rightarrow> int \<Rightarrow> nat option \<Rightarrow> Pipeline \<Rightarrow> Pipeline \<times> notice list" where
  "markReady i fileURL durMs =
     update_track i (\<lambda>t. t\<lparr>tr_Status := StatusReady, tr_FileURL := fileURL, tr_DurationMs := durMs\<rparr>)"

definition setError :: "string \<Rightarrow> nat option \<Rightarrow> Pipeline \<Rightarrow> Pipeline \<times> notice list" where
  "setError i = update_track i (\<lambda>t. t\<lparr>tr_Status := StatusError\<rparr>)"

definition new_ctx :: "string \<Rightarrow> Pipeline \<Rightarrow> Pipeline" where
  "new_ctx i p =
     p\<lparr>pl_ctxs := gset i (pl_nextCtx p) (pl_ctxs p),
       pl_cancels := gset i (pl_nextCtx p) (pl_cancels p),
       pl_nextCtx := Suc (pl_nextCtx p)\<rparr>"

text \<open>The track \<^verbatim>\<open>Resolve\<close> returns, and the goroutine it starts if the source is new.\<close>

definition Resolve ::
  "(string \<Rightarrow> 8 word list) \<Rightarrow> string \<Rightarrow> nat option \<Rightarrow> Pipeline \<Rightarrow> Track \<times> thread list \<times> Pipeline" where
  "Resolve sha256 sourceURL onUpdate p =
     (let i = idFor sha256 sourceURL;
          p = (case onUpdate of None \<Rightarrow> p | Some room \<Rightarrow> p\<lparr>pl_notify := gset i room (pl_notify p)\<rparr>)
      in case gget (pl_tracks p) i of
           Some t \<Rightarrow> (t, [], p)
         | None \<Rightarrow>
             let t = \<lparr>tr_ID = i, tr_SourceURL = sourceURL, tr_Status = StatusResolving,
                      tr_Title = [], tr_FileURL = [], tr_DurationMs = 0\<rparr>;
                 p = new_ctx i (p\<lparr>pl_tracks := gset i t (pl_tracks p)\<rparr>)
             in (t, [RunMeta i sourceURL onUpdate], p))"

subsection \<open>Deleting a track\<close>

definition Delete_locked :: "string \<Rightarrow> Pipeline \<Rightarrow> progress" where
  "Delete_locked i p =
     (let p = p\<lparr>pl_tracks := gdel i (pl_tracks p),
                pl_directURLs := gdel i (pl_directURLs p),
                pl_notify := gdel i (pl_notify p),
                pl_fullDesired := gdel i (pl_fullDesired p)\<rparr>;
          p = (case gget (pl_cancels p) i of
                 None \<Rightarrow> p | Some c \<Rightarrow> p\<lparr>pl_cancelled := c # pl_cancelled p\<rparr>);
          p = p\<lparr>pl_cancels := gdel i (pl_cancels p), pl_ctxs := gdel i (pl_ctxs p)\<rparr>
      in becomes [DeleteAbort i (gget (pl_streams p) i)] p)"

definition Delete_abort :: "string \<Rightarrow> nat option \<Rightarrow> Pipeline \<Rightarrow> progress" where
  "Delete_abort i st p =
     becomes [DeleteGlob i]
       (case st of
          None \<Rightarrow> p
        | Some s \<Rightarrow>
            (case gget (pl_streamHeap p) s of
               None \<Rightarrow> p
             | Some ms \<Rightarrow>
                 (case abort_stream ms of
                    Panic _ \<Rightarrow> p\<lparr>pl_crashed := True\<rparr>
                  | Ok ms' \<Rightarrow> p\<lparr>pl_streamHeap := gset s ms' (pl_streamHeap p)\<rparr>)))"

text \<open>Removing stops at the first path the system refuses to remove.\<close>

fun remove_paths :: "(string \<Rightarrow> bool) \<Rightarrow> string list \<Rightarrow> Disk \<Rightarrow> Disk" where
  "remove_paths ok [] d = d"
| "remove_paths ok (q # qs) d = (if ok q then remove_paths ok qs (RemoveAll q d) else d)"

definition Delete_files :: "tools \<Rightarrow> string \<Rightarrow> Pipeline \<Rightarrow> progress" where
  "Delete_files sys i p =
     becomes []
       (case Glob (path_Join [pl_cacheDir p, i @ ''*'']) (paths (pl_disk p)) of
          None \<Rightarrow> p
        | Some qs \<Rightarrow> on_disk (remove_paths (tl_osOK sys) qs) p)"

subsection \<open>Uploads\<close>

datatype upload_error = ErrNotOpus | UploadIO

text \<open>
  The upload is written to a temporary file, with the random part \<open>rnd\<close> in its name, that is
  removed at the end. An upload that is there already is not looked at again.
\<close>

definition store_upload ::
  "tools \<Rightarrow> string \<Rightarrow> string \<Rightarrow> Pipeline \<Rightarrow> upload_error option \<times> Pipeline" where
  "store_upload sys tmpPath out p =
     (if Stat out (pl_disk p) \<noteq> None then (None, p)
      else if \<not> probeIsOpus sys tmpPath then (Some ErrNotOpus, p)
      else if \<not> tl_osOK sys out then (Some UploadIO, p)
      else (case Rename tmpPath out (pl_disk p) of
              None \<Rightarrow> (Some UploadIO, p)
            | Some d \<Rightarrow> (None, p\<lparr>pl_disk := d\<rparr>)))"

definition uploaded_track :: "tools \<Rightarrow> string \<Rightarrow> string \<Rightarrow> Pipeline \<Rightarrow> Track" where
  "uploaded_track sys i title p =
     \<lparr>tr_ID = i, tr_SourceURL = uploadPrefix @ i, tr_Status = StatusReady,
      tr_Title = (if title = [] then ''Local file'' else title),
      tr_FileURL = mediaURL i ''.opus'' p,
      tr_DurationMs = probeDurationMs sys (cacheFile i ''.opus'' p)\<rparr>"

definition register_upload :: "string \<Rightarrow> Track \<Rightarrow> Pipeline \<Rightarrow> Pipeline" where
  "register_upload i t p =
     (let p = p\<lparr>pl_tracks := gset i t (pl_tracks p)\<rparr>
      in if gget (pl_cancels p) i = None then new_ctx i p else p)"

definition RegisterOpus ::
  "(string \<Rightarrow> 8 word list) \<Rightarrow> tools \<Rightarrow> string \<Rightarrow> string \<Rightarrow> string \<Rightarrow> Pipeline
     \<Rightarrow> (upload_error + Track) \<times> Pipeline" where
  "RegisterOpus sha256 sys rnd content title p =
     (let tmpPath = path_Join [pl_cacheDir p, ''upload-'' @ rnd @ ''.tmp''] in
      if \<not> tl_osOK sys tmpPath then (Inl UploadIO, p)
      else
        let p = on_disk (WriteFile tmpPath (int (length content))) p in
        if \<not> tl_copyOK sys then (Inl UploadIO, on_disk (Remove tmpPath) p)
        else
          let i = take 16 (EncodeToString (sha256 content));
              (err, p) = store_upload sys tmpPath (cacheFile i ''.opus'' p) p
          in case err of
               Some e \<Rightarrow> (Inl e, on_disk (Remove tmpPath) p)
             | None \<Rightarrow>
                 let t = uploaded_track sys i title p
                 in (Inr t, on_disk (Remove tmpPath) (register_upload i t p)))"

subsection \<open>Direct addresses of remote audio\<close>

definition cachedURL :: "string \<Rightarrow> Pipeline \<Rightarrow> string" where
  "cachedURL i p = (case gget (pl_directURLs p) i of None \<Rightarrow> [] | Some u \<Rightarrow> u)"

definition directURL_args :: "string \<Rightarrow> string list" where
  "directURL_args sourceURL =
     [''yt-dlp'', ''-f'', ''bestaudio[ext=m4a]/bestaudio/best'', ''--no-playlist'',
      ''--extractor-args'', ''youtube:player_client=android_vr'', ''-g'', sourceURL]"

text \<open>A program is not started under a cancelled context.\<close>

definition ask_directURL :: "tools \<Rightarrow> string \<Rightarrow> string \<Rightarrow> Pipeline \<Rightarrow> string option" where
  "ask_directURL sys i sourceURL p =
     (if ctx_cancelled (ctxFor i p) p then None else tl_output sys (directURL_args sourceURL))"

definition parse_directURL :: "string option \<Rightarrow> string" where
  "parse_directURL out =
     (case out of None \<Rightarrow> [] | Some text \<Rightarrow> TrimSpace (first_line (TrimSpace text)))"

definition save_directURL :: "string \<Rightarrow> string \<Rightarrow> Pipeline \<Rightarrow> Pipeline" where
  "save_directURL i u p =
     (if u = [] then p else p\<lparr>pl_directURLs := gset i u (pl_directURLs p)\<rparr>)"

text \<open>The whole function when nothing interferes, and its two steps.\<close>

definition directURLFor :: "tools \<Rightarrow> string \<Rightarrow> string \<Rightarrow> Pipeline \<Rightarrow> string \<times> Pipeline" where
  "directURLFor sys i sourceURL p =
     (if cachedURL i p \<noteq> [] then (cachedURL i p, p)
      else let u = parse_directURL (ask_directURL sys i sourceURL p) in (u, save_directURL i u p))"

definition direct_ask :: "tools \<Rightarrow> string \<Rightarrow> string \<Rightarrow> Pipeline \<Rightarrow> progress" where
  "direct_ask sys i sourceURL p =
     becomes (if cachedURL i p \<noteq> [] then [] else [DirectSave i (ask_directURL sys i sourceURL p)]) p"

definition direct_save :: "string \<Rightarrow> string option \<Rightarrow> Pipeline \<Rightarrow> progress" where
  "direct_save i out p = becomes [] (save_directURL i (parse_directURL out) p)"

definition clearDirectURL :: "string \<Rightarrow> Pipeline \<Rightarrow> Pipeline" where
  "clearDirectURL i p = p\<lparr>pl_directURLs := gdel i (pl_directURLs p)\<rparr>"

text \<open>What the broadcaster plays: the file, or else the direct address of a remote source.\<close>

definition Pipeline_StreamInput :: "tools \<Rightarrow> Track \<Rightarrow> Pipeline \<Rightarrow> string option \<times> Pipeline" where
  "Pipeline_StreamInput sys t p =
     (let opus = cacheFile (tr_ID t) ''.opus'' p in
      if Stat opus (pl_disk p) \<noteq> None then (Some opus, p)
      else if prefix uploadPrefix (tr_SourceURL t) then (None, p)
      else let (direct, p) = directURLFor sys (tr_ID t) (tr_SourceURL t) p
           in (if direct = [] then None else Some direct, p))"

subsection \<open>The goroutine that prepares a track\<close>

definition transcode_ytdlp :: "string \<Rightarrow> string list" where
  "transcode_ytdlp sourceURL =
     [''yt-dlp'', ''-f'', ''bestaudio/best'', ''--no-playlist'', ''--no-progress'',
      ''-o'', ''-'', sourceURL]"

definition audioBitrate :: string where
  "audioBitrate = ''96k''"

definition transcode_ffmpeg :: "string list" where
  "transcode_ffmpeg =
     [''ffmpeg'', ''-hide_banner'', ''-loglevel'', ''error'', ''-i'', ''pipe:0'',
      ''-vn'', ''-c:a'', ''libopus'', ''-b:a'', audioBitrate, ''-f'', ''ogg'', ''pipe:1'']"

text \<open>Up to the start of the two programs; \<open>False\<close> to \<open>RunClose\<close> is an error.\<close>

definition transcode_open ::
  "tools \<Rightarrow> string \<Rightarrow> string \<Rightarrow> nat option \<Rightarrow> int \<Rightarrow> Pipeline \<Rightarrow> progress" where
  "transcode_open sys i sourceURL cb durMs p =
     (let st = pl_nextStream p;
          p = p\<lparr>pl_streamHeap := gset st newMediaStream (pl_streamHeap p),
                pl_nextStream := Suc st,
                pl_streams := gset i st (pl_streams p)\<rparr>;
          part = cacheFile i ''.part'' p;
          p = on_disk (Remove part) p
      in if \<not> tl_osOK sys part then becomes [RunClose i cb durMs False] p
         else
           let p = on_disk (WriteFile part 0) p
           in case tl_start sys (transcode_ytdlp sourceURL) transcode_ffmpeg of
                PipeFails \<Rightarrow> becomes [RunClose i cb durMs False] p
              | StartFails \<Rightarrow> becomes [RunClose i cb durMs False] (on_disk (Remove part) p)
              | Started \<Rightarrow> becomes [RunCopy i cb durMs st] p)"

text \<open>The programs have ended; \<open>tl_bytes\<close> is what was copied.\<close>

definition transcode_done ::
  "tools \<Rightarrow> string \<Rightarrow> nat option \<Rightarrow> int \<Rightarrow> nat \<Rightarrow> Pipeline \<Rightarrow> progress" where
  "transcode_done sys i cb durMs st p =
     (let part = cacheFile i ''.part'' p;
          out = cacheFile i ''.opus'' p;
          aborted = (case gget (pl_streamHeap p) st of None \<Rightarrow> False | Some s \<Rightarrow> isAborted s)
      in if aborted \<or> \<not> tl_copyOK sys \<or> tl_bytes sys = 0
         then becomes [RunClose i cb durMs False] (on_disk (Remove part) p)
         else if \<not> tl_osOK sys out then becomes [RunClose i cb durMs False] p
         else (case Rename part out (pl_disk p) of
                 None \<Rightarrow> becomes [RunClose i cb durMs False] p
               | Some d \<Rightarrow>
                   becomes [RunClose i cb durMs True] (p\<lparr>pl_disk := WriteFile out (tl_bytes sys) d\<rparr>)))"

text \<open>\<^verbatim>\<open>transcodeComplete\<close> returns: its deferred function forgets the stream.\<close>

definition transcode_close ::
  "tools \<Rightarrow> string \<Rightarrow> nat option \<Rightarrow> int \<Rightarrow> bool \<Rightarrow> Pipeline \<Rightarrow> progress" where
  "transcode_close sys i cb durMs ok p =
     (let p = p\<lparr>pl_streams := gdel i (pl_streams p)\<rparr>
      in if \<not> ok then becomes [RunFail i cb] p
         else becomes
                [RunMark i cb (mediaURL i ''.opus'' p)
                   (if durMs = 0 then probeDurationMs sys (cacheFile i ''.opus'' p) else durMs)] p)"

definition run_meta :: "tools \<Rightarrow> string \<Rightarrow> string \<Rightarrow> nat option \<Rightarrow> Pipeline \<Rightarrow> progress" where
  "run_meta sys i sourceURL cb p =
     (let (title, durMs) = probeMeta sys sourceURL;
          (p, ns) = (if title \<noteq> [] then update_track i (\<lambda>t. t\<lparr>tr_Title := title\<rparr>) cb p else (p, []))
      in ([RunStat i sourceURL cb durMs], p, ns))"

definition run_stat :: "tools \<Rightarrow> string \<Rightarrow> string \<Rightarrow> nat option \<Rightarrow> int \<Rightarrow> Pipeline \<Rightarrow> progress" where
  "run_stat sys i sourceURL cb durMs p =
     (let out = cacheFile i ''.opus'' p in
      if Stat out (pl_disk p) \<noteq> None
      then becomes
             [RunMark i cb (mediaURL i ''.opus'' p)
                (if durMs = 0 then probeDurationMs sys out else durMs)] p
      else if \<not> prefix uploadPrefix sourceURL \<and> durMs \<ge> hlsDurationThresholdMs
      then becomes [DirectAsk i sourceURL, RunMark i cb (mediaURL i ''/index.m3u8'' p) durMs] p
      else becomes [RunOpen i sourceURL cb durMs] p)"

definition run_mark :: "string \<Rightarrow> nat option \<Rightarrow> string \<Rightarrow> int \<Rightarrow> Pipeline \<Rightarrow> progress" where
  "run_mark i cb fileURL durMs p = ([], markReady i fileURL durMs cb p)"

definition run_fail :: "string \<Rightarrow> nat option \<Rightarrow> Pipeline \<Rightarrow> progress" where
  "run_fail i cb p = ([], setError i cb p)"

end
