(* ===== verification/Full_Files.thy ===== *)
theory Full_Files
  imports Pipeline
begin

section \<open>Complete files of long tracks (internal/media/cache.go)\<close>

text \<open>
  Carrying out a cache plan: fetching the complete file of a track, announcing it, and evicting
  it again. The plan itself is in \<open>Cache_Plan\<close>. As in \<open>Pipeline\<close>, each function is split where it
  takes the mutex, runs a program or touches a file.
\<close>

definition fullPath :: "string \<Rightarrow> Pipeline \<Rightarrow> string" where
  "fullPath i p = path_Join [pl_cacheDir p, i @ ''.m4a'']"

definition fullURL :: "string \<Rightarrow> Pipeline \<Rightarrow> string" where
  "fullURL i p = pl_baseURL p @ ''/media/'' @ i @ ''.m4a''"

definition emitUpdate :: "string \<Rightarrow> Pipeline \<Rightarrow> progress" where
  "emitUpdate i p =
     ([], p,
      case (gget (pl_tracks p) i, gget (pl_notify p) i) of
        (Some t, Some room) \<Rightarrow> [(room, t)]
      | _ \<Rightarrow> [])"

definition setFullReady :: "string \<Rightarrow> Pipeline \<Rightarrow> progress" where
  "setFullReady i p =
     (case gget (pl_tracks p) i of
        None \<Rightarrow> becomes [FullDrop i] p
      | Some t \<Rightarrow>
          if gget (pl_fullDesired p) i \<noteq> Some True then becomes [FullDrop i] p
          else if tr_FileURL t = fullURL i p then becomes [] p
          else becomes [Emit i]
                 (p\<lparr>pl_tracks :=
                      gset i (t\<lparr>tr_FileURL := fullURL i p, tr_Status := StatusReady\<rparr>) (pl_tracks p)\<rparr>))"

definition drop_full :: "string \<Rightarrow> Pipeline \<Rightarrow> progress" where
  "drop_full i p = becomes [] (on_disk (Remove (fullPath i p)) p)"

subsection \<open>Fetching\<close>

definition ensureFull :: "string \<Rightarrow> string \<Rightarrow> Pipeline \<Rightarrow> progress" where
  "ensureFull i sourceURL p =
     becomes [FullStat i sourceURL] (p\<lparr>pl_fullDesired := gset i True (pl_fullDesired p)\<rparr>)"

definition full_stat :: "string \<Rightarrow> string \<Rightarrow> Pipeline \<Rightarrow> progress" where
  "full_stat i sourceURL p =
     (case Stat (fullPath i p) (pl_disk p) of
        Some n \<Rightarrow> if n > 0 then becomes [FullReady i] p else becomes [FullClaim i sourceURL] p
      | None \<Rightarrow> becomes [FullClaim i sourceURL] p)"

definition full_claim :: "string \<Rightarrow> string \<Rightarrow> Pipeline \<Rightarrow> progress" where
  "full_claim i sourceURL p =
     (if gget (pl_fullJobs p) i \<noteq> None then becomes [] p
      else becomes [FullFetch i sourceURL] (p\<lparr>pl_fullJobs := gset i () (pl_fullJobs p)\<rparr>))"

definition full_forget :: "string \<Rightarrow> bool \<Rightarrow> Pipeline \<Rightarrow> progress" where
  "full_forget i ok p =
     becomes (if ok then [FullReady i] else []) (p\<lparr>pl_fullJobs := gdel i (pl_fullJobs p)\<rparr>)"

definition globIgnore :: "string \<Rightarrow> Disk \<Rightarrow> string list" where
  "globIgnore pattern d = (case Glob pattern (paths d) of None \<Rightarrow> [] | Some qs \<Rightarrow> qs)"

definition download_args :: "string \<Rightarrow> string \<Rightarrow> string list" where
  "download_args pre sourceURL =
     [''yt-dlp'', ''-f'', ''140/bestaudio[ext=m4a]'', ''--no-playlist'',
      ''--extractor-args'', ''youtube:player_client=android_vr'',
      ''--http-chunk-size'', ''1M'', ''-N'', ''4'', ''-o'', pre @ ''%(ext)s'', sourceURL]"

text \<open>
  The program writes one file, whose extension is its choice; \<open>tl_ext = None\<close> is a program that
  ends well and leaves no file.
\<close>

definition downloadFullM4A ::
  "tools \<Rightarrow> string \<Rightarrow> string \<Rightarrow> Pipeline \<Rightarrow> bool \<times> Pipeline" where
  "downloadFullM4A sys i sourceURL p =
     (let out = fullPath i p;
          pre = path_Join [pl_cacheDir p, i @ ''.fulltmp.''];
          clear = (\<lambda>d. fold Remove (globIgnore (pre @ ''*'') d) d);
          p = on_disk clear p
      in if \<not> tl_run sys (download_args pre sourceURL) then (False, on_disk clear p)
         else
           let p = (case tl_ext sys of
                      None \<Rightarrow> p
                    | Some e \<Rightarrow> on_disk (WriteFile (pre @ e) (tl_bytes sys)) p)
           in case globIgnore (pre @ ''*'') (pl_disk p) of
                [] \<Rightarrow> (False, p)
              | m # _ \<Rightarrow>
                  if \<not> tl_osOK sys out then (False, p)
                  else (case Rename m out (pl_disk p) of
                          None \<Rightarrow> (False, p)
                        | Some d \<Rightarrow> (True, p\<lparr>pl_disk := d\<rparr>)))"

definition full_fetch :: "tools \<Rightarrow> string \<Rightarrow> string \<Rightarrow> Pipeline \<Rightarrow> progress" where
  "full_fetch sys i sourceURL p =
     (let (ok, p) = downloadFullM4A sys i sourceURL p in becomes [FullForget i ok] p)"

subsection \<open>Evicting\<close>

definition evictFull :: "string \<Rightarrow> Pipeline \<Rightarrow> progress" where
  "evictFull i p =
     (let p = p\<lparr>pl_fullDesired := gset i False (pl_fullDesired p)\<rparr> in
      case gget (pl_tracks p) i of
        None \<Rightarrow> becomes [EvictDrop i False] p
      | Some t \<Rightarrow>
          if tr_FileURL t = fullURL i p
          then becomes [EvictDrop i True]
                 (p\<lparr>pl_tracks :=
                      gset i (t\<lparr>tr_FileURL := mediaURL i ''/index.m3u8'' p\<rparr>) (pl_tracks p)\<rparr>)
          else becomes [EvictDrop i False] p)"

definition evict_drop :: "string \<Rightarrow> bool \<Rightarrow> Pipeline \<Rightarrow> progress" where
  "evict_drop i revert p =
     becomes (if revert then [Emit i] else []) (on_disk (Remove (fullPath i p)) p)"

subsection \<open>Reconcile\<close>

text \<open>The calls of \<^verbatim>\<open>Reconcile\<close>, each up to its first unlock.\<close>

fun start_action :: "cache_action \<Rightarrow> Pipeline \<Rightarrow> progress" where
  "start_action (EnsureFull i sourceURL) p = ensureFull i sourceURL p"
| "start_action (EvictFull i) p = evictFull i p"

end
