(* ===== verification/Hls.thy ===== *)
theory Hls
  imports Pipeline
begin

section \<open>Playlists and segments of long tracks (internal/media/hls.go)\<close>

text \<open>
  A long track is served as a playlist of segments of six seconds that are cut out of the remote audio on
  demand. Times are \<open>int64\<close> milliseconds with the wrap-around written out. A segment is made by at most
  one job at a time, and at most five jobs run \<^verbatim>\<open>ffmpeg\<close>; as in \<open>Pipeline\<close>, a job is a thread that
  other threads may interrupt at each step.
\<close>

definition hlsSegmentMs :: int where "hlsSegmentMs = 6000"
definition hlsAudioBitrate :: string where "hlsAudioBitrate = ''128k''"
definition hlsReadAhead :: int where "hlsReadAhead = 4"
definition hlsSegConcurrency :: nat where "hlsSegConcurrency = 5"

text \<open>\<^verbatim>\<open>(track.DurationMs + hlsSegmentMs - 1) / hlsSegmentMs\<close>.\<close>

definition segment_count :: "int \<Rightarrow> int" where
  "segment_count durMs = wrap64 (wrap64 (durMs + hlsSegmentMs) - 1) sdiv hlsSegmentMs"

text \<open>
  \<^verbatim>\<open>fmt.Sprintf("%.3f", float64(ms)/1000)\<close>. Below \<open>2 ^ 50\<close> the quotient is close enough to the exact
  one for three decimals to be exact; the program prints durations of segments and their
  starts.
\<close>

definition format_seconds :: "int \<Rightarrow> string" where
  "format_seconds ms =
     (if ms < 0 then ''-'' else []) @ FormatInt (\<bar>ms\<bar> div 1000) @ ''.''
     @ pad_left 3 (FormatInt (\<bar>ms\<bar> mod 1000))"

definition formatHLSDuration :: "int \<Rightarrow> string" where
  "formatHLSDuration ms = format_seconds ms"

definition formatFFmpegSeconds :: "int \<Rightarrow> string" where
  "formatFFmpegSeconds ms = format_seconds ms"

subsection \<open>The playlist\<close>

definition line_end :: string where "line_end = [newline]"

definition playlist_dur :: "int \<Rightarrow> int \<Rightarrow> int" where
  "playlist_dur durMs i =
     (let remain = wrap64 (durMs - wrap64 (i * hlsSegmentMs))
      in if remain < hlsSegmentMs then remain else hlsSegmentMs)"

definition playlist_entry :: "int \<Rightarrow> int \<Rightarrow> string" where
  "playlist_entry durMs i =
     ''#EXTINF:'' @ formatHLSDuration (playlist_dur durMs i) @ '','' @ line_end
     @ ''seg/'' @ FormatInt i @ ''.ts'' @ line_end"

text \<open>\<^verbatim>\<open>for i := int64(0); i < count; i++\<close>\<close>

function playlist_loop :: "int \<Rightarrow> int \<Rightarrow> int \<Rightarrow> string" where
  "playlist_loop durMs count i =
     (if i < count then playlist_entry durMs i @ playlist_loop durMs count (i + 1) else [])"
  by pat_completeness auto
termination by (relation "measure (\<lambda>(d, n, i). nat (n - i))") auto

declare playlist_loop.simps [simp del]

definition playlist_text :: "int \<Rightarrow> string" where
  "playlist_text durMs =
     ''#EXTM3U'' @ line_end @ ''#EXT-X-VERSION:3'' @ line_end
     @ ''#EXT-X-INDEPENDENT-SEGMENTS'' @ line_end @ ''#EXT-X-PLAYLIST-TYPE:VOD'' @ line_end
     @ ''#EXT-X-TARGETDURATION:'' @ FormatInt ((hlsSegmentMs + 999) sdiv 1000) @ line_end
     @ ''#EXT-X-MEDIA-SEQUENCE:0'' @ line_end
     @ playlist_loop durMs (segment_count durMs) 0
     @ ''#EXT-X-ENDLIST'' @ line_end"

datatype response =
    NotFound
  | InternalServerError
  | Text string string           \<comment> \<open>content type and body\<close>
  | ServeFile string string      \<comment> \<open>content type, empty if left to the name, and path\<close>

text \<open>The track, unless the request is answered with 404: unknown, no duration yet, or an upload.\<close>

definition hls_track :: "string \<Rightarrow> Pipeline \<Rightarrow> Track option" where
  "hls_track i p =
     (case Get_track i p of
        None \<Rightarrow> None
      | Some t \<Rightarrow> if tr_DurationMs t \<le> 0 \<or> prefix uploadPrefix (tr_SourceURL t) then None else Some t)"

definition serveHLSPlaylist :: "string \<Rightarrow> Pipeline \<Rightarrow> response" where
  "serveHLSPlaylist i p =
     (case hls_track i p of
        None \<Rightarrow> NotFound
      | Some t \<Rightarrow> Text ''application/vnd.apple.mpegurl'' (playlist_text (tr_DurationMs t)))"

subsection \<open>Segments\<close>

definition segment_name :: "int \<Rightarrow> string" where
  "segment_name segment = ''seg'' @ pad_left 6 (FormatInt segment) @ ''.ts''"

definition hlsSegmentPath :: "string \<Rightarrow> int \<Rightarrow> Pipeline \<Rightarrow> string" where
  "hlsSegmentPath i segment p = path_Join [pl_cacheDir p, i @ ''.hls'', segment_name segment]"

definition segUserAgent :: string where
  "segUserAgent =
     ''Mozilla/5.0 (Windows NT 10.0; Win64; x64) AppleWebKit/537.36 ''
     @ ''(KHTML, like Gecko) Chrome/143.0.0.0 Safari/537.36''"

definition segment_args :: "string \<Rightarrow> int \<Rightarrow> int \<Rightarrow> string \<Rightarrow> bool \<Rightarrow> string list" where
  "segment_args direct startMs durMs out copyAudio =
     [''ffmpeg'', ''-hide_banner'', ''-loglevel'', ''error'', ''-user_agent'', segUserAgent,
      ''-reconnect'', ''1'', ''-reconnect_streamed'', ''1'', ''-reconnect_delay_max'', ''5'',
      ''-ss'', formatFFmpegSeconds startMs, ''-i'', direct, ''-t'', formatFFmpegSeconds durMs, ''-vn'']
     @ (if copyAudio then [''-c:a'', ''copy'']
        else [''-c:a'', ''aac'', ''-b:a'', hlsAudioBitrate, ''-ar'', ''48000'', ''-ac'', ''2''])
     @ [''-muxdelay'', ''0'', ''-muxpreload'', ''0'',
        ''-output_ts_offset'', formatFFmpegSeconds startMs, ''-f'', ''mpegts'', out]"

text \<open>
  \<^verbatim>\<open>serveHLSSegment\<close>: which segments there are, and the request itself. The request may have to wait
  for the segment; \<open>ensured\<close> is what \<^verbatim>\<open>ensureHLSSegment\<close> returned to it, and \<open>p\<close> is the pipeline
  then. The result is the answer and the segments \<^verbatim>\<open>warmHLSSegments\<close> starts behind it.
\<close>

definition segment_in_range :: "Track \<Rightarrow> int \<Rightarrow> bool" where
  "segment_in_range t segment \<longleftrightarrow> \<not> (segment < 0 \<or> segment \<ge> segment_count (tr_DurationMs t))"

text \<open>\<^verbatim>\<open>for i := from; i < from+n && i < count; i++\<close>\<close>

function warm_loop :: "Track \<Rightarrow> int \<Rightarrow> int \<Rightarrow> Pipeline \<Rightarrow> thread list" where
  "warm_loop t i end p =
     (if i < end \<and> i < segment_count (tr_DurationMs t)
      then (if Stat (hlsSegmentPath (tr_ID t) i p) (pl_disk p) \<noteq> None then [] else [SegEnter t i])
           @ warm_loop t (i + 1) end p
      else [])"
  by pat_completeness auto
termination by (relation "measure (\<lambda>(t, i, e, p). nat (e - i))") auto

declare warm_loop.simps [simp del]

definition warmHLSSegments :: "Track \<Rightarrow> int \<Rightarrow> int \<Rightarrow> Pipeline \<Rightarrow> thread list" where
  "warmHLSSegments t from n p =
     (if \<not> exists_track (tr_ID t) p then [] else warm_loop t from (wrap64 (from + n)) p)"

definition serveHLSSegment ::
  "(Track \<Rightarrow> int \<Rightarrow> bool) \<Rightarrow> bool \<Rightarrow> string \<Rightarrow> int \<Rightarrow> Pipeline \<Rightarrow> response \<times> thread list" where
  "serveHLSSegment ensured openOK i segment p =
     (case hls_track i p of
        None \<Rightarrow> (NotFound, [])
      | Some t \<Rightarrow>
          if \<not> segment_in_range t segment then (NotFound, [])
          else
            let path = hlsSegmentPath i segment p in
            if Stat path (pl_disk p) = None \<and> \<not> ensured t segment then (NotFound, [])
            else (if openOK then ServeFile ''video/mp2t'' path else NotFound,
                  warmHLSSegments t (wrap64 (segment + 1)) hlsReadAhead p))"

subsection \<open>Making a segment\<close>

definition job_key :: "Track \<Rightarrow> int \<Rightarrow> string" where
  "job_key t segment = tr_ID t @ '':'' @ FormatInt segment"

definition set_job :: "nat \<Rightarrow> hlsJob \<Rightarrow> Pipeline \<Rightarrow> Pipeline" where
  "set_job j job p = p\<lparr>pl_jobHeap := gset j job (pl_jobHeap p)\<rparr>"

definition seg_enter :: "Track \<Rightarrow> int \<Rightarrow> Pipeline \<Rightarrow> progress" where
  "seg_enter t segment p =
     becomes (if exists_track (tr_ID t) p then [SegClaim t segment] else []) p"

definition seg_claim :: "Track \<Rightarrow> int \<Rightarrow> Pipeline \<Rightarrow> progress" where
  "seg_claim t segment p =
     (case gget (pl_hlsJobs p) (job_key t segment) of
        Some j \<Rightarrow> becomes [SegAwait j] p
      | None \<Rightarrow>
          let j = pl_nextJob p
          in becomes [SegAcquire t segment j]
               (set_job j \<lparr>job_done = False, job_err = False\<rparr>
                 (p\<lparr>pl_hlsJobs := gset (job_key t segment) j (pl_hlsJobs p), pl_nextJob := Suc j\<rparr>)))"

text \<open>Waiting for another goroutine's job; \<open>None\<close> while it is not done.\<close>

definition seg_await :: "nat \<Rightarrow> Pipeline \<Rightarrow> progress option" where
  "seg_await j p =
     (case gget (pl_jobHeap p) j of
        None \<Rightarrow> None
      | Some job \<Rightarrow> if job_done job then Some (becomes [] p) else None)"

definition seg_acquire :: "Track \<Rightarrow> int \<Rightarrow> nat \<Rightarrow> Pipeline \<Rightarrow> progress option" where
  "seg_acquire t segment j p =
     (if pl_segSem p < hlsSegConcurrency
      then Some (becomes [SegCheck t segment j 0] (p\<lparr>pl_segSem := Suc (pl_segSem p)\<rparr>))
      else None)"

text \<open>
  \<^verbatim>\<open>generateHLSSegment\<close>, called for the first (\<open>0\<close>) and after a failure a second time. Its steps up to the
  lookup of the direct address:
\<close>

definition seg_check :: "tools \<Rightarrow> Track \<Rightarrow> int \<Rightarrow> nat \<Rightarrow> nat \<Rightarrow> Pipeline \<Rightarrow> progress" where
  "seg_check sys t segment j attempt p =
     (if \<not> exists_track (tr_ID t) p then becomes [SegFailed t segment j attempt] p
      else
        let dir = path_Join [pl_cacheDir p, tr_ID t @ ''.hls''] in
        if \<not> tl_osOK sys dir then becomes [SegFailed t segment j attempt] p
        else
          let p = on_disk (MkdirAll dir) p in
          if Stat (hlsSegmentPath (tr_ID t) segment p) (pl_disk p) \<noteq> None
          then becomes [SegRelease t segment j False] p
          else becomes [SegDirect t segment j attempt] p)"

definition seg_direct :: "tools \<Rightarrow> Track \<Rightarrow> int \<Rightarrow> nat \<Rightarrow> nat \<Rightarrow> Pipeline \<Rightarrow> progress" where
  "seg_direct sys t segment j attempt p =
     (let u = cachedURL (tr_ID t) p in
      if u \<noteq> [] then becomes [SegEncode t segment j attempt u] p
      else becomes [SegSave t segment j attempt (ask_directURL sys (tr_ID t) (tr_SourceURL t) p)] p)"

definition seg_save :: "Track \<Rightarrow> int \<Rightarrow> nat \<Rightarrow> nat \<Rightarrow> string option \<Rightarrow> Pipeline \<Rightarrow> progress" where
  "seg_save t segment j attempt out p =
     (let u = parse_directURL out in
      if u = [] then becomes [SegFailed t segment j attempt] p
      else becomes [SegEncode t segment j attempt u] (save_directURL (tr_ID t) u p))"

text \<open>Where a segment starts, and how long it is.\<close>

definition segment_start :: "int \<Rightarrow> int" where
  "segment_start segment = wrap64 (segment * hlsSegmentMs)"

definition segment_dur :: "int \<Rightarrow> int \<Rightarrow> int" where
  "segment_dur durMs segment =
     (let remain = wrap64 (durMs - segment_start segment)
      in if remain < hlsSegmentMs then remain else hlsSegmentMs)"

definition runHLSSegmentFFmpeg ::
  "tools \<Rightarrow> nat option \<Rightarrow> string \<Rightarrow> int \<Rightarrow> int \<Rightarrow> string \<Rightarrow> bool \<Rightarrow> Pipeline \<Rightarrow> bool \<times> Pipeline" where
  "runHLSSegmentFFmpeg sys ctx direct startMs durMs out copyAudio p =
     (if ctx_cancelled ctx p then (False, p)
      else (tl_run sys (segment_args direct startMs durMs out copyAudio),
            on_disk (WriteFile out (tl_bytes sys)) p))"

text \<open>Copying the audio is tried first, then recoding it.\<close>

definition seg_encode :: "tools \<Rightarrow> Track \<Rightarrow> int \<Rightarrow> nat \<Rightarrow> nat \<Rightarrow> string \<Rightarrow> Pipeline \<Rightarrow> progress" where
  "seg_encode sys t segment j attempt direct p =
     (let startMs = segment_start segment;
          durMs = segment_dur (tr_DurationMs t) segment;
          tmp = hlsSegmentPath (tr_ID t) segment p @ ''.tmp'';
          p = on_disk (Remove tmp) p;
          ctx = ctxFor (tr_ID t) p;
          (ok, p) = runHLSSegmentFFmpeg sys ctx direct startMs durMs tmp True p
      in if ok then becomes [SegPublish t segment j attempt] p
         else
           let p = on_disk (Remove tmp) p;
               (ok, p) = runHLSSegmentFFmpeg sys ctx direct startMs durMs tmp False p
           in if ok then becomes [SegPublish t segment j attempt] p
              else becomes [SegFailed t segment j attempt] (on_disk (Remove tmp) p))"

definition seg_publish :: "tools \<Rightarrow> Track \<Rightarrow> int \<Rightarrow> nat \<Rightarrow> nat \<Rightarrow> Pipeline \<Rightarrow> progress" where
  "seg_publish sys t segment j attempt p =
     (let path = hlsSegmentPath (tr_ID t) segment p;
          tmp = path @ ''.tmp'';
          dir = path_Join [pl_cacheDir p, tr_ID t @ ''.hls'']
      in if \<not> exists_track (tr_ID t) p
         then becomes [SegFailed t segment j attempt] (on_disk (Remove dir) (on_disk (Remove tmp) p))
         else if \<not> tl_osOK sys path then becomes [SegFailed t segment j attempt] p
         else (case Rename tmp path (pl_disk p) of
                 None \<Rightarrow> becomes [SegFailed t segment j attempt] p
               | Some d \<Rightarrow> becomes [SegRelease t segment j False] (p\<lparr>pl_disk := d\<rparr>)))"

text \<open>After the first failure the direct address is dropped and asked for again.\<close>

definition seg_failed :: "Track \<Rightarrow> int \<Rightarrow> nat \<Rightarrow> nat \<Rightarrow> Pipeline \<Rightarrow> progress" where
  "seg_failed t segment j attempt p =
     (if attempt = 0 then becomes [SegCheck t segment j 1] (clearDirectURL (tr_ID t) p)
      else becomes [SegRelease t segment j True] p)"

definition seg_release :: "Track \<Rightarrow> int \<Rightarrow> nat \<Rightarrow> bool \<Rightarrow> Pipeline \<Rightarrow> progress" where
  "seg_release t segment j err p =
     (let p = p\<lparr>pl_segSem := pl_segSem p - 1\<rparr> in
      case gget (pl_jobHeap p) j of
        None \<Rightarrow> becomes [SegForget t segment j] p
      | Some job \<Rightarrow>
          if job_done job then becomes [] (p\<lparr>pl_crashed := True\<rparr>)
          else becomes [SegForget t segment j] (set_job j \<lparr>job_done = True, job_err = err\<rparr> p))"

definition seg_forget :: "Track \<Rightarrow> int \<Rightarrow> Pipeline \<Rightarrow> progress" where
  "seg_forget t segment p =
     becomes [] (p\<lparr>pl_hlsJobs := gdel (job_key t segment) (pl_hlsJobs p)\<rparr>)"

end
