(* ===== verification/Media_Steps.thy ===== *)
theory Media_Steps
  imports Full_Files Hls
begin

section \<open>The pipeline under all its goroutines\<close>

text \<open>
  The goroutines of the pipeline run in any order, one step of one of them at a time, and new
  requests come in between. This theory has the step relation; \<open>Media_Inv\<close> has what holds in
  every state it reaches.
\<close>

text \<open>One step of one goroutine; \<open>None\<close> if it has to wait.\<close>

fun thread_step :: "tools \<Rightarrow> thread \<Rightarrow> Pipeline \<Rightarrow> progress option" where
  "thread_step sys (RunMeta i u cb) p = Some (run_meta sys i u cb p)"
| "thread_step sys (RunStat i u cb d) p = Some (run_stat sys i u cb d p)"
| "thread_step sys (RunMark i cb f d) p = Some (run_mark i cb f d p)"
| "thread_step sys (RunOpen i u cb d) p = Some (transcode_open sys i u cb d p)"
| "thread_step sys (RunCopy i cb d st) p = Some (transcode_done sys i cb d st p)"
| "thread_step sys (RunClose i cb d ok) p = Some (transcode_close sys i cb d ok p)"
| "thread_step sys (RunFail i cb) p = Some (run_fail i cb p)"
| "thread_step sys (DirectAsk i u) p = Some (direct_ask sys i u p)"
| "thread_step sys (DirectSave i out) p = Some (direct_save i out p)"
| "thread_step sys (DeleteAbort i st) p = Some (Delete_abort i st p)"
| "thread_step sys (DeleteGlob i) p = Some (Delete_files sys i p)"
| "thread_step sys (FullStat i u) p = Some (full_stat i u p)"
| "thread_step sys (FullClaim i u) p = Some (full_claim i u p)"
| "thread_step sys (FullFetch i u) p = Some (full_fetch sys i u p)"
| "thread_step sys (FullForget i ok) p = Some (full_forget i ok p)"
| "thread_step sys (FullReady i) p = Some (setFullReady i p)"
| "thread_step sys (FullDrop i) p = Some (drop_full i p)"
| "thread_step sys (EvictDrop i r) p = Some (evict_drop i r p)"
| "thread_step sys (Emit i) p = Some (emitUpdate i p)"
| "thread_step sys (SegEnter t n) p = Some (seg_enter t n p)"
| "thread_step sys (SegClaim t n) p = Some (seg_claim t n p)"
| "thread_step sys (SegAwait j) p = seg_await j p"
| "thread_step sys (SegAcquire t n j) p = seg_acquire t n j p"
| "thread_step sys (SegCheck t n j a) p = Some (seg_check sys t n j a p)"
| "thread_step sys (SegDirect t n j a) p = Some (seg_direct sys t n j a p)"
| "thread_step sys (SegSave t n j a out) p = Some (seg_save t n j a out p)"
| "thread_step sys (SegEncode t n j a u) p = Some (seg_encode sys t n j a u p)"
| "thread_step sys (SegPublish t n j a) p = Some (seg_publish sys t n j a p)"
| "thread_step sys (SegFailed t n j a) p = Some (seg_failed t n j a p)"
| "thread_step sys (SegRelease t n j e) p = Some (seg_release t n j e p)"
| "thread_step sys (SegForget t n j) p = Some (seg_forget t n p)"

text \<open>
  What comes in from outside: \<^verbatim>\<open>Resolve\<close>, \<^verbatim>\<open>RegisterOpus\<close>, \<^verbatim>\<open>Delete\<close>, the calls of \<^verbatim>\<open>Reconcile\<close>,
  \<^verbatim>\<open>StreamInput\<close>, and requests for segments, whose threads all begin with \<^verbatim>\<open>ensureHLSSegment\<close>.
\<close>

datatype request =
    ReqResolve string "nat option"
  | ReqUpload string string string
  | ReqDelete string
  | ReqCache cache_action
  | ReqInput Track
  | ReqSegment Track int

fun serve_request :: "(string \<Rightarrow> 8 word list) \<Rightarrow> tools \<Rightarrow> request \<Rightarrow> Pipeline \<Rightarrow> progress" where
  "serve_request sha256 sys (ReqResolve u cb) p = (let (t, ths, p) = Resolve sha256 u cb p in becomes ths p)"
| "serve_request sha256 sys (ReqUpload rnd content title) p =
     becomes [] (snd (RegisterOpus sha256 sys rnd content title p))"
| "serve_request sha256 sys (ReqDelete i) p = Delete_locked i p"
| "serve_request sha256 sys (ReqCache a) p = start_action a p"
| "serve_request sha256 sys (ReqInput t) p = becomes [] (snd (Pipeline_StreamInput sys t p))"
| "serve_request sha256 sys (ReqSegment t n) p = becomes [SegEnter t n] p"

type_synonym media = "thread list \<times> Pipeline"

inductive media_step :: "(string \<Rightarrow> 8 word list) \<Rightarrow> media \<Rightarrow> notice list \<Rightarrow> media \<Rightarrow> bool"
  for sha256 where
  Thread: "thread_step sys th p = Some (new, p', ns)
    \<Longrightarrow> media_step sha256 (xs @ th # ys, p) ns (xs @ new @ ys, p')"
| Request: "serve_request sha256 sys r p = (new, p', ns)
    \<Longrightarrow> media_step sha256 (ths, p) ns (ths @ new, p')"

inductive media_reachable :: "(string \<Rightarrow> 8 word list) \<Rightarrow> media \<Rightarrow> media \<Rightarrow> bool"
  for sha256 s0 where
  Start: "media_reachable sha256 s0 s0"
| Step: "media_reachable sha256 s0 s \<Longrightarrow> media_step sha256 s ns s' \<Longrightarrow> media_reachable sha256 s0 s'"

text \<open>The server starts with no goroutine and an empty table.\<close>

definition media_start :: "string \<Rightarrow> string \<Rightarrow> Disk \<Rightarrow> media" where
  "media_start cacheDir baseURL disk = ([], New_pipeline cacheDir baseURL disk)"

subsection \<open>Frame lemmas\<close>

lemma on_disk_fields [simp]:
  "pl_cacheDir (on_disk f p) = pl_cacheDir p" "pl_baseURL (on_disk f p) = pl_baseURL p"
  "pl_tracks (on_disk f p) = pl_tracks p" "pl_streams (on_disk f p) = pl_streams p"
  "pl_directURLs (on_disk f p) = pl_directURLs p" "pl_hlsJobs (on_disk f p) = pl_hlsJobs p"
  "pl_segSem (on_disk f p) = pl_segSem p" "pl_notify (on_disk f p) = pl_notify p"
  "pl_fullJobs (on_disk f p) = pl_fullJobs p" "pl_fullDesired (on_disk f p) = pl_fullDesired p"
  "pl_ctxs (on_disk f p) = pl_ctxs p" "pl_cancels (on_disk f p) = pl_cancels p"
  "pl_streamHeap (on_disk f p) = pl_streamHeap p" "pl_nextStream (on_disk f p) = pl_nextStream p"
  "pl_jobHeap (on_disk f p) = pl_jobHeap p" "pl_nextJob (on_disk f p) = pl_nextJob p"
  "pl_cancelled (on_disk f p) = pl_cancelled p" "pl_nextCtx (on_disk f p) = pl_nextCtx p"
  "pl_crashed (on_disk f p) = pl_crashed p" "pl_disk (on_disk f p) = f (pl_disk p)"
  by (simp_all add: on_disk_def)

text \<open>The paths and addresses depend on the configuration only.\<close>

lemma mediaURL_upd [simp]:
  "mediaURL i e (p\<lparr>pl_tracks := x0\<rparr>) = mediaURL i e p"
  "mediaURL i e (p\<lparr>pl_streams := x1\<rparr>) = mediaURL i e p"
  "mediaURL i e (p\<lparr>pl_directURLs := x2\<rparr>) = mediaURL i e p"
  "mediaURL i e (p\<lparr>pl_hlsJobs := x3\<rparr>) = mediaURL i e p"
  "mediaURL i e (p\<lparr>pl_segSem := x4\<rparr>) = mediaURL i e p"
  "mediaURL i e (p\<lparr>pl_notify := x5\<rparr>) = mediaURL i e p"
  "mediaURL i e (p\<lparr>pl_fullJobs := x6\<rparr>) = mediaURL i e p"
  "mediaURL i e (p\<lparr>pl_fullDesired := x7\<rparr>) = mediaURL i e p"
  "mediaURL i e (p\<lparr>pl_ctxs := x8\<rparr>) = mediaURL i e p"
  "mediaURL i e (p\<lparr>pl_cancels := x9\<rparr>) = mediaURL i e p"
  "mediaURL i e (p\<lparr>pl_streamHeap := x10\<rparr>) = mediaURL i e p"
  "mediaURL i e (p\<lparr>pl_nextStream := x11\<rparr>) = mediaURL i e p"
  "mediaURL i e (p\<lparr>pl_jobHeap := x12\<rparr>) = mediaURL i e p"
  "mediaURL i e (p\<lparr>pl_nextJob := x13\<rparr>) = mediaURL i e p"
  "mediaURL i e (p\<lparr>pl_cancelled := x14\<rparr>) = mediaURL i e p"
  "mediaURL i e (p\<lparr>pl_nextCtx := x15\<rparr>) = mediaURL i e p"
  "mediaURL i e (p\<lparr>pl_crashed := x16\<rparr>) = mediaURL i e p"
  "mediaURL i e (p\<lparr>pl_disk := x17\<rparr>) = mediaURL i e p"
  "mediaURL i e (on_disk f p) = mediaURL i e p"
  by (simp_all add: mediaURL_def)

lemma cacheFile_upd [simp]:
  "cacheFile i e (p\<lparr>pl_tracks := x0\<rparr>) = cacheFile i e p"
  "cacheFile i e (p\<lparr>pl_streams := x1\<rparr>) = cacheFile i e p"
  "cacheFile i e (p\<lparr>pl_directURLs := x2\<rparr>) = cacheFile i e p"
  "cacheFile i e (p\<lparr>pl_hlsJobs := x3\<rparr>) = cacheFile i e p"
  "cacheFile i e (p\<lparr>pl_segSem := x4\<rparr>) = cacheFile i e p"
  "cacheFile i e (p\<lparr>pl_notify := x5\<rparr>) = cacheFile i e p"
  "cacheFile i e (p\<lparr>pl_fullJobs := x6\<rparr>) = cacheFile i e p"
  "cacheFile i e (p\<lparr>pl_fullDesired := x7\<rparr>) = cacheFile i e p"
  "cacheFile i e (p\<lparr>pl_ctxs := x8\<rparr>) = cacheFile i e p"
  "cacheFile i e (p\<lparr>pl_cancels := x9\<rparr>) = cacheFile i e p"
  "cacheFile i e (p\<lparr>pl_streamHeap := x10\<rparr>) = cacheFile i e p"
  "cacheFile i e (p\<lparr>pl_nextStream := x11\<rparr>) = cacheFile i e p"
  "cacheFile i e (p\<lparr>pl_jobHeap := x12\<rparr>) = cacheFile i e p"
  "cacheFile i e (p\<lparr>pl_nextJob := x13\<rparr>) = cacheFile i e p"
  "cacheFile i e (p\<lparr>pl_cancelled := x14\<rparr>) = cacheFile i e p"
  "cacheFile i e (p\<lparr>pl_nextCtx := x15\<rparr>) = cacheFile i e p"
  "cacheFile i e (p\<lparr>pl_crashed := x16\<rparr>) = cacheFile i e p"
  "cacheFile i e (p\<lparr>pl_disk := x17\<rparr>) = cacheFile i e p"
  "cacheFile i e (on_disk f p) = cacheFile i e p"
  by (simp_all add: cacheFile_def)

lemma fullURL_upd [simp]:
  "fullURL i (p\<lparr>pl_tracks := x0\<rparr>) = fullURL i p"
  "fullURL i (p\<lparr>pl_streams := x1\<rparr>) = fullURL i p"
  "fullURL i (p\<lparr>pl_directURLs := x2\<rparr>) = fullURL i p"
  "fullURL i (p\<lparr>pl_hlsJobs := x3\<rparr>) = fullURL i p"
  "fullURL i (p\<lparr>pl_segSem := x4\<rparr>) = fullURL i p"
  "fullURL i (p\<lparr>pl_notify := x5\<rparr>) = fullURL i p"
  "fullURL i (p\<lparr>pl_fullJobs := x6\<rparr>) = fullURL i p"
  "fullURL i (p\<lparr>pl_fullDesired := x7\<rparr>) = fullURL i p"
  "fullURL i (p\<lparr>pl_ctxs := x8\<rparr>) = fullURL i p"
  "fullURL i (p\<lparr>pl_cancels := x9\<rparr>) = fullURL i p"
  "fullURL i (p\<lparr>pl_streamHeap := x10\<rparr>) = fullURL i p"
  "fullURL i (p\<lparr>pl_nextStream := x11\<rparr>) = fullURL i p"
  "fullURL i (p\<lparr>pl_jobHeap := x12\<rparr>) = fullURL i p"
  "fullURL i (p\<lparr>pl_nextJob := x13\<rparr>) = fullURL i p"
  "fullURL i (p\<lparr>pl_cancelled := x14\<rparr>) = fullURL i p"
  "fullURL i (p\<lparr>pl_nextCtx := x15\<rparr>) = fullURL i p"
  "fullURL i (p\<lparr>pl_crashed := x16\<rparr>) = fullURL i p"
  "fullURL i (p\<lparr>pl_disk := x17\<rparr>) = fullURL i p"
  "fullURL i (on_disk f p) = fullURL i p"
  by (simp_all add: fullURL_def)

lemma fullPath_upd [simp]:
  "fullPath i (p\<lparr>pl_tracks := x0\<rparr>) = fullPath i p"
  "fullPath i (p\<lparr>pl_streams := x1\<rparr>) = fullPath i p"
  "fullPath i (p\<lparr>pl_directURLs := x2\<rparr>) = fullPath i p"
  "fullPath i (p\<lparr>pl_hlsJobs := x3\<rparr>) = fullPath i p"
  "fullPath i (p\<lparr>pl_segSem := x4\<rparr>) = fullPath i p"
  "fullPath i (p\<lparr>pl_notify := x5\<rparr>) = fullPath i p"
  "fullPath i (p\<lparr>pl_fullJobs := x6\<rparr>) = fullPath i p"
  "fullPath i (p\<lparr>pl_fullDesired := x7\<rparr>) = fullPath i p"
  "fullPath i (p\<lparr>pl_ctxs := x8\<rparr>) = fullPath i p"
  "fullPath i (p\<lparr>pl_cancels := x9\<rparr>) = fullPath i p"
  "fullPath i (p\<lparr>pl_streamHeap := x10\<rparr>) = fullPath i p"
  "fullPath i (p\<lparr>pl_nextStream := x11\<rparr>) = fullPath i p"
  "fullPath i (p\<lparr>pl_jobHeap := x12\<rparr>) = fullPath i p"
  "fullPath i (p\<lparr>pl_nextJob := x13\<rparr>) = fullPath i p"
  "fullPath i (p\<lparr>pl_cancelled := x14\<rparr>) = fullPath i p"
  "fullPath i (p\<lparr>pl_nextCtx := x15\<rparr>) = fullPath i p"
  "fullPath i (p\<lparr>pl_crashed := x16\<rparr>) = fullPath i p"
  "fullPath i (p\<lparr>pl_disk := x17\<rparr>) = fullPath i p"
  "fullPath i (on_disk f p) = fullPath i p"
  by (simp_all add: fullPath_def)

lemma hlsSegmentPath_upd [simp]:
  "hlsSegmentPath i n (p\<lparr>pl_tracks := x0\<rparr>) = hlsSegmentPath i n p"
  "hlsSegmentPath i n (p\<lparr>pl_streams := x1\<rparr>) = hlsSegmentPath i n p"
  "hlsSegmentPath i n (p\<lparr>pl_directURLs := x2\<rparr>) = hlsSegmentPath i n p"
  "hlsSegmentPath i n (p\<lparr>pl_hlsJobs := x3\<rparr>) = hlsSegmentPath i n p"
  "hlsSegmentPath i n (p\<lparr>pl_segSem := x4\<rparr>) = hlsSegmentPath i n p"
  "hlsSegmentPath i n (p\<lparr>pl_notify := x5\<rparr>) = hlsSegmentPath i n p"
  "hlsSegmentPath i n (p\<lparr>pl_fullJobs := x6\<rparr>) = hlsSegmentPath i n p"
  "hlsSegmentPath i n (p\<lparr>pl_fullDesired := x7\<rparr>) = hlsSegmentPath i n p"
  "hlsSegmentPath i n (p\<lparr>pl_ctxs := x8\<rparr>) = hlsSegmentPath i n p"
  "hlsSegmentPath i n (p\<lparr>pl_cancels := x9\<rparr>) = hlsSegmentPath i n p"
  "hlsSegmentPath i n (p\<lparr>pl_streamHeap := x10\<rparr>) = hlsSegmentPath i n p"
  "hlsSegmentPath i n (p\<lparr>pl_nextStream := x11\<rparr>) = hlsSegmentPath i n p"
  "hlsSegmentPath i n (p\<lparr>pl_jobHeap := x12\<rparr>) = hlsSegmentPath i n p"
  "hlsSegmentPath i n (p\<lparr>pl_nextJob := x13\<rparr>) = hlsSegmentPath i n p"
  "hlsSegmentPath i n (p\<lparr>pl_cancelled := x14\<rparr>) = hlsSegmentPath i n p"
  "hlsSegmentPath i n (p\<lparr>pl_nextCtx := x15\<rparr>) = hlsSegmentPath i n p"
  "hlsSegmentPath i n (p\<lparr>pl_crashed := x16\<rparr>) = hlsSegmentPath i n p"
  "hlsSegmentPath i n (p\<lparr>pl_disk := x17\<rparr>) = hlsSegmentPath i n p"
  "hlsSegmentPath i n (on_disk f p) = hlsSegmentPath i n p"
  by (simp_all add: hlsSegmentPath_def)

lemmas run_defs = run_meta_def run_stat_def run_mark_def run_fail_def transcode_open_def
  transcode_done_def transcode_close_def direct_ask_def direct_save_def save_directURL_def
  Delete_abort_def Delete_files_def update_track_def markReady_def setError_def

lemmas full_defs = ensureFull_def full_stat_def full_claim_def full_fetch_def full_forget_def
  setFullReady_def drop_full_def evictFull_def evict_drop_def emitUpdate_def downloadFullM4A_def

lemmas seg_defs = seg_enter_def seg_claim_def seg_await_def seg_acquire_def seg_check_def
  seg_direct_def seg_save_def seg_encode_def seg_publish_def seg_failed_def seg_release_def
  seg_forget_def runHLSSegmentFFmpeg_def set_job_def clearDirectURL_def save_directURL_def

lemmas request_defs = Resolve_def RegisterOpus_def store_upload_def register_upload_def new_ctx_def
  Delete_locked_def Pipeline_StreamInput_def directURLFor_def save_directURL_def

lemmas media_splits = option.splits prod.splits if_splits list.splits pipe_start.splits outcome.splits

text \<open>The configuration never changes.\<close>

lemma thread_config [frame]:
  assumes "thread_step sys th p = Some (new, p', ns)"
  shows "pl_cacheDir p' = pl_cacheDir p \<and> pl_baseURL p' = pl_baseURL p"
proof (cases th)
  case (SegSave t n j a out)
  with assms show ?thesis by (auto simp: seg_defs Let_def split: media_splits)
qed (use assms in \<open>auto simp: run_defs full_defs seg_defs Let_def split: media_splits\<close>)

lemma request_config [frame]:
  assumes "serve_request sha256 sys r p = (new, p', ns)"
  shows "pl_cacheDir p' = pl_cacheDir p \<and> pl_baseURL p' = pl_baseURL p"
proof (cases r)
  case (ReqCache a)
  with assms show ?thesis by (cases a) (auto simp: full_defs Let_def split: media_splits)
qed (use assms in \<open>auto simp: request_defs Let_def split: media_splits\<close>)

end
