(* ===== verification/Media_Inv.thy ===== *)
theory Media_Inv
  imports Media_Steps
begin

section \<open>What holds in every state of the pipeline\<close>

text \<open>
  Invariants of the table of tracks, of the contexts, of the aborted downloads, of the complete files and of the
  jobs that make segments, each kept by every step of every goroutine and by every request.
\<close>

subsection \<open>The table of tracks is well typed\<close>

text \<open>
  A track stands under its own identifier, which is that of its source. It is being resolved and
  has no address, or it is ready and has one of its own three, or resolving failed. The
  address of the complete file is announced only while that file is wanted.
\<close>

definition own_url :: "Pipeline \<Rightarrow> string \<Rightarrow> string \<Rightarrow> bool" where
  "own_url p i u \<longleftrightarrow>
     u = mediaURL i ''.opus'' p \<or> u = mediaURL i ''/index.m3u8'' p \<or> u = mediaURL i ''.m4a'' p"

definition status_typed :: "Pipeline \<Rightarrow> string \<Rightarrow> Track \<Rightarrow> bool" where
  "status_typed p i t \<longleftrightarrow>
     tr_Status t = StatusResolving \<and> tr_FileURL t = []
   \<or> tr_Status t = StatusReady \<and> own_url p i (tr_FileURL t)
   \<or> tr_Status t = StatusError \<and> (tr_FileURL t = [] \<or> own_url p i (tr_FileURL t))"

definition track_typed :: "(string \<Rightarrow> 8 word list) \<Rightarrow> Pipeline \<Rightarrow> string \<Rightarrow> Track \<Rightarrow> bool" where
  "track_typed sha256 p i t \<longleftrightarrow>
     tr_ID t = i \<and> idFor sha256 (tr_SourceURL t) = i \<and> status_typed p i t
   \<and> (tr_FileURL t = mediaURL i ''.m4a'' p \<longrightarrow> gget (pl_fullDesired p) i = Some True)"

definition table_typed :: "(string \<Rightarrow> 8 word list) \<Rightarrow> Pipeline \<Rightarrow> bool" where
  "table_typed sha256 p \<longleftrightarrow> (\<forall>i t. gget (pl_tracks p) i = Some t \<longrightarrow> track_typed sha256 p i t)"

fun thread_typed :: "Pipeline \<Rightarrow> thread \<Rightarrow> bool" where
  "thread_typed p (RunMark i cb f d) \<longleftrightarrow> f = mediaURL i ''.opus'' p \<or> f = mediaURL i ''/index.m3u8'' p"
| "thread_typed p _ \<longleftrightarrow> True"

lemma status_distinct [simp]:
  "StatusResolving \<noteq> StatusReady" "StatusReady \<noteq> StatusResolving" "StatusError \<noteq> StatusReady"
  "StatusReady \<noteq> StatusError" "StatusResolving \<noteq> StatusError" "StatusError \<noteq> StatusResolving"
  by (simp_all add: StatusResolving_def StatusReady_def StatusError_def)

lemma mediaURL_eq [simp]:
  "mediaURL i ''.opus'' p \<noteq> mediaURL i ''.m4a'' p" "mediaURL i ''/index.m3u8'' p \<noteq> mediaURL i ''.m4a'' p"
  "mediaURL i ''.m4a'' p \<noteq> mediaURL i ''.opus'' p" "mediaURL i ''.m4a'' p \<noteq> mediaURL i ''/index.m3u8'' p"
  "mediaURL i e p \<noteq> []" "[] \<noteq> mediaURL i e p"
  by (simp_all add: mediaURL_def)

lemma fullURL_eq: "fullURL i p = mediaURL i ''.m4a'' p"
  by (simp add: fullURL_def mediaURL_def)

lemma mediaURL_cong: "pl_baseURL p = pl_baseURL q \<Longrightarrow> mediaURL i e p = mediaURL i e q"
  by (simp add: mediaURL_def)

lemma idFor_upload [simp]: "idFor sha256 (uploadPrefix @ i) = i"
  by (simp add: idFor_def)

text \<open>What has to be shown of a step: its new entries, and that nothing announced becomes unwanted.\<close>

lemma status_typed_cong: "pl_baseURL p' = pl_baseURL p \<Longrightarrow> status_typed p' i t = status_typed p i t"
  using mediaURL_cong [of p' p] by (simp add: status_typed_def own_url_def)

lemma table_typedI:
  assumes ok: "table_typed sha256 p" and base: "pl_baseURL p' = pl_baseURL p"
    and "\<And>k t. gget (pl_tracks p') k = Some t \<Longrightarrow> gget (pl_tracks p) k = Some t \<or> track_typed sha256 p' k t"
    and "\<And>k t. gget (pl_tracks p') k = Some t \<Longrightarrow> gget (pl_tracks p) k = Some t
          \<Longrightarrow> tr_FileURL t = mediaURL k ''.m4a'' p \<Longrightarrow> gget (pl_fullDesired p') k = gget (pl_fullDesired p) k
            \<or> gget (pl_fullDesired p') k = Some True \<or> track_typed sha256 p' k t"
  shows "table_typed sha256 p'"
  unfolding table_typed_def
proof (intro allI impI)
  fix k t assume t: "gget (pl_tracks p') k = Some t"
  show "track_typed sha256 p' k t"
  proof (rule ccontr)
    assume n: "\<not> track_typed sha256 p' k t"
    with assms(3) [OF t] have old: "gget (pl_tracks p) k = Some t" by blast
    with ok have "track_typed sha256 p k t" by (simp add: table_typed_def)
    with n assms(4) [OF t old] show False
      using mediaURL_cong [OF base] by (auto simp: track_typed_def status_typed_cong [OF base])
  qed
qed

lemma table_typed_cong:
  assumes "pl_tracks p' = pl_tracks p" "pl_baseURL p' = pl_baseURL p" "pl_fullDesired p' = pl_fullDesired p"
  shows "table_typed sha256 p' = table_typed sha256 p"
  using assms mediaURL_cong [of p' p]
  by (simp add: table_typed_def track_typed_def status_typed_def own_url_def)

text \<open>A new entry, with the wants changed for its identifier only.\<close>

lemma table_typed_entry:
  assumes "table_typed sha256 p" "pl_tracks p' = gset i t (pl_tracks p)" "pl_baseURL p' = pl_baseURL p"
    "\<And>k. k \<noteq> i \<Longrightarrow> gget (pl_fullDesired p') k = gget (pl_fullDesired p) k" "track_typed sha256 p' i t"
  shows "table_typed sha256 p'"
  by (rule table_typedI [OF assms(1,3)]) (use assms(2,4,5) in \<open>auto split: if_splits\<close>)

lemma update_typed:
  assumes "table_typed sha256 p"
    and "\<And>t. gget (pl_tracks p) i = Some t \<Longrightarrow> track_typed sha256 p i t \<Longrightarrow> track_typed sha256 p i (fn t)"
  shows "table_typed sha256 (fst (update_track i fn cb p))"
proof (cases "gget (pl_tracks p) i")
  case (Some t)
  with assms have "track_typed sha256 p i (fn t)" by (auto simp: table_typed_def)
  then have "track_typed sha256 (p\<lparr>pl_tracks := gset i (fn t) (pl_tracks p)\<rparr>) i (fn t)"
    by (simp add: track_typed_def status_typed_def own_url_def mediaURL_def)
  with assms(1) Some show ?thesis
    by (auto simp: update_track_def intro: table_typed_entry [of sha256 p _ i "fn t"])
qed (use assms(1) in \<open>simp add: update_track_def\<close>)

lemma thread_typed_cong: "pl_baseURL p' = pl_baseURL p \<Longrightarrow> thread_typed p' th = thread_typed p th"
  using mediaURL_cong [of p' p] by (cases th) auto

lemma thread_new_typed:
  assumes "thread_step sys th p = Some (new, p', ns)"
  shows "list_all (thread_typed p') new"
proof (cases th)
  case (RunStat i u cb d)
  with assms show ?thesis by (auto simp: run_defs Let_def split: media_splits)
next
  case (RunClose i cb d ok)
  with assms show ?thesis
    by (auto simp: run_defs Let_def mediaURL_def split: media_splits)
qed (use assms in \<open>auto simp: run_defs full_defs seg_defs Let_def split: media_splits\<close>)

text \<open>The steps that write the table.\<close>

fun writes_table :: "thread \<Rightarrow> bool" where
  "writes_table (RunMeta i u cb) \<longleftrightarrow> True"
| "writes_table (RunMark i cb f d) \<longleftrightarrow> True"
| "writes_table (RunFail i cb) \<longleftrightarrow> True"
| "writes_table (FullReady i) \<longleftrightarrow> True"
| "writes_table _ \<longleftrightarrow> False"

lemma thread_tables [frame]:
  assumes "thread_step sys th p = Some (new, p', ns)" and "\<not> writes_table th"
  shows "pl_tracks p' = pl_tracks p"
  by (cases th) (use assms in \<open>auto simp: run_defs full_defs seg_defs Let_def split: media_splits\<close>)

lemma thread_desired [frame]:
  assumes "thread_step sys th p = Some (new, p', ns)"
  shows "pl_fullDesired p' = pl_fullDesired p"
  by (cases th) (use assms in \<open>auto simp: run_defs full_defs seg_defs Let_def split: media_splits\<close>)

lemma setFullReady_typed:
  assumes step: "setFullReady i p = (new, p', ns)" and ok: "table_typed sha256 p"
  shows "table_typed sha256 p'"
proof (cases "p' = p")
  case True
  with ok show ?thesis by simp
next
  case False
  with step obtain t where t: "gget (pl_tracks p) i = Some t" "gget (pl_fullDesired p) i = Some True"
    and p': "p' = p\<lparr>pl_tracks := gset i (t\<lparr>tr_FileURL := fullURL i p, tr_Status := StatusReady\<rparr>) (pl_tracks p)\<rparr>"
    by (auto simp: setFullReady_def split: option.splits if_splits)
  from t ok have "track_typed sha256 p i t" by (simp add: table_typed_def)
  with t(2) have "track_typed sha256 p' i (t\<lparr>tr_FileURL := fullURL i p, tr_Status := StatusReady\<rparr>)"
    unfolding p' by (simp add: track_typed_def status_typed_def own_url_def fullURL_eq)
  then show ?thesis
    by (rule table_typed_entry [OF ok, rotated -1]) (simp_all add: p')
qed

lemma thread_table_typed:
  assumes step: "thread_step sys th p = Some (new, p', ns)"
    and ok: "table_typed sha256 p" "thread_typed p th"
  shows "table_typed sha256 p'"
proof (cases "writes_table th")
  case False
  with thread_tables [OF step] thread_config [OF step] thread_desired [OF step] ok(1)
  show ?thesis using table_typed_cong [of p' p sha256] by simp
next
  case True
  then consider i u cb where "th = RunMeta i u cb" | i cb f d where "th = RunMark i cb f d"
    | i cb where "th = RunFail i cb" | i where "th = FullReady i"
    by (cases th) auto
  then show ?thesis
  proof cases
    case 1
    with step have "p' = p \<or> (\<exists>x. p' = fst (update_track i (\<lambda>t. t\<lparr>tr_Title := x\<rparr>) cb p))"
      by (auto simp: run_meta_def split: prod.splits if_splits) (metis fst_conv)
    with ok(1) show ?thesis by (auto intro!: update_typed simp: track_typed_def status_typed_def)
  next
    case 2
    with step have "p' = fst (markReady i f d cb p)" by (auto simp: run_mark_def)
    with ok 2 show ?thesis
      by (auto simp: markReady_def track_typed_def status_typed_def own_url_def intro!: update_typed)
  next
    case 3
    with step have "p' = fst (setError i cb p)" by (auto simp: run_fail_def)
    with ok(1) show ?thesis
      by (auto simp: setError_def track_typed_def status_typed_def intro!: update_typed)
  next
    case 4
    with step have "setFullReady i p = (new, p', ns)" by simp
    from this ok(1) show ?thesis by (rule setFullReady_typed)
  qed
qed

subsubsection \<open>Requests\<close>

lemma Resolve_typed:
  assumes ok: "table_typed sha256 p"
  shows "table_typed sha256 (snd (snd (Resolve sha256 u cb p)))"
proof (cases "gget (pl_tracks p) (idFor sha256 u)")
  case None
  show ?thesis
    by (rule table_typed_entry [OF ok, where i = "idFor sha256 u" and
          t = "\<lparr>tr_ID = idFor sha256 u, tr_SourceURL = u, tr_Status = StatusResolving,
                tr_Title = [], tr_FileURL = [], tr_DurationMs = 0\<rparr>"])
      (simp_all add: Resolve_def new_ctx_def None Let_def track_typed_def status_typed_def split: option.splits)
next
  case (Some t)
  have "table_typed sha256 (snd (snd (Resolve sha256 u cb p))) = table_typed sha256 p"
    by (rule table_typed_cong) (simp_all add: Resolve_def Some Let_def split: option.splits)
  with ok show ?thesis by simp
qed

lemma register_typed:
  assumes "table_typed sha256 p"
  shows "table_typed sha256 (register_upload i (uploaded_track sys i title p) p)"
  by (rule table_typed_entry [OF assms, where i = i and t = "uploaded_track sys i title p"])
    (simp_all add: register_upload_def new_ctx_def uploaded_track_def Let_def track_typed_def
      status_typed_def own_url_def)

lemma table_typed_disk [simp]: "table_typed sha256 (on_disk f p) = table_typed sha256 p"
  by (rule table_typed_cong) simp_all

lemma store_upload_typed:
  assumes "store_upload sys a b p = (e, p')" shows "table_typed sha256 p' = table_typed sha256 p"
  by (rule table_typed_cong) (use assms in \<open>auto simp: store_upload_def split: if_splits option.splits\<close>)

lemma RegisterOpus_typed:
  assumes "table_typed sha256 p"
  shows "table_typed sha256 (snd (RegisterOpus sha256 sys rnd content title p))"
  using assms by (auto simp: RegisterOpus_def Let_def register_typed store_upload_typed split: prod.splits option.splits)

lemma tr_FileURL_same [simp]: "t\<lparr>tr_FileURL := u\<rparr> = t \<longleftrightarrow> tr_FileURL t = u"
  by (cases t) auto

lemma Delete_typed:
  assumes ok: "table_typed sha256 p" and del: "Delete_locked i p = (new, p', ns)"
  shows "table_typed sha256 p'"
proof -
  have "pl_tracks p' = gdel i (pl_tracks p)" "pl_baseURL p' = pl_baseURL p"
    "pl_fullDesired p' = gdel i (pl_fullDesired p)"
    using del by (auto simp: Delete_locked_def Let_def split: option.splits)
  then show ?thesis
    by (intro table_typedI [OF ok]) (auto split: if_splits)
qed

lemma ensureFull_typed:
  assumes ok: "table_typed sha256 p" and "ensureFull i u p = (new, p', ns)"
  shows "table_typed sha256 p'"
  by (rule table_typedI [OF ok]) (use assms(2) in \<open>auto simp: ensureFull_def\<close>)

lemma evictFull_typed:
  assumes ok: "table_typed sha256 p" and ev: "evictFull i p = (new, p', ns)"
  shows "table_typed sha256 p'"
proof (rule table_typedI [OF ok])
  show base: "pl_baseURL p' = pl_baseURL p"
    using ev by (auto simp: evictFull_def Let_def split: option.splits if_splits)
  fix k t assume t: "gget (pl_tracks p') k = Some t"
  show "gget (pl_tracks p) k = Some t \<or> track_typed sha256 p' k t"
  proof (rule disjCI)
    assume n: "\<not> track_typed sha256 p' k t"
    show "gget (pl_tracks p) k = Some t"
    proof (rule ccontr)
      assume "gget (pl_tracks p) k \<noteq> Some t"
      with t ev obtain t0 where "k = i" "gget (pl_tracks p) i = Some t0"
        "tr_FileURL t0 = mediaURL i ''.m4a'' p" "t = t0\<lparr>tr_FileURL := mediaURL i ''/index.m3u8'' p\<rparr>"
        by (auto simp: evictFull_def Let_def fullURL_eq split: option.splits if_splits)
      moreover from this have "track_typed sha256 p i t0" using ok by (simp add: table_typed_def)
      ultimately show False
        using n mediaURL_cong [OF base] by (auto simp: track_typed_def status_typed_def own_url_def)
    qed
  qed
  assume old: "gget (pl_tracks p) k = Some t" and u: "tr_FileURL t = mediaURL k ''.m4a'' p"
  from t old u ev have "k \<noteq> i"
    by (auto simp: evictFull_def Let_def fullURL_eq split: if_splits)
  with ev show "gget (pl_fullDesired p') k = gget (pl_fullDesired p) k
      \<or> gget (pl_fullDesired p') k = Some True \<or> track_typed sha256 p' k t"
    by (auto simp: evictFull_def Let_def split: option.splits if_splits)
qed

lemma request_typed:
  assumes req: "serve_request sha256 sys r p = (new, p', ns)" and ok: "table_typed sha256 p"
  shows "table_typed sha256 p' \<and> list_all (thread_typed p') new"
proof (cases r)
  case (ReqResolve u cb)
  with req Resolve_typed [OF ok, of u cb] show ?thesis
    by (auto simp: Resolve_def Let_def split: option.splits)
next
  case (ReqUpload rnd content title)
  with req RegisterOpus_typed [OF ok] show ?thesis by auto
next
  case (ReqDelete i)
  with req Delete_typed [OF ok] show ?thesis by (auto simp: Delete_locked_def Let_def)
next
  case (ReqCache a)
  with req ensureFull_typed [OF ok] evictFull_typed [OF ok] show ?thesis
    by (cases a) (auto simp: ensureFull_def evictFull_def Let_def split: option.splits if_splits)
next
  case (ReqInput t)
  then have "table_typed sha256 p' = table_typed sha256 p"
    using req by (intro table_typed_cong) (auto simp: request_defs Let_def split: media_splits)
  with ReqInput req ok show ?thesis by auto
next
  case (ReqSegment t n)
  with req ok show ?thesis by auto
qed

end
