(* ===== verification/Media_Jobs.thy ===== *)
theory Media_Jobs
  imports Media_Inv "HOL-Library.Multiset"
begin

section \<open>Goroutines of the pipeline: exclusion, no deadlock, termination\<close>

text \<open>
  The table of segment jobs is exactly the list of goroutines that own one, and the semaphore
  counts those of them that run \<^verbatim>\<open>ffmpeg\<close>. From this follow mutual exclusion per segment, the
  bound on parallel programs, that no channel is closed twice, and that some goroutine can always
  go on. A weight that every step decreases shows that they all come to an end.
\<close>

subsection \<open>Owners of jobs and holders of the semaphore\<close>

fun owner :: "thread \<Rightarrow> (string \<times> nat) option" where
  "owner (SegAcquire t n j) = Some (job_key t n, j)"
| "owner (SegCheck t n j a) = Some (job_key t n, j)"
| "owner (SegDirect t n j a) = Some (job_key t n, j)"
| "owner (SegSave t n j a out) = Some (job_key t n, j)"
| "owner (SegEncode t n j a u) = Some (job_key t n, j)"
| "owner (SegPublish t n j a) = Some (job_key t n, j)"
| "owner (SegFailed t n j a) = Some (job_key t n, j)"
| "owner (SegRelease t n j e) = Some (job_key t n, j)"
| "owner (SegForget t n j) = Some (job_key t n, j)"
| "owner _ = None"

fun holds :: "thread \<Rightarrow> bool" where
  "holds (SegCheck t n j a) = True"
| "holds (SegDirect t n j a) = True"
| "holds (SegSave t n j a out) = True"
| "holds (SegEncode t n j a u) = True"
| "holds (SegPublish t n j a) = True"
| "holds (SegFailed t n j a) = True"
| "holds (SegRelease t n j e) = True"
| "holds _ = False"

text \<open>The job a goroutine still has to finish, and the one it waits for.\<close>

fun working :: "thread \<Rightarrow> nat option" where
  "working (SegAcquire t n j) = Some j"
| "working (SegForget t n j) = None"
| "working th = map_option snd (owner th)"

fun awaits :: "thread \<Rightarrow> nat option" where
  "awaits (SegAwait j) = Some j"
| "awaits _ = None"

definition owners :: "thread list \<Rightarrow> (string \<times> nat) list" where
  "owners ths = List.map_filter owner ths"

definition jobs_match :: "thread list \<Rightarrow> Pipeline \<Rightarrow> bool" where
  "jobs_match ths p \<longleftrightarrow>
     gmap_ok (pl_hlsJobs p) \<and> mset (owners ths) = mset (pl_hlsJobs p)
   \<and> distinct (List.map snd (pl_hlsJobs p)) \<and> (\<forall>j \<in> snd ` set (pl_hlsJobs p). j < pl_nextJob p)"

definition sem_match :: "thread list \<Rightarrow> Pipeline \<Rightarrow> bool" where
  "sem_match ths p \<longleftrightarrow> pl_segSem p = length (filter holds ths) \<and> pl_segSem p \<le> hlsSegConcurrency"

definition job_state :: "thread list \<Rightarrow> Pipeline \<Rightarrow> nat \<Rightarrow> bool" where
  "job_state ths p j \<longleftrightarrow>
     (\<exists>job. gget (pl_jobHeap p) j = Some job \<and> job_done job = (Some j \<notin> working ` set ths))"

definition jobs_ok :: "thread list \<Rightarrow> Pipeline \<Rightarrow> bool" where
  "jobs_ok ths p \<longleftrightarrow>
     jobs_match ths p \<and> sem_match ths p \<and> (\<forall>j < pl_nextJob p. job_state ths p j)
   \<and> (\<forall>th \<in> set ths. \<forall>j. awaits th = Some j \<longrightarrow> j < pl_nextJob p)"

lemma owners_simps [simp]:
  "owners [] = []" "owners (xs @ ys) = owners xs @ owners ys"
  "owners (th # ys) = (case owner th of None \<Rightarrow> owners ys | Some kj \<Rightarrow> kj # owners ys)"
  by (simp_all add: owners_def List.map_filter_def split: option.splits)

lemma working_owner: "working th = Some j \<Longrightarrow> \<exists>k. owner th = Some (k, j)"
  by (cases th) auto

lemma owners_set: "set (owners ths) = {kj. \<exists>th \<in> set ths. owner th = Some kj}"
  by (auto simp: owners_def List.map_filter_def) force

lemma mset_gset_fresh: "gget m k = None \<Longrightarrow> mset (gset k v m) = add_mset (k, v) (mset m)"
  by (induction m) (auto split: if_splits)

lemma gset_fresh: "gget m k = None \<Longrightarrow> gset k v m = m @ [(k, v)]"
  by (induction m) (auto split: if_splits)

lemma mset_gdel: "gmap_ok m \<Longrightarrow> gget m k = Some v \<Longrightarrow> add_mset (k, v) (mset (gdel k m)) = mset m"
proof (induction m)
  case (Cons a m)
  then show ?case
    by (auto simp: gmap_ok_def delete_id add_mset_commute split: if_splits)
qed simp

text \<open>Steps of goroutines that have nothing to do with segments leave all this alone.\<close>

definition seg_frame :: "Pipeline \<Rightarrow> Pipeline \<Rightarrow> bool" where
  "seg_frame p p' \<longleftrightarrow> pl_hlsJobs p' = pl_hlsJobs p \<and> pl_segSem p' = pl_segSem p
     \<and> pl_jobHeap p' = pl_jobHeap p \<and> pl_nextJob p' = pl_nextJob p"

lemma request_seg_frame:
  assumes "serve_request sha256 sys r p = (new, p', ns)"
  shows "seg_frame p p'"
proof (cases r)
  case (ReqCache a)
  with assms show ?thesis by (cases a) (auto simp: seg_frame_def full_defs Let_def split: media_splits)
qed (use assms in \<open>auto simp: seg_frame_def request_defs Let_def split: media_splits\<close>)

lemma request_new:
  assumes "serve_request sha256 sys r p = (new, p', ns)"
  shows "list_all (\<lambda>th. owner th = None \<and> \<not> holds th \<and> awaits th = None \<and> working th = None) new"
proof (cases r)
  case (ReqCache a)
  with assms show ?thesis by (cases a) (auto simp: full_defs Let_def split: media_splits)
qed (use assms in \<open>auto simp: request_defs Let_def split: media_splits\<close>)

text \<open>
  A step of a goroutine that changes none of these fields and goes on with the same job keeps the
  invariant.
\<close>

fun job_event :: "thread \<Rightarrow> bool" where
  "job_event (SegClaim t n) = True"
| "job_event (SegAcquire t n j) = True"
| "job_event (SegRelease t n j e) = True"
| "job_event (SegForget t n j) = True"
| "job_event _ = False"

lemma thread_seg_frame:
  assumes "thread_step sys th p = Some (new, p', ns)" and "\<not> job_event th"
  shows "seg_frame p p'"
  by (cases th) (use assms in \<open>auto simp: seg_frame_def run_defs full_defs seg_defs Let_def split: media_splits\<close>)

lemma thread_same_job:
  assumes "thread_step sys th p = Some (new, p', ns)" and "\<not> job_event th"
  shows "owners new = owners [th] \<and> length (filter holds new) = length (filter holds [th])
    \<and> Some -` working ` set new = Some -` working ` {th} \<and> (\<forall>t \<in> set new. awaits t = None)"
  by (cases th) (use assms in \<open>auto simp: run_defs full_defs seg_defs Let_def split: media_splits\<close>)

lemma jobs_match_cong:
  assumes "seg_frame p p'" "mset (owners ths') = mset (owners ths)"
  shows "jobs_match ths' p' = jobs_match ths p"
  using assms by (simp add: jobs_match_def seg_frame_def)

lemma job_state_cong:
  assumes "gget (pl_jobHeap p') j = gget (pl_jobHeap p) j"
    and "Some j \<in> working ` set ths' \<longleftrightarrow> Some j \<in> working ` set ths"
  shows "job_state ths' p' j = job_state ths p j"
  using assms by (simp add: job_state_def)

lemma jobs_ok_same:
  assumes ok: "jobs_ok (xs @ th # ys) p" and fr: "seg_frame p p'"
    and new: "owners new = owners [th]" "length (filter holds new) = length (filter holds [th])"
      "Some -` working ` set new = Some -` working ` {th}" "\<forall>t \<in> set new. awaits t = None"
  shows "jobs_ok (xs @ new @ ys) p'"
proof -
  have w: "Some j \<in> working ` set (xs @ new @ ys) \<longleftrightarrow> Some j \<in> working ` set (xs @ th # ys)" for j
  proof -
    have "j \<in> Some -` working ` set new \<longleftrightarrow> j \<in> Some -` working ` {th}" using new(3) by simp
    then have "Some j \<in> working ` set new \<longleftrightarrow> working th = Some j" by auto
    then show ?thesis by (auto simp: image_Un)
  qed
  have "jobs_match (xs @ new @ ys) p' = jobs_match (xs @ th # ys) p"
    using new(1) by (intro jobs_match_cong [OF fr]) (simp split: option.splits)
  moreover have "sem_match (xs @ new @ ys) p' = sem_match (xs @ th # ys) p"
    using fr new(2) by (simp add: sem_match_def seg_frame_def split: if_splits)
  moreover have "job_state (xs @ new @ ys) p' j = job_state (xs @ th # ys) p j" for j
    using fr by (intro job_state_cong w) (simp add: seg_frame_def)
  ultimately show ?thesis
    using ok fr new(4) by (auto simp: jobs_ok_def seg_frame_def)
qed

text \<open>What the invariant says of one owner among the others.\<close>

lemma owner_unique:
  assumes "jobs_match (xs @ th # ys) p" and "owner th = Some (k, j)"
  shows "gget (pl_hlsJobs p) k = Some j" "j < pl_nextJob p"
    "t \<in> set xs \<union> set ys \<Longrightarrow> owner t = Some (k', j') \<Longrightarrow> k' \<noteq> k \<and> j' \<noteq> j"
proof -
  have m: "mset (owners (xs @ th # ys)) = mset (pl_hlsJobs p)" "gmap_ok (pl_hlsJobs p)"
    and d: "distinct (List.map snd (pl_hlsJobs p))"
    using assms(1) by (auto simp: jobs_match_def)
  from m(1) have s: "set (owners (xs @ th # ys)) = set (pl_hlsJobs p)" by (rule mset_eq_setD)
  with assms(2) have kj: "(k, j) \<in> set (pl_hlsJobs p)" by auto
  with m(2) show "gget (pl_hlsJobs p) k = Some j" by (simp add: gget_in_set)
  from kj assms(1) show "j < pl_nextJob p" by (auto simp: jobs_match_def)
  have e: "distinct (List.map f (owners (xs @ th # ys))) \<longleftrightarrow> distinct (List.map f (pl_hlsJobs p))"
    for f :: "string \<times> nat \<Rightarrow> 'z"
    by (rule mset_eq_imp_distinct_iff) (simp only: mset_map m(1))
  have "distinct (List.map fst (owners (xs @ th # ys)))" "distinct (List.map snd (owners (xs @ th # ys)))"
    using m(2) d by (simp_all only: e gmap_ok_def)
  moreover assume "t \<in> set xs \<union> set ys" "owner t = Some (k', j')"
  then have "(k', j') \<in> set (owners xs) \<union> set (owners ys)" by (auto simp: owners_set)
  ultimately show "k' \<noteq> k \<and> j' \<noteq> j"
    using assms(2) by (auto simp: image_iff)
qed

lemma others_not_working:
  assumes "jobs_match (xs @ th # ys) p" and "owner th = Some (k, j)" and "t \<in> set xs \<union> set ys"
  shows "working t \<noteq> Some j"
proof
  assume "working t = Some j"
  then obtain k' where "owner t = Some (k', j)" using working_owner by blast
  with owner_unique(3) [OF assms] show False by blast
qed

lemma claim_keeps:
  assumes ok: "jobs_ok (xs @ SegClaim t n # ys) p" and step: "seg_claim t n p = (new, p', ns)"
  shows "jobs_ok (xs @ new @ ys) p'"
proof (cases "gget (pl_hlsJobs p) (job_key t n)")
  case (Some j)
  then have "(job_key t n, j) \<in> set (pl_hlsJobs p)" by (rule map_of_SomeD)
  with ok have "j < pl_nextJob p" by (force simp: jobs_ok_def jobs_match_def)
  with Some step ok show ?thesis
    by (auto simp: seg_claim_def jobs_ok_def jobs_match_def sem_match_def job_state_def image_iff)
next
  case None
  let ?j = "pl_nextJob p"
  have new: "new = [SegAcquire t n ?j]"
    and p': "pl_hlsJobs p' = pl_hlsJobs p @ [(job_key t n, ?j)]" "pl_segSem p' = pl_segSem p"
      "pl_jobHeap p' = gset ?j \<lparr>job_done = False, job_err = False\<rparr> (pl_jobHeap p)" "pl_nextJob p' = Suc ?j"
    using None step by (auto simp: seg_claim_def set_job_def Let_def gset_fresh)
  have m: "jobs_match (xs @ new @ ys) p'"
    using ok None by (force simp: new p' jobs_ok_def jobs_match_def gmap_ok_def gget_None)
  have w: "Some j \<in> working ` set (xs @ new @ ys) \<longleftrightarrow> Some j \<in> working ` set (xs @ SegClaim t n # ys) \<or> j = ?j" for j
    by (auto simp: new image_iff)
  have "job_state (xs @ new @ ys) p' j" if "j < Suc ?j" for j
  proof (cases "j = ?j")
    case True
    then show ?thesis by (simp add: job_state_def p' new)
  next
    case False
    with that ok have "job_state (xs @ SegClaim t n # ys) p j" by (simp add: jobs_ok_def)
    with False w [of j] show ?thesis by (simp add: job_state_def p')
  qed
  with ok m show ?thesis
    by (auto simp: jobs_ok_def sem_match_def p' new less_Suc_eq)
qed

lemma acquire_keeps:
  assumes ok: "jobs_ok (xs @ SegAcquire t n j # ys) p" and step: "seg_acquire t n j p = Some (new, p', ns)"
  shows "jobs_ok (xs @ new @ ys) p'"
proof -
  let ?ths = "xs @ SegAcquire t n j # ys"
  have new: "new = [SegCheck t n j 0]" and sem: "pl_segSem p < hlsSegConcurrency"
    and p': "pl_hlsJobs p' = pl_hlsJobs p" "pl_segSem p' = Suc (pl_segSem p)"
      "pl_jobHeap p' = pl_jobHeap p" "pl_nextJob p' = pl_nextJob p"
    using step by (auto simp: seg_acquire_def split: if_splits)
  have "job_state (xs @ new @ ys) p' i = job_state ?ths p i" for i
    by (rule job_state_cong) (auto simp: new p' image_iff)
  moreover have "jobs_match (xs @ new @ ys) p' = jobs_match ?ths p"
    by (simp add: jobs_match_def new p')
  ultimately show ?thesis
    using ok sem by (simp add: jobs_ok_def sem_match_def new p')
qed

lemma forget_keeps:
  assumes ok: "jobs_ok (xs @ SegForget t n j # ys) p" and step: "seg_forget t n p = (new, p', ns)"
  shows "jobs_ok (xs @ new @ ys) p'"
proof -
  from ok have m: "jobs_match (xs @ SegForget t n j # ys) p" by (simp add: jobs_ok_def)
  from owner_unique(1) [OF m] have g: "gget (pl_hlsJobs p) (job_key t n) = Some j" by simp
  have new: "new = []" and p': "pl_hlsJobs p' = gdel (job_key t n) (pl_hlsJobs p)"
      "pl_segSem p' = pl_segSem p" "pl_jobHeap p' = pl_jobHeap p" "pl_nextJob p' = pl_nextJob p"
    using step by (auto simp: seg_forget_def)
  have sub: "set (gdel (job_key t n) (pl_hlsJobs p)) \<subseteq> set (pl_hlsJobs p)"
    by (auto simp: AList.delete_eq)
  have d: "distinct (List.map snd (gdel (job_key t n) (pl_hlsJobs p)))"
    using m by (auto simp: jobs_match_def AList.delete_eq distinct_map_filter)
  have "mset (owners (xs @ ys)) = mset (gdel (job_key t n) (pl_hlsJobs p))"
    using m mset_gdel [OF _ g] by (simp add: jobs_match_def) (metis add_mset_add_mset_same_iff)
  with m sub d have "jobs_match (xs @ new @ ys) p'"
    by (auto simp: jobs_match_def new p')
  moreover have "job_state (xs @ new @ ys) p' i = job_state (xs @ SegForget t n j # ys) p i" for i
    by (rule job_state_cong) (auto simp: new p' image_iff)
  ultimately show ?thesis using ok by (auto simp: jobs_ok_def sem_match_def new p')
qed

lemma release_keeps:
  assumes ok: "jobs_ok (xs @ SegRelease t n j e # ys) p" and step: "seg_release t n j e p = (new, p', ns)"
  shows "jobs_ok (xs @ new @ ys) p' \<and> pl_crashed p' = pl_crashed p"
proof -
  let ?ths = "xs @ SegRelease t n j e # ys"
  from ok have m: "jobs_match ?ths p" by (simp add: jobs_ok_def)
  note u = owner_unique(2) [OF m, of "job_key t n" j] others_not_working [OF m, of "job_key t n" j]
  have "job_state ?ths p j" using ok u(1) by (simp add: jobs_ok_def)
  then obtain job where job: "gget (pl_jobHeap p) j = Some job" "\<not> job_done job"
    by (auto simp: job_state_def)
  have new: "new = [SegForget t n j]"
    and p': "pl_hlsJobs p' = pl_hlsJobs p" "pl_segSem p' = pl_segSem p - 1" "pl_nextJob p' = pl_nextJob p"
      "pl_jobHeap p' = gset j \<lparr>job_done = True, job_err = e\<rparr> (pl_jobHeap p)" "pl_crashed p' = pl_crashed p"
    using step job by (auto simp: seg_release_def set_job_def Let_def)
  have w: "Some i \<in> working ` set (xs @ new @ ys) \<longleftrightarrow> Some i \<in> working ` set ?ths \<and> i \<noteq> j" for i
    using u(2) by (auto simp: new image_iff) (metis UnI1 UnI2)+
  have "job_state (xs @ new @ ys) p' i" if "i < pl_nextJob p" for i
  proof (cases "i = j")
    case True
    then show ?thesis using w [of j] by (simp add: job_state_def p')
  next
    case False
    with that ok have "job_state ?ths p i" by (simp add: jobs_ok_def)
    with False w [of i] show ?thesis by (simp add: job_state_def p')
  qed
  with ok m show ?thesis
    by (auto simp: jobs_ok_def jobs_match_def sem_match_def new p')
qed

lemma thread_jobs_ok:
  assumes ok: "jobs_ok (xs @ th # ys) p" and step: "thread_step sys th p = Some (new, p', ns)"
  shows "jobs_ok (xs @ new @ ys) p'"
proof (cases "job_event th")
  case False
  with thread_same_job [OF step] show ?thesis
    by (intro jobs_ok_same [OF ok thread_seg_frame [OF step]]) auto
next
  case True
  then show ?thesis
    using ok step claim_keeps acquire_keeps release_keeps forget_keeps by (cases th) auto
qed

lemma request_jobs_ok:
  assumes ok: "jobs_ok ths p" and req: "serve_request sha256 sys r p = (new, p', ns)"
  shows "jobs_ok (ths @ new) p'"
proof -
  note fr = request_seg_frame [OF req] and nw = request_new [OF req]
  have "owners new = []" using nw by (induction new) auto
  moreover have "filter holds new = []" using nw by (auto simp: filter_empty_conv list_all_iff)
  moreover have "Some j \<in> working ` set (ths @ new) \<longleftrightarrow> Some j \<in> working ` set ths" for j
    using nw by (force simp: list_all_iff)
  ultimately show ?thesis
    using ok fr nw by (auto simp: jobs_ok_def jobs_match_def sem_match_def job_state_def seg_frame_def list_all_iff)
qed

end
