(* ===== verification/Media_Reach.thy ===== *)
theory Media_Reach
  imports Media_Jobs
begin

section \<open>The invariant of the pipeline\<close>

text \<open>
  Contexts and streams, and the invariants of \<open>Media_Inv\<close> and \<open>Media_Jobs\<close> together: they hold in
  every reachable state.
\<close>

subsection \<open>Contexts and streams\<close>

text \<open>
  Every track of the table has a context that is not cancelled, every context that was made
  belongs to a track or is cancelled, and nothing has panicked.
\<close>

definition ctx_ok :: "Pipeline \<Rightarrow> bool" where
  "ctx_ok p \<longleftrightarrow>
     (\<forall>i. gget (pl_tracks p) i = None \<longleftrightarrow> gget (pl_ctxs p) i = None)
   \<and> (\<forall>i. gget (pl_cancels p) i = gget (pl_ctxs p) i)
   \<and> (\<forall>i c. gget (pl_ctxs p) i = Some c \<longrightarrow> c < pl_nextCtx p \<and> c \<notin> set (pl_cancelled p))
   \<and> (\<forall>i j c. gget (pl_ctxs p) i = Some c \<longrightarrow> gget (pl_ctxs p) j = Some c \<longrightarrow> i = j)
   \<and> (\<forall>c < pl_nextCtx p. c \<in> set (pl_cancelled p) \<or> (\<exists>i. gget (pl_ctxs p) i = Some c))
   \<and> (\<forall>c \<in> set (pl_cancelled p). c < pl_nextCtx p)"

definition streams_ok :: "Pipeline \<Rightarrow> bool" where
  "streams_ok p \<longleftrightarrow>
     (\<forall>s ms. gget (pl_streamHeap p) s = Some ms \<longrightarrow> ms_chClosed ms = ms_aborted ms) \<and> \<not> pl_crashed p"

definition ctx_frame :: "Pipeline \<Rightarrow> Pipeline \<Rightarrow> bool" where
  "ctx_frame p p' \<longleftrightarrow> (\<forall>i. gget (pl_tracks p') i = None \<longleftrightarrow> gget (pl_tracks p) i = None)
     \<and> pl_ctxs p' = pl_ctxs p \<and> pl_cancels p' = pl_cancels p \<and> pl_nextCtx p' = pl_nextCtx p
     \<and> pl_cancelled p' = pl_cancelled p"

lemma ctx_frame_ok: "ctx_frame p p' \<Longrightarrow> ctx_ok p \<Longrightarrow> ctx_ok p'"
  by (simp add: ctx_frame_def ctx_ok_def)

lemma thread_ctx_frame:
  assumes "thread_step sys th p = Some (new, p', ns)"
  shows "ctx_frame p p'"
  by (cases th) (use assms in \<open>auto simp: ctx_frame_def run_defs full_defs seg_defs Let_def split: media_splits\<close>)

lemma new_ctx_ok:
  assumes ok: "ctx_ok p" and i: "gget (pl_ctxs p) i = None"
  shows "ctx_ok (new_ctx i (p\<lparr>pl_tracks := gset i t (pl_tracks p)\<rparr>))"
  using assms by (auto simp: ctx_ok_def new_ctx_def less_Suc_eq) (metis option.distinct(1))

lemma Delete_ctx_ok:
  assumes ok: "ctx_ok p" and del: "Delete_locked i p = (new, p', ns)"
  shows "ctx_ok p'"
proof -
  have p': "pl_tracks p' = gdel i (pl_tracks p)" "pl_ctxs p' = gdel i (pl_ctxs p)"
    "pl_cancels p' = gdel i (pl_cancels p)" "pl_nextCtx p' = pl_nextCtx p"
    "pl_cancelled p' = (case gget (pl_ctxs p) i of None \<Rightarrow> [] | Some c \<Rightarrow> [c]) @ pl_cancelled p"
    using del ok by (auto simp: Delete_locked_def Let_def ctx_ok_def split: option.splits)
  show ?thesis
  proof (cases "gget (pl_ctxs p) i")
    case None
    with ok show ?thesis by (auto simp: ctx_ok_def p') (metis option.distinct(1))
  next
    case (Some c)
    have inj: "gget (pl_ctxs p) k = Some c \<Longrightarrow> k = i" for k using ok Some unfolding ctx_ok_def by blast
    have owned: "d < pl_nextCtx p \<Longrightarrow> d \<notin> set (pl_cancelled p) \<Longrightarrow> \<exists>k. gget (pl_ctxs p) k = Some d" for d
      using ok unfolding ctx_ok_def by blast
    have others: "\<exists>k. k \<noteq> i \<and> gget (pl_ctxs p) k = Some d"
      if "d < pl_nextCtx p" "d \<noteq> c" "d \<notin> set (pl_cancelled p)" for d
    proof -
      from owned that(1,3) obtain k where "gget (pl_ctxs p) k = Some d" by blast
      with Some that(2) show ?thesis by (cases "k = i") auto
    qed
    have now: "pl_cancelled p' = c # pl_cancelled p" "c < pl_nextCtx p"
      using p'(5) Some ok by (auto simp: ctx_ok_def)
    note a = ok [unfolded ctx_ok_def]
    have "\<forall>j. gget (gdel i (pl_tracks p)) j = None \<longleftrightarrow> gget (gdel i (pl_ctxs p)) j = None"
      "\<forall>j. gget (gdel i (pl_cancels p)) j = gget (gdel i (pl_ctxs p)) j"
      using a by simp_all
    moreover have "\<forall>j d. gget (gdel i (pl_ctxs p)) j = Some d
        \<longrightarrow> d < pl_nextCtx p \<and> d \<notin> set (c # pl_cancelled p)"
      using a inj by (metis gget_gdel option.distinct(1) set_ConsD)
    moreover have "\<forall>j k d. gget (gdel i (pl_ctxs p)) j = Some d
        \<longrightarrow> gget (gdel i (pl_ctxs p)) k = Some d \<longrightarrow> j = k"
      using a by (metis gget_gdel option.distinct(1))
    moreover have "\<forall>d < pl_nextCtx p. d \<in> set (c # pl_cancelled p)
        \<or> (\<exists>k. gget (gdel i (pl_ctxs p)) k = Some d)"
      using others by (metis gget_gdel list.set_intros)
    moreover have "\<forall>d \<in> set (c # pl_cancelled p). d < pl_nextCtx p"
      using a now(2) by simp
    ultimately show ?thesis unfolding ctx_ok_def p'(1-4) now(1) by blast
  qed
qed

lemma on_disk_on_disk [simp]: "on_disk f (on_disk g p) = on_disk (f \<circ> g) p"
  by (simp add: on_disk_def)

lemma store_upload_disk:
  assumes "store_upload sys a b p = (e, p')" shows "\<exists>f. p' = on_disk f p"
proof -
  have "p' = on_disk (\<lambda>_. pl_disk p') p"
    using assms by (auto simp: store_upload_def on_disk_def split: if_splits option.splits)
  then show ?thesis by blast
qed

lemma RegisterOpus_cases:
  assumes "RegisterOpus sha256 sys rnd content title p = (r, p')"
  obtains f where "p' = on_disk f p"
  | f g i t where "p' = on_disk g (register_upload i t (on_disk f p))" "r = Inr t" "tr_ID t = i"
proof -
  define tmp where "tmp = path_Join [pl_cacheDir p, ''upload-'' @ rnd @ ''.tmp'']"
  define q where "q = on_disk (WriteFile tmp (int (length content))) p"
  define i where "i = take 16 (EncodeToString (sha256 content))"
  obtain e q' where st: "store_upload sys tmp (cacheFile i ''.opus'' q) q = (e, q')" by fastforce
  from store_upload_disk [OF st] obtain f where q': "q' = on_disk f q" by blast
  have "p' = p \<or> p' = on_disk (Remove tmp) q \<or> p' = on_disk (Remove tmp) q'
      \<or> p' = on_disk (Remove tmp) (register_upload i (uploaded_track sys i title q') q')
        \<and> r = Inr (uploaded_track sys i title q')"
    using assms st unfolding RegisterOpus_def Let_def tmp_def [symmetric] q_def [symmetric] i_def [symmetric]
    by (auto split: if_splits option.splits)
  then consider "p' = on_disk id p" | "p' = on_disk (Remove tmp) q" | "p' = on_disk (Remove tmp) q'"
    | "p' = on_disk (Remove tmp) (register_upload i (uploaded_track sys i title q') q')"
      "r = Inr (uploaded_track sys i title q')"
    by (auto simp: on_disk_def)
  then show thesis
  proof cases
    case 4
    from 4(1) show thesis unfolding q' q_def on_disk_on_disk
      by (rule that(2)) (use 4(2) in \<open>simp_all add: q' q_def uploaded_track_def\<close>)
  qed (simp_all add: q' q_def, (rule that(1), assumption)+)
qed

lemma ctx_frame_disk: "ctx_frame p (on_disk f p)"
  by (simp add: ctx_frame_def)

lemma register_ctx_ok:
  assumes ok: "ctx_ok p" shows "ctx_ok (register_upload i t p)"
proof (cases "gget (pl_cancels p) i")
  case None
  with ok have "gget (pl_ctxs p) i = None" by (simp add: ctx_ok_def)
  with None new_ctx_ok [OF ok this, of t] show ?thesis by (simp add: register_upload_def Let_def)
next
  case (Some c)
  with ok have "ctx_frame p (register_upload i t p)"
    by (auto simp: register_upload_def ctx_frame_def ctx_ok_def)
  from this ok show ?thesis by (rule ctx_frame_ok)
qed

lemma request_ctx_ok:
  assumes req: "serve_request sha256 sys r p = (new, p', ns)" and ok: "ctx_ok p"
  shows "ctx_ok p'"
proof (cases r)
  case (ReqResolve u cb)
  let ?q = "case cb of None \<Rightarrow> p | Some room \<Rightarrow> p\<lparr>pl_notify := gset (idFor sha256 u) room (pl_notify p)\<rparr>"
  have fr: "ctx_frame p ?q" by (auto simp: ctx_frame_def split: option.splits)
  show ?thesis
  proof (cases "gget (pl_tracks p) (idFor sha256 u)")
    case None
    with fr ok have "gget (pl_ctxs ?q) (idFor sha256 u) = None" by (auto simp: ctx_frame_def ctx_ok_def)
    with None req ReqResolve new_ctx_ok [OF ctx_frame_ok [OF fr ok] this] show ?thesis
      by (auto simp: Resolve_def Let_def split: option.splits)
  next
    case (Some t)
    with req ReqResolve ctx_frame_ok [OF fr ok] show ?thesis by (auto simp: Resolve_def Let_def split: option.splits)
  qed
next
  case (ReqUpload rnd content title)
  then obtain r where "RegisterOpus sha256 sys rnd content title p = (r, p')"
    using req by (cases "RegisterOpus sha256 sys rnd content title p") auto
  then show ?thesis
    by (rule RegisterOpus_cases) (auto intro!: ctx_frame_ok [OF ctx_frame_disk] register_ctx_ok ok)
next
  case (ReqDelete i)
  with req Delete_ctx_ok [OF ok] show ?thesis by auto
next
  case (ReqCache a)
  with req have "ctx_frame p p'"
    by (cases a) (auto simp: ctx_frame_def ensureFull_def evictFull_def Let_def split: option.splits if_splits)
  from this ok show ?thesis by (rule ctx_frame_ok)
next
  case (ReqInput t)
  with req have "ctx_frame p p'" by (auto simp: ctx_frame_def request_defs Let_def split: media_splits)
  from this ok show ?thesis by (rule ctx_frame_ok)
next
  case (ReqSegment t n)
  with req ok show ?thesis by auto
qed

lemma request_streams_ok:
  assumes "serve_request sha256 sys r p = (new, p', ns)" and "streams_ok p"
  shows "streams_ok p'"
proof (cases r)
  case (ReqCache a)
  with assms show ?thesis by (cases a) (auto simp: streams_ok_def full_defs Let_def split: media_splits)
qed (use assms in \<open>auto simp: streams_ok_def request_defs Let_def split: media_splits\<close>)

definition stream_frame :: "Pipeline \<Rightarrow> Pipeline \<Rightarrow> bool" where
  "stream_frame p p' \<longleftrightarrow> pl_streamHeap p' = pl_streamHeap p \<and> pl_crashed p' = pl_crashed p"

lemma thread_streams_ok:
  assumes step: "thread_step sys th p = Some (new, p', ns)" and ok: "streams_ok p"
    and jobs: "jobs_ok (xs @ th # ys) p"
  shows "streams_ok p'"
proof -
  consider t n j e where "th = SegRelease t n j e" | i st where "th = DeleteAbort i st"
    | i u cb d where "th = RunOpen i u cb d" | "stream_frame p p'"
  proof (cases th)
  qed (use step that in \<open>auto simp: stream_frame_def run_defs full_defs seg_defs Let_def split: media_splits\<close>)
  then show ?thesis
  proof cases
    case 1
    with step jobs release_keeps [of xs t n j e ys p] have "pl_crashed p' = pl_crashed p" by simp
    moreover have "pl_streamHeap p' = pl_streamHeap p"
      using 1 step by (auto simp: seg_release_def set_job_def Let_def split: option.splits if_splits)
    ultimately show ?thesis using ok by (simp add: streams_ok_def)
  next
    case 2
    with step ok show ?thesis
      by (auto simp: streams_ok_def Delete_abort_def abort_stream_def Let_def split: option.splits outcome.splits if_splits)
  next
    case 3
    with step ok show ?thesis
      by (auto simp: streams_ok_def transcode_open_def newMediaStream_def Let_def
          split: pipe_start.splits if_splits)
  next
    case 4
    with ok show ?thesis by (simp add: streams_ok_def stream_frame_def)
  qed
qed

subsection \<open>Every reachable state\<close>

definition media_ok :: "(string \<Rightarrow> 8 word list) \<Rightarrow> media \<Rightarrow> bool" where
  "media_ok sha256 s \<longleftrightarrow>
     table_typed sha256 (snd s) \<and> list_all (thread_typed (snd s)) (fst s)
   \<and> ctx_ok (snd s) \<and> streams_ok (snd s) \<and> jobs_ok (fst s) (snd s)"

lemma media_ok_start: "media_ok sha256 (media_start cacheDir baseURL disk)"
  by (auto simp: media_ok_def media_start_def New_pipeline_def table_typed_def ctx_ok_def streams_ok_def
      jobs_ok_def jobs_match_def sem_match_def)

lemma threads_typed_base:
  "pl_baseURL p' = pl_baseURL p \<Longrightarrow> list_all (thread_typed p) ths \<Longrightarrow> list_all (thread_typed p') ths"
  by (auto simp: list_all_iff thread_typed_cong [of p' p])

lemma media_ok_step:
  assumes "media_step sha256 s ns s'" and "media_ok sha256 s"
  shows "media_ok sha256 s'"
  using assms(1)
proof cases
  case (Thread sys th p new p' xs ys)
  note step = Thread(3)
  have ok: "table_typed sha256 p" "thread_typed p th" "list_all (thread_typed p) (xs @ ys)"
    "ctx_ok p" "streams_ok p" "jobs_ok (xs @ th # ys) p"
    using assms(2) Thread by (auto simp: media_ok_def)
  then show ?thesis
    using thread_table_typed [OF step] thread_new_typed [OF step] thread_config [OF step]
      threads_typed_base [of p' p "xs @ ys"] ctx_frame_ok [OF thread_ctx_frame [OF step]]
      thread_streams_ok [OF step] thread_jobs_ok [OF _ step] Thread(2)
    by (auto simp: media_ok_def)
next
  case (Request sys r p new p' ths)
  note req = Request(3)
  have ok: "table_typed sha256 p" "list_all (thread_typed p) ths"
    "ctx_ok p" "streams_ok p" "jobs_ok ths p"
    using assms(2) Request by (auto simp: media_ok_def)
  then show ?thesis
    using request_typed [OF req] request_config [OF req] threads_typed_base [of p' p ths]
      request_ctx_ok [OF req] request_streams_ok [OF req] request_jobs_ok [OF _ req] Request(2)
    by (auto simp: media_ok_def)
qed

lemma media_reachable_ok:
  assumes "media_reachable sha256 (media_start cacheDir baseURL disk) s"
  shows "media_ok sha256 s"
  using assms by induction (auto intro: media_ok_start media_ok_step)

end
