(* ===== verification/Media_Props.thy ===== *)
theory Media_Props
  imports Media_Reach
begin

section \<open>Properties of the pipeline\<close>

text \<open>
  What follows from the invariant, and what single functions do. The witnesses use a
  small pipeline and traces of steps that \<open>media_trace\<close> executes.
\<close>

subsection \<open>Executing traces\<close>

datatype media_event = Run nat | Ask request

fun media_exec ::
  "(string \<Rightarrow> 8 word list) \<Rightarrow> tools \<Rightarrow> media_event \<Rightarrow> media \<Rightarrow> (notice list \<times> media) option" where
  "media_exec sha256 sys (Run n) (ths, p) =
     (if n < length ths
      then (case thread_step sys (ths ! n) p of
              None \<Rightarrow> None
            | Some (new, p', ns) \<Rightarrow> Some (ns, take n ths @ new @ drop (Suc n) ths, p'))
      else None)"
| "media_exec sha256 sys (Ask r) (ths, p) =
     (case serve_request sha256 sys r p of (new, p', ns) \<Rightarrow> Some (ns, ths @ new, p'))"

fun media_trace ::
  "(string \<Rightarrow> 8 word list) \<Rightarrow> (tools \<times> media_event) list \<Rightarrow> media \<Rightarrow> (notice list \<times> media) option" where
  "media_trace sha256 [] s = Some ([], s)"
| "media_trace sha256 ((sys, e) # es) s =
     (case media_exec sha256 sys e s of
        None \<Rightarrow> None
      | Some (ns, s') \<Rightarrow> map_option (apfst ((@) ns)) (media_trace sha256 es s'))"

lemma media_exec_step: "media_exec sha256 sys e s = Some (ns, s') \<Longrightarrow> media_step sha256 s ns s'"
proof (cases e; cases s)
  fix n ths p assume *: "e = Run n" "s = (ths, p)" and "media_exec sha256 sys e s = Some (ns, s')"
  then obtain new p' where "thread_step sys (ths ! n) p = Some (new, p', ns)" "n < length ths"
    "s' = (take n ths @ new @ drop (Suc n) ths, p')"
    by (auto split: if_splits option.splits)
  with media_step.Thread [OF this(1), of sha256 "take n ths" "drop (Suc n) ths"] *
  show ?thesis by (simp add: id_take_nth_drop [symmetric])
next
  fix r ths p assume "e = Ask r" "s = (ths, p)" and "media_exec sha256 sys e s = Some (ns, s')"
  then show ?thesis by (auto intro: media_step.Request split: prod.splits)
qed

lemma media_trace_reachable:
  assumes "media_reachable sha256 s0 s" "media_trace sha256 es s = Some (ns, s')"
  shows "media_reachable sha256 s0 s'"
  using assms
proof (induction es arbitrary: s ns)
  case (Cons e es)
  obtain sys ev where e: "e = (sys, ev)" by (cases e) auto
  with Cons.prems obtain ms t ns' where "media_exec sha256 sys ev s = Some (ms, t)"
    and t: "media_trace sha256 es t = Some (ns', s')"
    by (auto split: option.splits)
  then have "media_reachable sha256 s0 t"
    using Cons.prems(1) media_exec_step media_reachable.Step by blast
  from this t show ?case by (rule Cons.IH)
qed (simp add: media_reachable.Start)

subsection \<open>Goroutines alone\<close>

text \<open>Steps of the goroutines while no request comes in.\<close>

inductive quiet_step :: "media \<Rightarrow> media \<Rightarrow> bool" where
  "thread_step sys th p = Some (new, p', ns) \<Longrightarrow> quiet_step (xs @ th # ys, p) (xs @ new @ ys, p')"

fun steps_left :: "thread \<Rightarrow> nat" where
  "steps_left (RunMeta i u cb) = 6" | "steps_left (RunStat i u cb d) = 5" | "steps_left (RunMark i cb f d) = 1"
| "steps_left (RunOpen i u cb d) = 4" | "steps_left (RunCopy i cb d st) = 3" | "steps_left (RunClose i cb d ok) = 2"
| "steps_left (RunFail i cb) = 1" | "steps_left (DirectAsk i u) = 2" | "steps_left (DirectSave i out) = 1"
| "steps_left (DeleteAbort i st) = 2" | "steps_left (DeleteGlob i) = 1"
| "steps_left (FullStat i u) = 6" | "steps_left (FullClaim i u) = 5" | "steps_left (FullFetch i u) = 4"
| "steps_left (FullForget i ok) = 3" | "steps_left (FullReady i) = 2" | "steps_left (FullDrop i) = 1"
| "steps_left (EvictDrop i r) = 2" | "steps_left (Emit i) = 1"
| "steps_left (SegEnter t n) = 17" | "steps_left (SegClaim t n) = 16" | "steps_left (SegAwait j) = 1"
| "steps_left (SegAcquire t n j) = 15"
| "steps_left (SegCheck t n j a) = (if a = 0 then 14 else 8)"
| "steps_left (SegDirect t n j a) = (if a = 0 then 13 else 7)"
| "steps_left (SegSave t n j a out) = (if a = 0 then 12 else 6)"
| "steps_left (SegEncode t n j a u) = (if a = 0 then 11 else 5)"
| "steps_left (SegPublish t n j a) = (if a = 0 then 10 else 4)"
| "steps_left (SegFailed t n j a) = (if a = 0 then 9 else 3)"
| "steps_left (SegRelease t n j e) = 2" | "steps_left (SegForget t n j) = 1"

definition total_steps :: "thread list \<Rightarrow> nat" where
  "total_steps ths = sum_list (List.map steps_left ths)"

lemma total_steps_simps [simp]:
  "total_steps [] = 0" "total_steps (th # ths) = steps_left th + total_steps ths"
  "total_steps (xs @ ys) = total_steps xs + total_steps ys"
  by (simp_all add: total_steps_def)

lemma thread_step_decreases:
  assumes "thread_step sys th p = Some (new, p', ns)"
  shows "total_steps new < steps_left th"
  by (cases th) (use assms in \<open>auto simp: run_defs full_defs seg_defs Let_def split: media_splits\<close>)

lemma quiet_decreases: "quiet_step s s' \<Longrightarrow> total_steps (fst s') < total_steps (fst s)"
  by (induction rule: quiet_step.induct) (auto dest: thread_step_decreases)

lemma quiet_runs_bounded: "(quiet_step ^^ n) s s' \<Longrightarrow> n + total_steps (fst s') \<le> total_steps (fst s)"
proof (induction n arbitrary: s')
  case (Suc n)
  then obtain t where "(quiet_step ^^ n) s t" "quiet_step t s'" by auto
  with Suc.IH [of t] quiet_decreases [of t s'] show ?case by simp
qed simp

lemma quiet_is_media: "quiet_step s s' \<Longrightarrow> \<exists>ns. media_step sha256 s ns s'"
  by (induction rule: quiet_step.induct) (auto intro: media_step.Thread)

lemma quiet_reachable:
  assumes "quiet_step\<^sup>*\<^sup>* s s'" "media_reachable sha256 s0 s"
  shows "media_reachable sha256 s0 s'"
  using assms by induction (auto dest!: quiet_is_media [of _ _ sha256] intro: media_reachable.Step)

text \<open>A goroutine waits for a job only while another one works on it, or for the semaphore.\<close>

lemma thread_waits:
  "thread_step sys th p = None \<Longrightarrow>
     (\<exists>j. th = SegAwait j \<and> (\<forall>job. gget (pl_jobHeap p) j = Some job \<longrightarrow> \<not> job_done job))
   \<or> (\<exists>t n j. th = SegAcquire t n j \<and> \<not> pl_segSem p < hlsSegConcurrency)"
  by (cases th) (auto simp: seg_await_def seg_acquire_def split: option.splits if_splits)

lemma jobs_ok_progress:
  assumes ok: "jobs_ok ths p" and "ths \<noteq> []"
  shows "\<exists>th \<in> set ths. thread_step sys th p \<noteq> None"
proof (rule ccontr)
  assume "\<not> ?thesis"
  then have stuck: "\<And>th. th \<in> set ths \<Longrightarrow> thread_step sys th p = None" by blast
  have "filter holds ths = []"
    unfolding filter_empty_conv by (auto dest!: stuck thread_waits)
  with ok have "pl_segSem p < hlsSegConcurrency"
    by (simp add: jobs_ok_def sem_match_def hlsSegConcurrency_def)
  with thread_waits [OF stuck] have aw: "\<And>th. th \<in> set ths \<Longrightarrow> \<exists>j. th = SegAwait j
      \<and> (\<forall>job. gget (pl_jobHeap p) j = Some job \<longrightarrow> \<not> job_done job)" by blast
  obtain th where th: "th \<in> set ths" using \<open>ths \<noteq> []\<close> by (cases ths) auto
  with aw obtain j where j: "th = SegAwait j" "\<forall>job. gget (pl_jobHeap p) j = Some job \<longrightarrow> \<not> job_done job"
    by blast
  with th ok have "job_state ths p j" by (auto simp: jobs_ok_def)
  with j(2) have "Some j \<in> working ` set ths" by (auto simp: job_state_def)
  then obtain t where "t \<in> set ths" "working t = Some j" by (metis imageE)
  with aw [of t] show False by auto
qed

subsection \<open>A small pipeline\<close>

text \<open>
  A digest that tells texts of different lengths apart, programs that report a title and a length
  and succeed, and the server as it starts.
\<close>

definition demoHash :: "string \<Rightarrow> 8 word list" where
  "demoHash s = replicate 32 (of_nat (length s))"

definition demoSecs :: "string \<Rightarrow> int option" where
  "demoSecs s = map_option (\<lambda>n. 1000 * int n) (parse_nat s)"

definition demoTools :: tools where
  "demoTools =
     \<lparr>tl_output = (\<lambda>args.
        if hd args = ''ffprobe'' then Some ''65''
        else if last (butlast args) = ''-g'' then Some ''http://cdn/x''
        else if last args = ''http://v/long'' then Some (''Long'' @ line_end @ ''700'' @ line_end)
        else Some (''Song'' @ line_end @ ''65'' @ line_end)),
      tl_run = (\<lambda>args. True), tl_ext = Some ''m4a'', tl_bytes = 1000, tl_secs = demoSecs,
      tl_osOK = (\<lambda>path. True), tl_start = (\<lambda>a b. Started), tl_copyOK = True\<rparr>"

definition demoMedia :: media where
  "demoMedia = media_start ''cache'' ''http://h'' no_files"

text \<open>A long track is resolved for room 7, and its goroutine runs to its last step but one.\<close>

definition demoSteps :: "(tools \<times> media_event) list" where
  "demoSteps = [(demoTools, Ask (ReqResolve ''http://v/long'' (Some 7))), (demoTools, Run 0), (demoTools, Run 0)]"

definition demoRun :: "(tools \<times> media_event) list \<Rightarrow> media" where
  "demoRun es = (case media_trace demoHash es demoMedia of None \<Rightarrow> demoMedia | Some (ns, s) \<Rightarrow> s)"

lemma demoRun_reachable: "media_reachable demoHash demoMedia (demoRun es)"
  by (auto simp: demoRun_def intro: media_trace_reachable media_reachable.Start split: option.split)

lemmas demo_start = demoRun_reachable [unfolded demoMedia_def]

subsection \<open>The table of tracks\<close>

lemma thread_notices:
  assumes "thread_step sys th p = Some (new, p', ns)" "(room, t) \<in> set ns"
  shows "\<exists>i. gget (pl_tracks p') i = Some t"
  by (cases th) (use assms in \<open>auto simp: run_defs full_defs seg_defs Let_def split: media_splits\<close>)

lemma request_notices:
  assumes "serve_request sha256 sys r p = (new, p', ns)" shows "ns = []"
proof (cases r)
  case (ReqCache a)
  with assms show ?thesis by (cases a) (auto simp: ensureFull_def evictFull_def Let_def split: option.splits if_splits)
qed (use assms in \<open>auto simp: Delete_locked_def Let_def split: prod.splits\<close>)

lemma step_notices:
  assumes "media_step sha256 s ns (ths', p')" "(room, t) \<in> set ns"
  shows "\<exists>i. gget (pl_tracks p') i = Some t"
  using assms(1)
proof cases
  case (Thread sys th p new xs ys)
  with assms(2) thread_notices show ?thesis by blast
next
  case (Request sys r p new ths)
  with assms(2) request_notices show ?thesis by fastforce
qed

text \<open>
  C2: The table of tracks is well typed in every reachable state, whatever the goroutines and
  requests do in between: a track stands under the identifier of its source, one that is being resolved
  has no address, one that is ready has one of the three addresses of its own, and the complete
  file is announced only while it is wanted. Every track a room is told of is the entry of the table
  at that moment, so rooms only ever see well-typed tracks, and none of a deleted track.
\<close>

theorem track_table_well_typed:
  assumes "media_reachable sha256 (media_start cacheDir baseURL disk) s"
    and "media_step sha256 s ns (ths', p')"
  shows "table_typed sha256 p' \<and> (\<forall>(room, t) \<in> set ns. gget (pl_tracks p') (tr_ID t) = Some t)"
proof -
  have typed: "table_typed sha256 p'"
    using media_ok_step [OF assms(2) media_reachable_ok [OF assms(1)]] by (simp add: media_ok_def)
  moreover have "gget (pl_tracks p') (tr_ID t) = Some t" if n: "(room, t) \<in> set ns" for room t
  proof -
    from step_notices [OF assms(2) n] obtain i where i: "gget (pl_tracks p') i = Some t" by blast
    with typed show ?thesis by (auto simp: table_typed_def track_typed_def)
  qed
  ultimately show ?thesis by blast
qed

lemma demo_marks:
  "case media_exec demoHash demoTools (Run 1) (demoRun demoSteps) of
     None \<Rightarrow> False | Some (ns, ths', p') \<Rightarrow> length ns = 1"
  by code_simp

theorem track_table_well_typed_witness:
  "\<exists>ns ths' p'. media_step demoHash (demoRun demoSteps) ns (ths', p') \<and> table_typed demoHash p'
     \<and> (\<forall>(room, t) \<in> set ns. gget (pl_tracks p') (tr_ID t) = Some t) \<and> length ns = 1"
proof -
  from demo_marks obtain ns ths' p' where
    e: "media_exec demoHash demoTools (Run 1) (demoRun demoSteps) = Some (ns, ths', p')" and l: "length ns = 1"
    by (auto split: option.splits)
  from media_exec_step [OF e] have s: "media_step demoHash (demoRun demoSteps) ns (ths', p')" .
  from track_table_well_typed [OF demo_start s] s l show ?thesis by blast
qed

subsection \<open>Contexts\<close>

text \<open>
  C14: A track of the table has a context that is not cancelled, and a context is cancelled exactly
  when its track has been deleted: no program goes on running under the context of a deleted
  track, and no context is leaked. No goroutine closes a channel a second time.
\<close>

theorem contexts_follow_tracks:
  assumes "media_reachable sha256 (media_start cacheDir baseURL disk) (ths, p)"
  shows "(\<forall>i. exists_track i p \<longleftrightarrow> ctxFor i p \<noteq> None) \<and> (\<forall>i. \<not> ctx_cancelled (ctxFor i p) p)
    \<and> (\<forall>c < pl_nextCtx p. \<not> ctx_cancelled (Some c) p \<longleftrightarrow> (\<exists>i. exists_track i p \<and> ctxFor i p = Some c))
    \<and> \<not> pl_crashed p"
proof -
  from media_reachable_ok [OF assms] have ok: "ctx_ok p" "\<not> pl_crashed p"
    by (simp_all add: media_ok_def streams_ok_def)
  note a = ok(1) [unfolded ctx_ok_def]
  have "(\<forall>i. exists_track i p \<longleftrightarrow> ctxFor i p \<noteq> None) \<and> (\<forall>i. \<not> ctx_cancelled (ctxFor i p) p)"
    using a by (auto simp: exists_track_def ctxFor_def ctx_cancelled_def split: option.split)
  moreover have "\<not> ctx_cancelled (Some c) p \<longleftrightarrow> (\<exists>i. exists_track i p \<and> ctxFor i p = Some c)"
    if "c < pl_nextCtx p" for c
    using a that unfolding exists_track_def ctxFor_def ctx_cancelled_def option.case
    by (metis option.distinct(1))
  ultimately show ?thesis using ok(2) by blast
qed

theorem contexts_follow_tracks_witness:
  "exists_track ''0d0d0d0d0d0d0d0d'' (snd (demoRun demoSteps))
     \<longleftrightarrow> ctxFor ''0d0d0d0d0d0d0d0d'' (snd (demoRun demoSteps)) \<noteq> None"
  using contexts_follow_tracks [of demoHash "''cache''" "''http://h''" no_files "fst (demoRun demoSteps)" "snd (demoRun demoSteps)"]
    demo_start [of demoSteps] by simp

subsection \<open>Segments are made one at a time\<close>

lemma FormatInt_no_colon: "CHR '':'' \<notin> set (FormatInt n)"
  using digits_are_digits [of "CHR '':''"] by (auto simp: FormatInt_def is_digit_def)

lemma FormatInt_inj: "in64 n \<Longrightarrow> in64 m \<Longrightarrow> FormatInt n = FormatInt m \<longleftrightarrow> n = m"
  using ParseInt_FormatInt [of n] ParseInt_FormatInt [of m] by (metis option.inject)

lemma last_part_unique:
  "x \<notin> set b \<Longrightarrow> x \<notin> set d \<Longrightarrow> a @ x # b = c @ x # d \<longleftrightarrow> a = c \<and> b = d"
proof (induction a arbitrary: c)
  case Nil
  then show ?case by (cases c) auto
next
  case (Cons y a)
  show ?case
  proof (cases c)
    case Nil
    with Cons.prems(2) show ?thesis by auto
  next
    case (Cons z c')
    then show ?thesis using Cons.IH [OF Cons.prems, of c'] by auto
  qed
qed

lemma job_key_inj:
  assumes "in64 n" "in64 m"
  shows "job_key t n = job_key u m \<longleftrightarrow> tr_ID t = tr_ID u \<and> n = m"
proof -
  have "tr_ID t @ CHR '':'' # FormatInt n = tr_ID u @ CHR '':'' # FormatInt m
      \<longleftrightarrow> tr_ID t = tr_ID u \<and> FormatInt n = FormatInt m"
    by (rule last_part_unique) (rule FormatInt_no_colon)+
  then show ?thesis unfolding job_key_def FormatInt_inj [OF assms] by simp
qed

text \<open>
  C6: No two goroutines make the same segment of a track at the same time, whatever requests and
  deletions come in between, and at most five of them run \<^verbatim>\<open>ffmpeg\<close> at once.
\<close>

theorem segment_jobs_exclusive:
  assumes "media_reachable sha256 (media_start cacheDir baseURL disk) (xs @ a # ys @ b # zs, p)"
    and "owner a = Some (job_key t n, j)" and "owner b = Some (job_key u m, k)" and "in64 n" "in64 m"
  shows "\<not> (tr_ID t = tr_ID u \<and> n = m) \<and> length (filter holds (xs @ a # ys @ b # zs)) \<le> 5"
proof -
  from media_reachable_ok [OF assms(1)] have ok: "jobs_ok (xs @ a # ys @ b # zs) p"
    by (simp add: media_ok_def)
  then have "job_key u m \<noteq> job_key t n"
    using owner_unique(3) [OF _ assms(2), of xs "ys @ b # zs" p b] assms(3) by (auto simp: jobs_ok_def)
  with job_key_inj [OF assms(4,5), of t u] ok show ?thesis
    by (auto simp: jobs_ok_def sem_match_def hlsSegConcurrency_def)
qed

text \<open>Two segments of the long track are asked for, and both jobs get the semaphore.\<close>

definition demoLong :: Track where
  "demoLong =
     \<lparr>tr_ID = ''0d0d0d0d0d0d0d0d'', tr_SourceURL = ''http://v/long'', tr_Status = StatusReady,
      tr_Title = ''Long'', tr_FileURL = ''http://h/media/0d0d0d0d0d0d0d0d/index.m3u8'', tr_DurationMs = 700000\<rparr>"

definition demoSegments :: "(tools \<times> media_event) list" where
  "demoSegments = demoSteps @ List.map (Pair demoTools)
     [Run 1, Run 0, Run 0, Ask (ReqSegment demoLong 0), Ask (ReqSegment demoLong 1),
      Run 0, Run 1, Run 0, Run 1, Run 0, Run 1]"

lemma demoSegments_threads: "fst (demoRun demoSegments) = [SegCheck demoLong 0 0 0, SegCheck demoLong 1 1 0]"
  by code_simp

theorem segment_jobs_exclusive_witness:
  "\<not> (tr_ID demoLong = tr_ID demoLong \<and> (0 :: int) = 1)
     \<and> length (filter holds [SegCheck demoLong 0 0 0, SegCheck demoLong 1 1 0]) \<le> 5"
  using segment_jobs_exclusive [of demoHash "''cache''" "''http://h''" no_files "[]" "SegCheck demoLong 0 0 0" "[]"
      "SegCheck demoLong 1 1 0" "[]" "snd (demoRun demoSegments)" demoLong 0 0 demoLong 1 1]
    demo_start [of demoSegments] demoSegments_threads by (cases "demoRun demoSegments") (simp add: in64_def)

subsection \<open>All goroutines end\<close>



end
