(* ===== verification/Resolve_Props.thy ===== *)
theory Resolve_Props
  imports Media_Props
begin

section \<open>Resolving, deleting and evicting a track\<close>

text \<open>
  What \<^verbatim>\<open>Resolve\<close> and the goroutine it starts come to when nothing interferes, what \<^verbatim>\<open>Delete\<close>
  removes, and three traces in which goroutines or rooms get in each other's way.
\<close>

subsection \<open>Running goroutines to their end\<close>

text \<open>The goroutines of a list one after another, each to its end; a waiting one is given up.\<close>

function solo :: "tools \<Rightarrow> thread list \<Rightarrow> Pipeline \<Rightarrow> Pipeline \<times> notice list" where
  "solo sys [] p = (p, [])"
| "solo sys (th # ths) p =
     (case thread_step sys th p of
        None \<Rightarrow> solo sys ths p
      | Some (new, p', ns) \<Rightarrow> (let (q, ms) = solo sys (new @ ths) p' in (q, ns @ ms)))"
  by pat_completeness auto
termination
proof (relation "measures [\<lambda>(sys, ths, p). total_steps ths, \<lambda>(sys, ths, p). length ths]", goal_cases)
  case 1
  show ?case by simp
next
  case (2 sys th ths p)
  then show ?case by auto
next
  case (3 sys th ths p s new x p' ns)
  then have "thread_step sys th p = Some (new, p', ns)" by simp
  from thread_step_decreases [OF this] show ?case by simp
qed

subsection \<open>One goroutine per source\<close>

text \<open>
  C28: Resolving a source starts a goroutine exactly if the table has no entry for it, and resolving it
  again, for whatever room, starts none: it returns the same track and leaves the table, the
  contexts and the files alone.
\<close>

theorem resolve_is_idempotent:
  assumes "Resolve sha256 u cb p = (t, ths, p')"
  shows "(ths = [] \<longleftrightarrow> exists_track (idFor sha256 u) p)
    \<and> (\<exists>q. Resolve sha256 u cb' p' = (t, [], q) \<and> pl_tracks q = pl_tracks p' \<and> pl_ctxs q = pl_ctxs p'
        \<and> pl_cancels q = pl_cancels p' \<and> pl_disk q = pl_disk p')"
  using assms by (cases "gget (pl_tracks p) (idFor sha256 u)")
    (auto simp: Resolve_def new_ctx_def exists_track_def Let_def split: option.splits)

theorem resolve_is_idempotent_witness:
  "\<exists>t p'. Resolve demoHash ''http://v/long'' (Some 7) (snd demoMedia) = (t, [RunMeta (tr_ID t) ''http://v/long'' (Some 7)], p')
     \<and> (\<exists>q. Resolve demoHash ''http://v/long'' (Some 8) p' = (t, [], q) \<and> pl_tracks q = pl_tracks p')"
proof -
  obtain t ths p' where r: "Resolve demoHash ''http://v/long'' (Some 7) (snd demoMedia) = (t, ths, p')"
    by (cases "Resolve demoHash ''http://v/long'' (Some 7) (snd demoMedia)") auto
  moreover have "ths = [RunMeta (tr_ID t) ''http://v/long'' (Some 7)]"
    using r by (auto simp: Resolve_def new_ctx_def demoMedia_def media_start_def New_pipeline_def Let_def)
  ultimately show ?thesis using resolve_is_idempotent [OF r, of "Some 8"] by blast
qed

subsection \<open>What becomes of a source\<close>

text \<open>Transcoding succeeds if every program and call it needs does.\<close>

definition transcodes :: "tools \<Rightarrow> string \<Rightarrow> string \<Rightarrow> Pipeline \<Rightarrow> bool" where
  "transcodes sys i u p \<longleftrightarrow>
     tl_osOK sys (cacheFile i ''.part'' p) \<and> tl_start sys (transcode_ytdlp u) transcode_ffmpeg = Started
   \<and> tl_copyOK sys \<and> tl_bytes sys \<noteq> 0 \<and> tl_osOK sys (cacheFile i ''.opus'' p)"

text \<open>The track at the end: its file if it is there, a playlist if it is remote and long, else transcoded.\<close>

definition run_result :: "tools \<Rightarrow> string \<Rightarrow> Pipeline \<Rightarrow> Track \<Rightarrow> Track" where
  "run_result sys u p t =
     (let i = tr_ID t;
          (title, durMs) = probeMeta sys u;
          out = cacheFile i ''.opus'' p;
          t = (if title \<noteq> [] then t\<lparr>tr_Title := title\<rparr> else t);
          ready = (\<lambda>url d. t\<lparr>tr_Status := StatusReady, tr_FileURL := url, tr_DurationMs := d\<rparr>);
          fileMs = (if durMs = 0 then probeDurationMs sys out else durMs)
      in if Stat out (pl_disk p) \<noteq> None then ready (mediaURL i ''.opus'' p) fileMs
         else if \<not> prefix uploadPrefix u \<and> hlsDurationThresholdMs \<le> durMs
         then ready (mediaURL i ''/index.m3u8'' p) durMs
         else if transcodes sys i u p then ready (mediaURL i ''.opus'' p) fileMs
         else t\<lparr>tr_Status := StatusError\<rparr>)"

text \<open>The end of a run: entry \<open>t'\<close> for \<open>i\<close>, the others as they were, and \<open>t'\<close> told last.\<close>

definition settles :: "string \<Rightarrow> nat option \<Rightarrow> Pipeline \<Rightarrow> Track \<Rightarrow> Pipeline \<times> notice list \<Rightarrow> bool" where
  "settles i cb p t' r \<longleftrightarrow>
     (\<forall>k. gget (pl_tracks (fst r)) k = (if k = i then Some t' else gget (pl_tracks p) k))
   \<and> (\<forall>room. cb = Some room \<longrightarrow> snd r \<noteq> [] \<and> last (snd r) = (room, t'))"

lemma settles_same_tracks: "pl_tracks q = pl_tracks p \<Longrightarrow> settles i cb q t' r = settles i cb p t' r"
  by (simp add: settles_def)

lemma solo_becomes:
  "thread_step sys th p = Some (becomes new q) \<Longrightarrow> solo sys (th # ths) p = solo sys (new @ ths) q"
  by simp

declare solo.simps(2) [simp del]

lemma solo_mark:
  assumes "gget (pl_tracks p) i = Some t"
  shows "settles i cb p (t\<lparr>tr_Status := StatusReady, tr_FileURL := f, tr_DurationMs := d\<rparr>)
    (solo sys [RunMark i cb f d] p)"
  using assms by (auto simp: solo.simps(2) run_mark_def markReady_def update_track_def settles_def)

lemma solo_fail:
  assumes "gget (pl_tracks p) i = Some t"
  shows "settles i cb p (t\<lparr>tr_Status := StatusError\<rparr>) (solo sys [RunFail i cb] p)"
  using assms by (auto simp: solo.simps(2) run_fail_def setError_def update_track_def settles_def)

text \<open>The track when transcoding has ended.\<close>

definition transcoded :: "tools \<Rightarrow> string \<Rightarrow> Pipeline \<Rightarrow> int \<Rightarrow> bool \<Rightarrow> Track \<Rightarrow> Track" where
  "transcoded sys i p d ok t =
     (if ok then t\<lparr>tr_Status := StatusReady, tr_FileURL := mediaURL i ''.opus'' p,
                   tr_DurationMs := if d = 0 then probeDurationMs sys (cacheFile i ''.opus'' p) else d\<rparr>
      else t\<lparr>tr_Status := StatusError\<rparr>)"

lemma transcoded_cong:
  "pl_baseURL q = pl_baseURL p \<Longrightarrow> pl_cacheDir q = pl_cacheDir p \<Longrightarrow> transcoded sys i q d ok t = transcoded sys i p d ok t"
  by (simp add: transcoded_def mediaURL_def cacheFile_def)

lemma solo_close:
  assumes "gget (pl_tracks p) i = Some t"
  shows "settles i cb p (transcoded sys i p d ok t) (solo sys [RunClose i cb d ok] p)"
proof -
  let ?q = "p\<lparr>pl_streams := gdel i (pl_streams p)\<rparr>"
  have t: "gget (pl_tracks ?q) i = Some t" and c: "pl_tracks ?q = pl_tracks p" using assms by simp_all
  show ?thesis
    using solo_mark [OF t, where cb = cb and f = "mediaURL i ''.opus'' ?q" and sys = sys]
      solo_fail [OF t, where cb = cb and sys = sys]
    by (cases ok) (simp_all add: solo_becomes [of sys _ p _ ?q] transcode_close_def transcoded_def
        settles_same_tracks [OF c])
qed

lemma solo_copy:
  assumes t: "gget (pl_tracks p) i = Some t"
    and st: "gget (pl_streamHeap p) st = Some newMediaStream"
    and part: "gget (dk_files (pl_disk p)) (cacheFile i ''.part'' p) \<noteq> None"
  shows "settles i cb p
    (transcoded sys i p d (tl_copyOK sys \<and> tl_bytes sys \<noteq> 0 \<and> tl_osOK sys (cacheFile i ''.opus'' p)) t)
    (solo sys [RunCopy i cb d st] p)"
proof -
  let ?ok = "tl_copyOK sys \<and> tl_bytes sys \<noteq> 0 \<and> tl_osOK sys (cacheFile i ''.opus'' p)"
  obtain q where step: "thread_step sys (RunCopy i cb d st) p = Some (becomes [RunClose i cb d ?ok] q)"
    and q: "pl_tracks q = pl_tracks p" "pl_baseURL q = pl_baseURL p" "pl_cacheDir q = pl_cacheDir p"
    using st part
    by (cases "tl_copyOK sys"; cases "tl_bytes sys = 0"; cases "tl_osOK sys (cacheFile i ''.opus'' p)")
      (auto simp: transcode_done_def isAborted_def newMediaStream_def Rename_def Let_def)
  have "gget (pl_tracks q) i = Some t" using t q by simp
  from solo_close [OF this, where cb = cb and sys = sys and d = d and ok = ?ok] show ?thesis
    by (simp add: solo_becomes [OF step] settles_same_tracks [OF q(1)] transcoded_cong [OF q(2,3)])
qed

lemma solo_open:
  assumes t: "gget (pl_tracks p) i = Some t"
  shows "settles i cb p (transcoded sys i p d (transcodes sys i u p) t) (solo sys [RunOpen i u cb d] p)"
proof (cases "tl_osOK sys (cacheFile i ''.part'' p) \<and> tl_start sys (transcode_ytdlp u) transcode_ffmpeg = Started")
  case True
  obtain q where step: "thread_step sys (RunOpen i u cb d) p = Some (becomes [RunCopy i cb d (pl_nextStream p)] q)"
    and q: "pl_tracks q = pl_tracks p" "pl_baseURL q = pl_baseURL p" "pl_cacheDir q = pl_cacheDir p"
      "gget (pl_streamHeap q) (pl_nextStream p) = Some newMediaStream"
      "gget (dk_files (pl_disk q)) (cacheFile i ''.part'' p) \<noteq> None"
    using True by (auto simp: transcode_open_def WriteFile_def Let_def)
  have c: "cacheFile i e q = cacheFile i e p" for e using q(3) by (simp add: cacheFile_def)
  have "gget (pl_tracks q) i = Some t" using t q by simp
  from solo_copy [OF this q(4), where cb = cb and sys = sys and d = d] q(5) True show ?thesis
    by (simp add: c solo_becomes [OF step] settles_same_tracks [OF q(1)] transcoded_cong [OF q(2,3)] transcodes_def)
next
  case False
  then obtain q where step: "thread_step sys (RunOpen i u cb d) p = Some (becomes [RunClose i cb d False] q)"
    and q: "pl_tracks q = pl_tracks p" "pl_baseURL q = pl_baseURL p" "pl_cacheDir q = pl_cacheDir p"
    by (cases "tl_osOK sys (cacheFile i ''.part'' p)"; cases "tl_start sys (transcode_ytdlp u) transcode_ffmpeg")
      (auto simp: transcode_open_def Let_def)
  have "gget (pl_tracks q) i = Some t" using t q by simp
  moreover have "\<not> transcodes sys i u p" using False by (auto simp: transcodes_def)
  ultimately show ?thesis
    using solo_close [where p = q and cb = cb and sys = sys and d = d and ok = False]
    by (simp add: solo_becomes [OF step] settles_same_tracks [OF q(1)] transcoded_cong [OF q(2,3)])
qed

lemma solo_direct: "\<exists>q. solo sys (DirectAsk i u # ths) p = solo sys ths q \<and> pl_tracks q = pl_tracks p"
proof (cases "cachedURL i p = []")
  case True
  let ?out = "ask_directURL sys i u p"
  have "solo sys (DirectAsk i u # ths) p = solo sys ([DirectSave i ?out] @ ths) p"
    by (rule solo_becomes) (simp add: direct_ask_def True)
  also have "\<dots> = solo sys ([] @ ths) (save_directURL i (parse_directURL ?out) p)"
    by (simp only: append_Cons append_Nil, rule trans [OF solo_becomes]) (auto simp: direct_save_def)
  finally show ?thesis by (auto simp: save_directURL_def)
next
  case False
  then have "solo sys (DirectAsk i u # ths) p = solo sys ([] @ ths) p"
    by (intro solo_becomes) (simp add: direct_ask_def)
  then show ?thesis by auto
qed

text \<open>The next steps of a run end the way the specification says.\<close>

lemma solo_stat:
  assumes t: "gget (pl_tracks p) i = Some t"
  shows "settles i cb p
    (if Stat (cacheFile i ''.opus'' p) (pl_disk p) = None \<and> \<not> prefix uploadPrefix u \<and> hlsDurationThresholdMs \<le> d
     then t\<lparr>tr_Status := StatusReady, tr_FileURL := mediaURL i ''/index.m3u8'' p, tr_DurationMs := d\<rparr>
     else transcoded sys i p d (Stat (cacheFile i ''.opus'' p) (pl_disk p) \<noteq> None \<or> transcodes sys i u p) t)
    (solo sys [RunStat i u cb d] p)"
proof -
  consider "Stat (cacheFile i ''.opus'' p) (pl_disk p) \<noteq> None"
    | "Stat (cacheFile i ''.opus'' p) (pl_disk p) = None"
      "\<not> prefix uploadPrefix u \<and> hlsDurationThresholdMs \<le> d"
    | "Stat (cacheFile i ''.opus'' p) (pl_disk p) = None"
      "\<not> (\<not> prefix uploadPrefix u \<and> hlsDurationThresholdMs \<le> d)" by blast
  then show ?thesis
  proof cases
    case 1
    then show ?thesis
      using solo_mark [OF t] by (auto simp: solo_becomes [of sys _ p _ p] run_stat_def transcoded_def Let_def)
  next
    case 2
    then have "solo sys [RunStat i u cb d] p
        = solo sys [DirectAsk i u, RunMark i cb (mediaURL i ''/index.m3u8'' p) d] p"
      by (simp add: solo_becomes [of sys _ p _ p] run_stat_def Let_def)
    with solo_direct [of sys i u "[RunMark i cb (mediaURL i ''/index.m3u8'' p) d]" p]
    obtain q where q: "solo sys [RunStat i u cb d] p
        = solo sys [RunMark i cb (mediaURL i ''/index.m3u8'' p) d] q" "pl_tracks q = pl_tracks p" by metis
    with t have "gget (pl_tracks q) i = Some t" by simp
    from solo_mark [OF this] 2 show ?thesis by (simp add: q(1) settles_same_tracks [OF q(2), symmetric])
  next
    case 3
    then show ?thesis
      using solo_open [OF t, where cb = cb and sys = sys and d = d and u = u]
      by (auto simp: solo_becomes [of sys _ p _ p] run_stat_def Let_def)
  qed
qed

text \<open>
  C9: What becomes of a source when nothing interferes: the goroutine of a track ends with the
  track ready under its file if the file is there or transcoding succeeds, under a playlist if
  the source is remote and at least ten minutes long, and else with the error status; title and
  length are the ones the program reported, or the file's if it reported no length. The room that
  asked is told this last, and no other track is touched.
\<close>

theorem run_settles_track:
  assumes "gget (pl_tracks p) i = Some t" and "tr_ID t = i"
    and "solo sys [RunMeta i u cb] p = (q, ns)"
  shows "gget (pl_tracks q) i = Some (run_result sys u p t)
    \<and> (\<forall>k. k \<noteq> i \<longrightarrow> gget (pl_tracks q) k = gget (pl_tracks p) k)
    \<and> (\<forall>room. cb = Some room \<longrightarrow> ns \<noteq> [] \<and> last ns = (room, run_result sys u p t))"
proof -
  obtain title d where m: "probeMeta sys u = (title, d)" by fastforce
  define t' where "t' = (if title \<noteq> [] then t\<lparr>tr_Title := title\<rparr> else t)"
  define p' where "p' = p\<lparr>pl_tracks := gset i t' (pl_tracks p)\<rparr>"
  have t': "gget (pl_tracks p') i = Some t'" by (simp add: p'_def)
  have get: "gget (pl_tracks p'') k = gget (pl_tracks p') k"
    if "thread_step sys (RunMeta i u cb) p = Some ([RunStat i u cb d], p'', ns')" for p'' ns' k
    using that assms(1) by (auto simp: run_meta_def m update_track_def p'_def t'_def split: if_splits)
  obtain p2 ns' where step: "thread_step sys (RunMeta i u cb) p = Some ([RunStat i u cb d], p2, ns')"
    and same: "pl_disk p2 = pl_disk p" "pl_baseURL p2 = pl_baseURL p" "pl_cacheDir p2 = pl_cacheDir p"
    using assms(1) by (cases "title = []") (auto simp: run_meta_def m update_track_def)
  have t2: "gget (pl_tracks p2) i = Some t'" using get [OF step] t' by simp
  have c: "cacheFile k e p2 = cacheFile k e p" "mediaURL k e p2 = mediaURL k e p"
    "transcodes sys k v p2 = transcodes sys k v p" for k e v
    using same by (simp_all add: cacheFile_def mediaURL_def transcodes_def)
  have "run_result sys u p t = (if Stat (cacheFile i ''.opus'' p2) (pl_disk p2) = None
        \<and> \<not> prefix uploadPrefix u \<and> hlsDurationThresholdMs \<le> d
      then t'\<lparr>tr_Status := StatusReady, tr_FileURL := mediaURL i ''/index.m3u8'' p2, tr_DurationMs := d\<rparr>
      else transcoded sys i p2 d (Stat (cacheFile i ''.opus'' p2) (pl_disk p2) \<noteq> None \<or> transcodes sys i u p2) t')"
    by (simp add: run_result_def assms(2) m t'_def transcoded_def c same(1) Let_def)
  with solo_stat [OF t2, where cb = cb and u = u and d = d and sys = sys]
  have s: "settles i cb p2 (run_result sys u p t) (solo sys [RunStat i u cb d] p2)" by simp
  moreover have "q = fst (solo sys [RunStat i u cb d] p2)" "ns = ns' @ snd (solo sys [RunStat i u cb d] p2)"
    using assms(3) step by (auto simp: solo.simps(2) [of sys "RunMeta i u cb"] case_prod_beta Let_def)
  ultimately show ?thesis
    using get [OF step] by (auto simp: settles_def p'_def)
qed

theorem run_settles_track_witness:
  "\<exists>q ns. solo demoTools [RunMeta ''0d0d0d0d0d0d0d0d'' ''http://v/long'' (Some 7)] (snd (demoRun demoSteps)) = (q, ns)
     \<and> gget (pl_tracks q) ''0d0d0d0d0d0d0d0d''
       = Some (run_result demoTools ''http://v/long'' (snd (demoRun demoSteps)) (demoLong\<lparr>tr_Status := StatusResolving, tr_FileURL := [], tr_DurationMs := 0\<rparr>))"
proof -
  let ?t = "demoLong\<lparr>tr_Status := StatusResolving, tr_FileURL := [], tr_DurationMs := 0\<rparr>"
  have t: "gget (pl_tracks (snd (demoRun demoSteps))) ''0d0d0d0d0d0d0d0d'' = Some ?t" by code_simp
  obtain q ns where s: "solo demoTools [RunMeta ''0d0d0d0d0d0d0d0d'' ''http://v/long'' (Some 7)] (snd (demoRun demoSteps)) = (q, ns)"
    by fastforce
  from run_settles_track [OF t _ s] s show ?thesis by (simp add: demoLong_def)
qed

subsection \<open>The second room that asks\<close>

fun tells :: "nat option \<Rightarrow> thread \<Rightarrow> bool" where
  "tells r (RunMeta i u cb) \<longleftrightarrow> cb = r" | "tells r (RunStat i u cb d) \<longleftrightarrow> cb = r"
| "tells r (RunMark i cb f d) \<longleftrightarrow> cb = r" | "tells r (RunOpen i u cb d) \<longleftrightarrow> cb = r"
| "tells r (RunCopy i cb d st) \<longleftrightarrow> cb = r" | "tells r (RunClose i cb d ok) \<longleftrightarrow> cb = r"
| "tells r (RunFail i cb) \<longleftrightarrow> cb = r" | "tells r (DirectAsk i u) \<longleftrightarrow> True"
| "tells r (DirectSave i out) \<longleftrightarrow> True" | "tells r _ \<longleftrightarrow> False"

lemma tells_step:
  assumes "thread_step sys th p = Some (new, p', ns)" "tells r th"
  shows "list_all (tells r) new \<and> (\<forall>(room, t) \<in> set ns. r = Some room)"
  by (cases th) (use assms in \<open>auto simp: run_defs Let_def split: media_splits\<close>)

lemma solo_tells: "list_all (tells r) ths \<Longrightarrow> \<forall>(room, t) \<in> set (snd (solo sys ths p)). r = Some room"
proof (induction sys ths p rule: solo.induct)
  case (2 sys th ths p)
  show ?case
  proof (cases "thread_step sys th p")
    case None
    with 2 show ?thesis by (simp add: solo.simps(2))
  next
    case (Some s)
    obtain new p' ns where s: "s = (new, p', ns)" by (cases s) auto
    with Some "2.prems" have "list_all (tells r) new" "\<forall>(room, t) \<in> set ns. r = Some room"
      using tells_step [of sys th p new p' ns r] by simp_all
    with "2.IH"(2) [OF Some, of new "(p', ns)" p' ns] "2.prems" Some s show ?thesis
      by (auto simp: solo.simps(2) case_prod_beta Let_def)
  qed
qed simp

text \<open>
  A second room that asks for a source while it is being resolved gets a track in the resolving
  status and is never told what became of it: the goroutine of the track, run to its end, reports to
  the first room only.
\<close>

lemma second_room_never_told:
  assumes "Resolve sha256 u (Some first) p = (t, [th], p1)"
    and "Resolve sha256 u (Some second) p1 = (t', ths, p2)" and "first \<noteq> second"
  shows "ths = [] \<and> tr_Status t' = StatusResolving
    \<and> (\<forall>(room, r) \<in> set (snd (solo sys [th] p2)). room \<noteq> second)"
proof -
  have th: "th = RunMeta (idFor sha256 u) u (Some first)" and new: "tr_Status t = StatusResolving"
    using assms(1) by (auto simp: Resolve_def Let_def split: option.splits)
  have "ths = [] \<and> t' = t"
    using assms(1,2) by (auto simp: Resolve_def new_ctx_def Let_def split: option.splits)
  with new solo_tells [of "Some first" "[th]" sys p2] assms(3) show ?thesis by (auto simp: th)
qed

lemma second_room_never_told_example:
  "\<exists>t th p1 t' ths p2. Resolve demoHash ''http://v/long'' (Some 7) (snd demoMedia) = (t, [th], p1)
     \<and> Resolve demoHash ''http://v/long'' (Some 8) p1 = (t', ths, p2) \<and> tr_Status t' = StatusResolving
     \<and> (\<forall>(room, r) \<in> set (snd (solo demoTools [th] p2)). room \<noteq> 8)"
proof -
  have "gget (pl_tracks (snd demoMedia)) i = None" for i
    by (simp add: demoMedia_def media_start_def New_pipeline_def)
  then obtain t th p1 where r1: "Resolve demoHash ''http://v/long'' (Some 7) (snd demoMedia) = (t, [th], p1)"
    by (auto simp: Resolve_def Let_def)
  obtain t' ths p2 where r2: "Resolve demoHash ''http://v/long'' (Some 8) p1 = (t', ths, p2)"
    by (cases "Resolve demoHash ''http://v/long'' (Some 8) p1") auto
  from second_room_never_told [OF r1 r2, of demoTools] r1 r2 show ?thesis by auto
qed

subsection \<open>Goroutines in each other's way\<close>

definition demoTrace :: "media_event list \<Rightarrow> media" where
  "demoTrace es = demoRun (List.map (Pair demoTools) es)"

abbreviation shortID :: string where
  "shortID \<equiv> ''0a0a0a0a0a0a0a0a''"

text \<open>A short track is being transcoded, deleted and asked for again; then the first goroutine ends.\<close>

definition staleEvents :: "media_event list" where
  "staleEvents =
     [Ask (ReqResolve ''http://v/s'' (Some 1)), Run 0, Run 0, Run 0,
      Ask (ReqDelete shortID), Run 1, Run 1,
      Ask (ReqResolve ''http://v/s'' (Some 1)), Run 1, Run 1, Run 1,
      Run 0, Run 0, Run 0]"


text \<open>One room's plan evicts the file of a long track while another room's plan asks for it.\<close>

definition evictEvents :: "media_event list" where
  "evictEvents =
     [Ask (ReqResolve ''http://v/long'' (Some 7)), Run 0, Run 0, Run 1, Run 0, Run 0,
      Ask (ReqCache (EnsureFull ''0d0d0d0d0d0d0d0d'' ''http://v/long'')), Run 0, Run 0, Run 0, Run 0, Run 0, Run 0,
      Ask (ReqCache (EvictFull ''0d0d0d0d0d0d0d0d'')),
      Ask (ReqCache (EnsureFull ''0d0d0d0d0d0d0d0d'' ''http://v/long'')), Run 1, Run 1, Run 0, Run 0, Run 0]"


end
