(* ===== verification/Delete_Props.thy ===== *)
theory Delete_Props
  imports Resolve_Props
begin

section \<open>What deleting a track removes\<close>

text \<open>
  \<^verbatim>\<open>Delete\<close> run to its end: the entry of the track is gone, and the files removed are those whose
  name begins with its identifier. For the identifiers the server makes itself, sixteen hexadecimal
  digits, these are the files of the track; an upload source carries any text the client likes.
\<close>

definition delete_all :: "tools \<Rightarrow> string \<Rightarrow> Pipeline \<Rightarrow> Pipeline" where
  "delete_all sys i p = (case Delete_locked i p of (ths, q, ns) \<Rightarrow> fst (solo sys ths q))"

lemma Stat_remove_paths_other:
  "(\<And>w. w \<in> set ws \<Longrightarrow> q \<noteq> w \<and> \<not> below w q) \<Longrightarrow> Stat q (remove_paths ok ws d) = Stat q d"
  by (induction ws arbitrary: d) (auto simp: Stat_RemoveAll)

lemma Stat_remove_paths_gone:
  "(\<And>w. ok w) \<Longrightarrow> Stat q d = None \<or> q \<in> set ws \<Longrightarrow> Stat q (remove_paths ok ws d) = None"
  by (induction ws arbitrary: d) (auto simp: Stat_RemoveAll)

lemma delete_all_parts:
  "pl_tracks (delete_all sys i p) = gdel i (pl_tracks p)"
  "pl_disk (delete_all sys i p) =
     (case Glob (path_Join [pl_cacheDir p, i @ ''*'']) (paths (pl_disk p)) of
        None \<Rightarrow> pl_disk p | Some ws \<Rightarrow> remove_paths (tl_osOK sys) ws (pl_disk p))"
proof -
  obtain st q where q: "Delete_locked i p = becomes [DeleteAbort i st] q"
    and f: "pl_tracks q = gdel i (pl_tracks p)" "pl_disk q = pl_disk p" "pl_cacheDir q = pl_cacheDir p"
    by (auto simp: Delete_locked_def Let_def split: option.splits)
  obtain q' where q': "thread_step sys (DeleteAbort i st) q = Some (becomes [DeleteGlob i] q')"
    and f': "pl_tracks q' = gdel i (pl_tracks p)" "pl_disk q' = pl_disk p" "pl_cacheDir q' = pl_cacheDir p"
    using f by (auto simp: Delete_abort_def split: option.splits outcome.splits)
  have "delete_all sys i p = fst (solo sys [DeleteGlob i] q')"
    by (simp add: delete_all_def q solo_becomes [OF q'])
  then show "pl_tracks (delete_all sys i p) = gdel i (pl_tracks p)"
    "pl_disk (delete_all sys i p) =
      (case Glob (path_Join [pl_cacheDir p, i @ ''*'']) (paths (pl_disk p)) of
         None \<Rightarrow> pl_disk p | Some ws \<Rightarrow> remove_paths (tl_osOK sys) ws (pl_disk p))"
    using f' by (auto simp: solo.simps(2) Delete_files_def split: option.split)
qed

lemma plain_star: "slash \<notin> set i \<Longrightarrow> plain (i @ ''*'')"
  by (auto simp: plain_def dot_def dotdot_def slash_def append_eq_Cons_conv)

lemma delete_glob:
  assumes "slash \<notin> set i" and "literal (dir_prefix (pl_cacheDir p) @ i)"
  shows "Glob (path_Join [pl_cacheDir p, i @ ''*'']) (paths (pl_disk p)) =
    Some (filter (\<lambda>w. \<exists>u. w = dir_prefix (pl_cacheDir p) @ i @ u \<and> slash \<notin> set u) (paths (pl_disk p)))"
  using Glob_literal_star [OF assms(2)] path_Join_name [OF plain_star [OF assms(1)]] by simp


text \<open>A cache with the files of two tracks, and a file beside the cache directory.\<close>

definition demoFiles :: Disk where
  "demoFiles =
     \<lparr>dk_files = [(''cache/0a0a0a0a0a0a0a0a.opus'', 10), (''cache/0d0d0d0d0d0d0d0d.m4a'', 20), (''secret.txt'', 5)],
      dk_dirs = [''cache'']\<rparr>"

definition demoCache :: Pipeline where
  "demoCache = New_pipeline ''cache'' ''http://h'' demoFiles"




text \<open>
  With two dots in the identifier the files removed need not be in the cache directory at all.
\<close>

lemma upload_source_escapes_cache:
  "idFor demoHash ''upload://../secret'' = ''../secret''
   \<and> Stat ''secret.txt'' (pl_disk demoCache) = Some 5
   \<and> Stat ''secret.txt'' (pl_disk (delete_all demoTools (idFor demoHash ''upload://../secret'') demoCache)) = None"
  by code_simp

end
