(* ===== verification/Serve.thy ===== *)
theory Serve
  imports Hls
begin

section \<open>Serving media files (internal/media/stream.go)\<close>

text \<open>
  The routes under \<^verbatim>\<open>/media/\<close>: playlists, segments and complete files. Headers other than the content
  type, ranges and the transfer itself are left to \<^verbatim>\<open>net/http\<close>.
\<close>

definition validMediaID :: "string \<Rightarrow> bool" where
  "validMediaID i \<longleftrightarrow> i \<noteq> [] \<and> \<not> ContainsAny i [slash, CHR 0x5C] \<and> \<not> Contains i ''..''"

definition hlsPlaylistID :: "string \<Rightarrow> string option" where
  "hlsPlaylistID name =
     (case CutSuffix name ''/index.m3u8'' of
        None \<Rightarrow> None
      | Some i \<Rightarrow> if \<not> validMediaID i then None else Some i)"

definition hlsSegmentID :: "string \<Rightarrow> (string \<times> int) option" where
  "hlsSegmentID name =
     (case Cut ''/seg/'' name of
        None \<Rightarrow> None
      | Some (i, rest) \<Rightarrow>
          if \<not> validMediaID i \<or> \<not> suffix ''.ts'' rest then None
          else (case ParseInt (TrimSuffix rest ''.ts'') of
                  None \<Rightarrow> None
                | Some n \<Rightarrow> if n < 0 then None else Some (i, n)))"

definition media_file :: "bool \<Rightarrow> string \<Rightarrow> string \<Rightarrow> Pipeline \<Rightarrow> response" where
  "media_file openOK key ext p =
     (if \<not> validMediaID key then NotFound
      else
        let final = path_Join [pl_cacheDir p, key @ ext] in
        if Stat final (pl_disk p) = None then NotFound
        else if \<not> openOK then InternalServerError
        else ServeFile (if ext = ''.m4a'' then ''audio/mp4'' else []) final)"

definition ServeMedia ::
  "(Track \<Rightarrow> int \<Rightarrow> bool) \<Rightarrow> bool \<Rightarrow> string \<Rightarrow> Pipeline \<Rightarrow> response \<times> thread list" where
  "ServeMedia ensured openOK path p =
     (let name = TrimPrefix path ''/media/'' in
      case hlsPlaylistID name of
        Some i \<Rightarrow> (serveHLSPlaylist i p, [])
      | None \<Rightarrow>
          (case hlsSegmentID name of
             Some (i, n) \<Rightarrow> serveHLSSegment ensured openOK i n p
           | None \<Rightarrow>
               (case CutSuffix name ''.opus'' of
                  Some key \<Rightarrow> (media_file openOK key ''.opus'' p, [])
                | None \<Rightarrow>
                    (case CutSuffix name ''.m4a'' of
                       Some key \<Rightarrow> (media_file openOK key ''.m4a'' p, [])
                     | None \<Rightarrow> (NotFound, [])))))"

end
