(* ===== verification/Serve_Props.thy ===== *)
theory Serve_Props
  imports Serve Media_Props
begin

section \<open>Properties of the playlist and of the media routes\<close>

subsection \<open>Segments of a track\<close>

definition durations_fit :: "int \<Rightarrow> bool" where
  "durations_fit d \<longleftrightarrow> 0 < d \<and> d < 2 ^ 63 - 6000"

lemma segment_count_eq: "durations_fit d \<Longrightarrow> segment_count d = (d + 5999) div 6000"
  by (simp add: segment_count_def hlsSegmentMs_def durations_fit_def in64_def signed_divide_int_def)

lemma segment_start_eq:
  "durations_fit d \<Longrightarrow> 0 \<le> n \<Longrightarrow> n < segment_count d \<Longrightarrow> segment_start n = n * 6000 \<and> n * 6000 < d"
proof -
  assume d: "durations_fit d" and n: "0 \<le> n" "n < segment_count d"
  from n(2) have "n + 1 \<le> (d + 5999) div 6000" by (simp add: segment_count_eq [OF d])
  moreover have "6000 * ((d + 5999) div 6000) \<le> d + 5999" by simp
  ultimately have lt: "n * 6000 < d" by linarith
  with d n(1) have "in64 (n * 6000)" by (auto simp: in64_def durations_fit_def)
  with lt show ?thesis by (simp add: segment_start_def hlsSegmentMs_def)
qed

lemma segment_dur_eq:
  assumes "durations_fit d" "0 \<le> n" "n < segment_count d"
  shows "segment_dur d n = min 6000 (d - n * 6000)" "playlist_dur d n = segment_dur d n"
  using segment_start_eq [OF assms] assms(1,2)
  by (simp_all add: segment_dur_def playlist_dur_def segment_start_def hlsSegmentMs_def durations_fit_def in64_def Let_def min_def)

text \<open>
  C20: The segments of a track tile it: there is at least one; each starts where the one before it ends,
  is not empty and at most six seconds long, which is the target duration the playlist announces;
  the last one ends where the track does; and the length in the playlist is the one that is cut.
\<close>

theorem segments_tile_track:
  assumes "durations_fit d"
  shows "0 < segment_count d \<and> segment_start 0 = 0
    \<and> (\<forall>n. 0 \<le> n \<and> n < segment_count d \<longrightarrow>
         0 < segment_dur d n \<and> segment_dur d n \<le> hlsSegmentMs \<and> playlist_dur d n = segment_dur d n
       \<and> segment_start n + segment_dur d n = (if n + 1 < segment_count d then segment_start (n + 1) else d))"
proof (intro conjI allI impI)
  show "0 < segment_count d" using assms segment_count_eq [OF assms] pos_imp_zdiv_pos_iff [of 6000 "d + 5999"]
    by (simp add: durations_fit_def)
  show "segment_start 0 = 0" by (simp add: segment_start_def in64_def)
  fix n assume n: "0 \<le> n \<and> n < segment_count d"
  then have n': "0 \<le> n" "n < segment_count d" by auto
  note s = segment_start_eq [OF assms n'] and d = segment_dur_eq [OF assms n']
  show "0 < segment_dur d n" "segment_dur d n \<le> hlsSegmentMs" "playlist_dur d n = segment_dur d n"
    using s d by (simp_all add: hlsSegmentMs_def)
  show "segment_start n + segment_dur d n = (if n + 1 < segment_count d then segment_start (n + 1) else d)"
  proof (cases "n + 1 < segment_count d")
    case True
    with segment_start_eq [OF assms, of "n + 1"] n'(1) s d(1) show ?thesis by simp
  next
    case False
    with n' assms have "d \<le> (n + 1) * 6000" by (simp add: segment_count_eq)
    with False s d(1) show ?thesis by simp
  qed
qed

theorem segments_tile_track_witness:
  "0 < segment_count 700000 \<and> segment_start 0 = 0
    \<and> segment_start 116 + segment_dur 700000 116 = 700000 \<and> segment_dur 700000 116 = 4000"
proof -
  have "durations_fit 700000" by (simp add: durations_fit_def)
  from segments_tile_track [OF this] segment_dur_eq [OF this, of 116] segment_start_eq [OF this, of 116]
    segment_count_eq [OF this] show ?thesis by simp
qed

subsection \<open>The lines of the playlist\<close>

fun body_lines :: "response \<Rightarrow> string list" where
  "body_lines (Text ct body) = split_on newline body"
| "body_lines _ = []"

definition segment_line :: "int \<Rightarrow> string" where
  "segment_line n = ''seg/'' @ FormatInt n @ ''.ts''"

lemma split_line: "newline \<notin> set l \<Longrightarrow> split_on newline (l @ line_end @ r) = l # split_on newline r"
  by (simp add: line_end_def split_on_append split_on_single)

lemma newline_not_digit: "\<not> is_digit newline"
  by (simp add: newline_def is_digit_def)

lemma newline_FormatInt: "newline \<notin> set (FormatInt n)"
  using digits_are_digits newline_not_digit by (auto simp: FormatInt_def newline_def)

lemma newline_pad: "newline \<notin> set s \<Longrightarrow> newline \<notin> set (pad_left w s)"
  by (auto simp: pad_left_def newline_def)

lemma newline_format: "newline \<notin> set (format_seconds ms)"
  using newline_FormatInt newline_pad by (auto simp: format_seconds_def newline_def)

lemma newline_segment_line: "newline \<notin> set (segment_line n)"
  using newline_FormatInt [of n] by (auto simp: segment_line_def newline_def)

lemma split_entry:
  "split_on newline (playlist_entry d n @ r)
     = (''#EXTINF:'' @ formatHLSDuration (playlist_dur d n) @ '','') # segment_line n # split_on newline r"
proof -
  have "playlist_entry d n @ r = (''#EXTINF:'' @ formatHLSDuration (playlist_dur d n) @ '','') @ line_end
      @ segment_line n @ line_end @ r"
    by (simp add: playlist_entry_def segment_line_def)
  moreover have "newline \<notin> set (''#EXTINF:'' @ formatHLSDuration (playlist_dur d n) @ '','')"
    using newline_format by (auto simp: formatHLSDuration_def newline_def)
  ultimately show ?thesis by (simp only: split_line newline_segment_line not_False_eq_True)
qed

lemma loop_lines:
  "segment_line k \<in> set (split_on newline (playlist_loop d c i @ r))
     \<longleftrightarrow> (\<exists>n. i \<le> n \<and> n < c \<and> segment_line k = segment_line n) \<or> segment_line k \<in> set (split_on newline r)"
proof (induction d c i rule: playlist_loop.induct)
  case (1 d c i)
  show ?case
  proof (cases "i < c")
    case True
    then have "(\<exists>n. i \<le> n \<and> n < c \<and> P n) \<longleftrightarrow> P i \<or> (\<exists>n. i + 1 \<le> n \<and> n < c \<and> P n)" for P
      by (metis add1_zle_eq order_le_less)
    with True "1.IH" [OF True] show ?thesis
      by (simp add: playlist_loop.simps [of d c i] split_entry) (simp add: segment_line_def)
  next
    case False
    then show ?thesis by (auto simp: playlist_loop.simps [of d c i])
  qed
qed

lemma segment_line_inj: "in64 n \<Longrightarrow> in64 m \<Longrightarrow> segment_line n = segment_line m \<longleftrightarrow> n = m"
  using FormatInt_inj by (simp add: segment_line_def)

lemma split_lines:
  "list_all (\<lambda>l. newline \<notin> set l) ls
     \<Longrightarrow> split_on newline (concat (List.map (\<lambda>l. l @ line_end) ls) @ r) = ls @ split_on newline r"
  by (induction ls) (simp_all add: split_line)

definition playlist_header :: "string list" where
  "playlist_header =
     [''#EXTM3U'', ''#EXT-X-VERSION:3'', ''#EXT-X-INDEPENDENT-SEGMENTS'', ''#EXT-X-PLAYLIST-TYPE:VOD'',
      ''#EXT-X-TARGETDURATION:6'', ''#EXT-X-MEDIA-SEQUENCE:0'']"

lemma playlist_text_lines:
  "playlist_text d = concat (List.map (\<lambda>l. l @ line_end) playlist_header)
     @ playlist_loop d (segment_count d) 0 @ concat (List.map (\<lambda>l. l @ line_end) [''#EXT-X-ENDLIST'']) @ []"
proof -
  have "FormatInt ((hlsSegmentMs + 999) sdiv 1000) = ''6''" by code_simp
  then show ?thesis unfolding playlist_text_def by (simp add: playlist_header_def)
qed

lemma playlist_lines:
  "segment_line k \<in> set (split_on newline (playlist_text d))
     \<longleftrightarrow> (\<exists>n. 0 \<le> n \<and> n < segment_count d \<and> segment_line k = segment_line n)"
proof -
  have h: "list_all (\<lambda>l. newline \<notin> set l) playlist_header" "list_all (\<lambda>l. newline \<notin> set l) [''#EXT-X-ENDLIST'']"
    by (simp_all add: playlist_header_def newline_def)
  have "segment_line k \<notin> set playlist_header" "segment_line k \<notin> set [''#EXT-X-ENDLIST'', []]"
    by (simp_all add: playlist_header_def segment_line_def)
  then show ?thesis
    unfolding playlist_text_lines split_lines [OF h(1)] set_append Un_iff loop_lines split_lines [OF h(2)]
    by simp
qed

subsection \<open>Playlist and segment requests agree\<close>

text \<open>
  C11: The playlist of a track names exactly the segments the server will serve: a segment number stands
  in a line of the answer to a playlist request if and only if a request for that segment is
  not answered with 404, provided making and opening it succeed.
\<close>

theorem playlist_lists_served_segments:
  assumes "in64 n" and "\<And>t. hls_track i p = Some t \<Longrightarrow> durations_fit (tr_DurationMs t)"
  shows "segment_line n \<in> set (body_lines (serveHLSPlaylist i p))
    \<longleftrightarrow> fst (serveHLSSegment (\<lambda>t m. True) True i n p) \<noteq> NotFound"
proof (cases "hls_track i p")
  case None
  then show ?thesis by (simp add: serveHLSPlaylist_def serveHLSSegment_def)
next
  case (Some t)
  have "in64 m" if "0 \<le> m" "m < segment_count (tr_DurationMs t)" for m
    using segment_start_eq [OF assms(2) [OF Some] that] that(1) assms(2) [OF Some]
    by (simp add: in64_def durations_fit_def)
  then have "(\<exists>m. 0 \<le> m \<and> m < segment_count (tr_DurationMs t) \<and> segment_line n = segment_line m)
      \<longleftrightarrow> 0 \<le> n \<and> n < segment_count (tr_DurationMs t)"
    using segment_line_inj [OF assms(1)] by blast
  with Some show ?thesis
    by (simp add: serveHLSPlaylist_def serveHLSSegment_def playlist_lines segment_in_range_def not_le not_less Let_def)
qed

text \<open>The long track of the small pipeline, ready.\<close>

definition demoReady :: Pipeline where
  "demoReady = snd (demoRun demoSegments)"

lemma demoReady_track: "gget (pl_tracks demoReady) ''0d0d0d0d0d0d0d0d'' = Some demoLong"
  by code_simp

lemma demoReady_hls: "hls_track ''0d0d0d0d0d0d0d0d'' demoReady = Some demoLong"
  by (simp add: hls_track_def Get_track_def demoReady_track) (simp add: demoLong_def uploadPrefix_def)

theorem playlist_lists_served_segments_witness:
  "segment_line 116 \<in> set (body_lines (serveHLSPlaylist ''0d0d0d0d0d0d0d0d'' demoReady))
     \<longleftrightarrow> fst (serveHLSSegment (\<lambda>t m. True) True ''0d0d0d0d0d0d0d0d'' 116 demoReady) \<noteq> NotFound"
proof -
  have "durations_fit (tr_DurationMs t)" if "hls_track ''0d0d0d0d0d0d0d0d'' demoReady = Some t" for t
    using that by (auto simp: demoReady_hls durations_fit_def demoLong_def)
  moreover have "in64 116" by (simp add: in64_def)
  ultimately show ?thesis by (intro playlist_lists_served_segments)
qed

subsection \<open>Routes\<close>

lemma validMediaID_plain: "validMediaID i \<Longrightarrow> i \<noteq> [] \<and> slash \<notin> set i"
  by (auto simp: validMediaID_def ContainsAny_iff)

lemma no_slash_no_playlist: "slash \<notin> set n \<Longrightarrow> hlsPlaylistID n = None"
  by (auto simp: hlsPlaylistID_def CutSuffix_def suffix_def slash_def)

lemma no_slash_no_segment: "slash \<notin> set n \<Longrightarrow> hlsSegmentID n = None"
  by (auto simp: hlsSegmentID_def slash_def split: option.split dest!: Cut_Some)

lemma CutSuffix_last: "suf \<noteq> [] \<Longrightarrow> s \<noteq> [] \<Longrightarrow> last s \<noteq> last suf \<Longrightarrow> CutSuffix s suf = None"
  by (auto simp: CutSuffix_def suffix_def)

lemma hlsSegmentID_path:
  assumes "validMediaID i" "0 \<le> n" "in64 n"
  shows "hlsSegmentID (i @ ''/'' @ segment_line n) = Some (i, n)"
proof -
  have "i @ ''/'' @ segment_line n = i @ ''/seg/'' @ (FormatInt n @ ''.ts'')"
    by (simp add: segment_line_def)
  moreover have "Cut ''/seg/'' (i @ ''/seg/'' @ (FormatInt n @ ''.ts'')) = Some (i, FormatInt n @ ''.ts'')"
    using validMediaID_plain [OF assms(1)] by (intro Cut_append [of _ slash]) (simp_all add: slash_def)
  ultimately show ?thesis
    using assms TrimSuffix_append [of "FormatInt n" "''.ts''"]
    by (simp add: hlsSegmentID_def del: append_Cons append_Nil) (simp add: suffix_def)
qed

lemma ServeMedia_name [simp]: "TrimPrefix (''/media/'' @ name) ''/media/'' = name"
  by (rule TrimPrefix_append)

lemma serve_playlist:
  "validMediaID i \<Longrightarrow> ServeMedia e ok (''/media/'' @ i @ ''/index.m3u8'') p = (serveHLSPlaylist i p, [])"
  by (simp only: ServeMedia_def ServeMedia_name Let_def hlsPlaylistID_def CutSuffix_append option.case)
    simp

lemma serve_segment:
  assumes "validMediaID i" "0 \<le> n" "in64 n"
  shows "ServeMedia e ok (''/media/'' @ i @ ''/'' @ segment_line n) p = serveHLSSegment e ok i n p"
proof -
  have "hlsPlaylistID (i @ ''/'' @ segment_line n) = None"
    by (simp add: hlsPlaylistID_def CutSuffix_last segment_line_def)
  then show ?thesis
    by (simp only: ServeMedia_def ServeMedia_name Let_def hlsSegmentID_path [OF assms] option.case prod.case)
qed

lemma serve_file:
  assumes "validMediaID i" and "x = ''.opus'' \<or> x = ''.m4a''"
  shows "ServeMedia e ok (''/media/'' @ i @ x) p = (media_file ok i x p, [])"
proof -
  have "slash \<notin> set (i @ x)" using validMediaID_plain [OF assms(1)] assms(2) by (auto simp: slash_def)
  note n = no_slash_no_playlist [OF this] no_slash_no_segment [OF this]
  have "CutSuffix (i @ ''.m4a'') ''.opus'' = None" by (rule CutSuffix_last) simp_all
  then show ?thesis
    using assms(2) CutSuffix_append
    by (auto simp only: ServeMedia_def ServeMedia_name Let_def n option.case)
qed

text \<open>
  C19: Every address the pipeline announces is one the server serves: for a ready track whose identifier
  is a media identifier, the path of its address leads to its own file, complete file or
  playlist, and the lines of the playlist, taken relative to it, lead to its own segments.
\<close>

theorem announced_urls_are_served:
  assumes "media_reachable sha256 (media_start cacheDir baseURL disk) (ths, p)"
    and "gget (pl_tracks p) i = Some t" and "tr_Status t = StatusReady" and "validMediaID i"
  shows "\<exists>x. tr_FileURL t = pl_baseURL p @ ''/media/'' @ i @ x
    \<and> (x = ''/index.m3u8'' \<and> ServeMedia e ok (''/media/'' @ i @ x) p = (serveHLSPlaylist i p, [])
          \<and> (\<forall>n \<ge> 0. in64 n \<longrightarrow> ServeMedia e ok (''/media/'' @ i @ ''/'' @ segment_line n) p = serveHLSSegment e ok i n p)
      \<or> (x = ''.opus'' \<or> x = ''.m4a'') \<and> ServeMedia e ok (''/media/'' @ i @ x) p = (media_file ok i x p, []))"
proof -
  from media_reachable_ok [OF assms(1)] assms(2) have "track_typed sha256 p i t"
    by (simp add: media_ok_def table_typed_def)
  with assms(3) have "own_url p i (tr_FileURL t)" by (auto simp: track_typed_def status_typed_def)
  then obtain x where "tr_FileURL t = pl_baseURL p @ ''/media/'' @ i @ x"
    and "x = ''/index.m3u8'' \<or> x = ''.opus'' \<or> x = ''.m4a''"
    by (auto simp: own_url_def mediaURL_def)
  with serve_playlist [OF assms(4)] serve_segment [OF assms(4)] serve_file [OF assms(4)]
  show ?thesis by blast
qed

theorem announced_urls_are_served_witness:
  "\<exists>x. tr_FileURL demoLong = pl_baseURL demoReady @ ''/media/'' @ ''0d0d0d0d0d0d0d0d'' @ x
     \<and> (x = ''/index.m3u8'' \<or> x = ''.opus'' \<or> x = ''.m4a'')"
proof -
  have r: "media_reachable demoHash (media_start ''cache'' ''http://h'' no_files) (fst (demoRun demoSegments), demoReady)"
    using demo_start [of demoSegments] by (simp add: demoReady_def)
  have "tr_Status demoLong = StatusReady" "validMediaID ''0d0d0d0d0d0d0d0d''" by code_simp+
  from announced_urls_are_served [OF r demoReady_track this, of "\<lambda>t n. True" True] show ?thesis by blast
qed

lemma plain_segment_name: "plain (segment_name n)"
proof -
  have "slash \<notin> set (FormatInt n)"
    using digits_are_digits [of slash] by (auto simp: FormatInt_def is_digit_def slash_def)
  then show ?thesis by (auto simp: plain_def segment_name_def pad_left_def slash_def dot_def dotdot_def)
qed

text \<open>
  C12: No request path reaches a file outside the cache directory: whatever the path of a request under
  \<^verbatim>\<open>/media/\<close> is, a file that is served lies below the cache directory, under names without
  separators and dots-only elements.
\<close>

theorem media_paths_stay_in_cache:
  assumes "ServeMedia e ok path p = (ServeFile ct f, ths)"
  shows "\<exists>ns. ns \<noteq> [] \<and> list_all plain ns \<and> f = dir_prefix (pl_cacheDir p) @ join_slash ns"
proof -
  have whole: "\<exists>ns. ns \<noteq> [] \<and> list_all plain ns \<and> f = dir_prefix (pl_cacheDir p) @ join_slash ns"
    if "media_file ok key x p = ServeFile ct f" "x = ''.opus'' \<or> x = ''.m4a''" for key x
  proof -
    have v: "validMediaID key" and f: "f = path_Join [pl_cacheDir p, key @ x]"
      using that(1) by (auto simp: media_file_def Let_def split: if_splits)
    have "plain (key @ x)"
      using validMediaID_plain [OF v] that(2) by (intro plain_ext) (auto simp: slash_def)
    with f show ?thesis by (intro exI [where x = "[key @ x]"]) (simp add: path_Join_name)
  qed
  have seg: "\<exists>ns. ns \<noteq> [] \<and> list_all plain ns \<and> f = dir_prefix (pl_cacheDir p) @ join_slash ns"
    if "serveHLSSegment e ok i n p = (ServeFile ct f, ths)" "validMediaID i" for i n
  proof -
    have f: "f = path_Join [pl_cacheDir p, i @ ''.hls'', segment_name n]"
      using that(1) by (auto simp: serveHLSSegment_def hlsSegmentPath_def Let_def split: option.splits if_splits)
    have "plain (i @ ''.hls'')"
      using validMediaID_plain [OF that(2)] by (intro plain_ext) (auto simp: slash_def)
    with f plain_segment_name show ?thesis
      by (intro exI [where x = "[i @ ''.hls'', segment_name n]"]) (simp add: path_Join_names)
  qed
  have valid: "hlsSegmentID name = Some (i, n) \<Longrightarrow> validMediaID i" for name i n
    by (auto simp: hlsSegmentID_def split: option.splits if_splits)
  show ?thesis
    using assms whole seg valid
    by (fastforce simp: ServeMedia_def serveHLSPlaylist_def Let_def split: option.splits)
qed

lemma demo_file_served:
  "ServeMedia (\<lambda>t n. True) True ''/media/0a0a0a0a0a0a0a0a.opus'' (New_pipeline ''cache'' ''http://h''
      \<lparr>dk_files = [(''cache/0a0a0a0a0a0a0a0a.opus'', 10)], dk_dirs = []\<rparr>)
     = (ServeFile [] ''cache/0a0a0a0a0a0a0a0a.opus'', [])"
  by code_simp

theorem media_paths_stay_in_cache_witness:
  "\<exists>ns. ns \<noteq> [] \<and> list_all plain ns \<and> ''cache/0a0a0a0a0a0a0a0a.opus'' = dir_prefix ''cache'' @ join_slash ns"
  using media_paths_stay_in_cache [OF demo_file_served] by (simp add: New_pipeline_def)

end
