(* ===== verification/Broadcaster.thy ===== *)
theory Broadcaster
  imports Protocol "HOL-Library.Signed_Division"
begin

section \<open>The WebRTC broadcaster of a room (internal/rtc/broadcaster.go)\<close>

text \<open>
  A broadcaster has the peer connections of a room's clients and plays one track at a time to all of
  them. A peer connection, a channel and a context are numbers; \<open>bc_heap\<close> holds the connections
  ever made. What WebRTC answers (\<open>rtc_env\<close>) is an argument, and the calls made on it are
  \<open>rtc_call\<close>s. A candidate is kept as the JSON it came in; \<open>rtc_env\<close> says whether it decodes.

  A track is played by a goroutine of its own, a \<open>player\<close>, which reads the broadcaster's fields
  and changes none of them. Its steps are the code between two reads of shared state.
\<close>

record peerConn =
  pn_remoteSet :: bool
  pn_pending :: "json list"

record Broadcaster =
  bc_peers :: "(string, nat) gomap"
  bc_bitrate :: int
  bc_cancel :: "nat option"
  bc_paused :: bool
  bc_resumeCh :: nat
  bc_closed :: bool
  bc_heap :: "(nat, peerConn) gomap"
  bc_nextPeer :: nat
  bc_cancelled :: "nat list"
  bc_nextCtx :: nat
  bc_closedChs :: "nat list"
  bc_nextCh :: nat
  bc_crashed :: bool

record rtc_env =
  rv_newPeer :: bool                  \<comment> \<open>\<^verbatim>\<open>NewPeerConnection\<close> succeeds\<close>
  rv_addTrack :: bool                 \<comment> \<open>\<^verbatim>\<open>AddTrack\<close> succeeds\<close>
  rv_offer :: "string option"         \<comment> \<open>the description \<^verbatim>\<open>CreateOffer\<close> returns\<close>
  rv_setLocal :: bool                 \<comment> \<open>\<^verbatim>\<open>SetLocalDescription\<close> succeeds\<close>
  rv_setRemote :: "string \<Rightarrow> bool"     \<comment> \<open>\<^verbatim>\<open>SetRemoteDescription\<close> takes the answer\<close>
  rv_decodes :: "json \<Rightarrow> bool"         \<comment> \<open>a candidate decodes\<close>

datatype rtc_call =
    SendSignal string Envelope
  | AddCandidate nat json
  | ClosePeer nat

type_synonym rtc_op = "Broadcaster \<Rightarrow> Broadcaster \<times> rtc_call list"

text \<open>\<^verbatim>\<open>New\<close>, when registering the codec and making the track succeed; if not, there is no broadcaster.\<close>

definition New_broadcaster :: Broadcaster where
  "New_broadcaster =
     \<lparr>bc_peers = [], bc_bitrate = StreamBitrateDefaultKbps, bc_cancel = None, bc_paused = False,
      bc_resumeCh = 0, bc_closed = False, bc_heap = [], bc_nextPeer = 0, bc_cancelled = [],
      bc_nextCtx = 0, bc_closedChs = [], bc_nextCh = 1, bc_crashed = False\<rparr>"

subsection \<open>Peers\<close>

definition removePeer :: "string \<Rightarrow> rtc_op" where
  "removePeer clientID b =
     (b\<lparr>bc_peers := gdel clientID (bc_peers b)\<rparr>,
      case gget (bc_peers b) clientID of None \<Rightarrow> [] | Some pc \<Rightarrow> [ClosePeer pc])"

definition RemovePeer :: "string \<Rightarrow> rtc_op" where
  "RemovePeer clientID = removePeer clientID"

text \<open>The section of \<^verbatim>\<open>addPeer\<close> under the mutex: the new connection, if there is one.\<close>

definition addPeer_locked :: "rtc_env \<Rightarrow> string \<Rightarrow> Broadcaster \<Rightarrow> Broadcaster \<times> rtc_call list \<times> nat option" where
  "addPeer_locked env clientID b =
     (if bc_closed b then (b, [], None)
      else if \<not> rv_newPeer env then (b, [], None)
      else
        let pc = bc_nextPeer b; b = b\<lparr>bc_nextPeer := Suc pc\<rparr> in
        if \<not> rv_addTrack env then (b, [ClosePeer pc], None)
        else (b\<lparr>bc_heap := gset pc \<lparr>pn_remoteSet = False, pn_pending = []\<rparr> (bc_heap b),
                bc_peers := gset clientID pc (bc_peers b)\<rparr>, [], Some pc))"

definition rtc_envelope :: "string \<Rightarrow> string \<Rightarrow> json option \<Rightarrow> Envelope" where
  "rtc_envelope kind sdp cand =
     MustEncode TypeRTC (json_of_RTCSignal \<lparr>rtc_Kind = kind, rtc_SDP = sdp, rtc_Candidate = cand\<rparr>)"

text \<open>After unlocking, the offer is made and sent; a failure takes the peer out again.\<close>

definition send_offer :: "rtc_env \<Rightarrow> string \<Rightarrow> rtc_op" where
  "send_offer env clientID b =
     (case rv_offer env of
        None \<Rightarrow> removePeer clientID b
      | Some sdp \<Rightarrow>
          if \<not> rv_setLocal env then removePeer clientID b
          else (b, [SendSignal clientID (rtc_envelope RTCOffer sdp None)]))"

definition addPeer :: "rtc_env \<Rightarrow> string \<Rightarrow> rtc_op" where
  "addPeer env clientID b =
     (let (b, cs) = removePeer clientID b;
          (b, ds, pc) = addPeer_locked env clientID b
      in case pc of
           None \<Rightarrow> (b, cs @ ds)
         | Some _ \<Rightarrow> (let (b, es) = send_offer env clientID b in (b, cs @ ds @ es)))"

text \<open>
  The handlers \<^verbatim>\<open>addPeer\<close> installs on a connection. They know the client, not which of its connections
  they belong to.
\<close>

definition onICECandidate :: "string \<Rightarrow> json option \<Rightarrow> rtc_op" where
  "onICECandidate clientID c b =
     (b, case c of None \<Rightarrow> [] | Some raw \<Rightarrow> [SendSignal clientID (rtc_envelope RTCICE [] (Some raw))])"

datatype peer_state = Failed | ClosedState | OtherState

definition onConnectionStateChange :: "string \<Rightarrow> peer_state \<Rightarrow> rtc_op" where
  "onConnectionStateChange clientID s b =
     (if s = Failed \<or> s = ClosedState then removePeer clientID b else (b, []))"

definition onAnswer :: "rtc_env \<Rightarrow> string \<Rightarrow> string \<Rightarrow> rtc_op" where
  "onAnswer env clientID sdp b =
     (case gget (bc_peers b) clientID of
        None \<Rightarrow> (b, [])
      | Some pc \<Rightarrow>
          if \<not> rv_setRemote env sdp then (b, [])
          else (case gget (bc_heap b) pc of
                  None \<Rightarrow> (b, [])
                | Some p \<Rightarrow>
                    (b\<lparr>bc_heap := gset pc \<lparr>pn_remoteSet = True, pn_pending = []\<rparr> (bc_heap b)\<rparr>,
                     List.map (AddCandidate pc) (pn_pending p))))"

definition onRemoteICE :: "rtc_env \<Rightarrow> string \<Rightarrow> json option \<Rightarrow> rtc_op" where
  "onRemoteICE env clientID raw b =
     (case raw of
        None \<Rightarrow> (b, [])
      | Some init \<Rightarrow>
          if \<not> rv_decodes env init then (b, [])
          else (case gget (bc_peers b) clientID of
                  None \<Rightarrow> (b, [])
                | Some pc \<Rightarrow>
                    (case gget (bc_heap b) pc of
                       None \<Rightarrow> (b, [])
                     | Some p \<Rightarrow>
                         if \<not> pn_remoteSet p
                         then (b\<lparr>bc_heap := gset pc (p\<lparr>pn_pending := pn_pending p @ [init]\<rparr>) (bc_heap b)\<rparr>, [])
                         else (b, [AddCandidate pc init]))))"

definition HandleSignal :: "rtc_env \<Rightarrow> string \<Rightarrow> RTCSignal \<Rightarrow> rtc_op" where
  "HandleSignal env clientID sig b =
     (if rtc_Kind sig = RTCJoin then addPeer env clientID b
      else if rtc_Kind sig = RTCAnswer then onAnswer env clientID (rtc_SDP sig) b
      else if rtc_Kind sig = RTCICE then onRemoteICE env clientID (rtc_Candidate sig) b
      else (b, []))"

subsection \<open>Playing\<close>

definition BSetBitrate :: "int \<Rightarrow> Broadcaster \<Rightarrow> Broadcaster" where
  "BSetBitrate kbps b = b\<lparr>bc_bitrate := kbps\<rparr>"

definition close_ch :: "nat \<Rightarrow> Broadcaster \<Rightarrow> Broadcaster" where
  "close_ch ch b =
     (if ch \<in> set (bc_closedChs b) then b\<lparr>bc_crashed := True\<rparr>
      else b\<lparr>bc_closedChs := ch # bc_closedChs b\<rparr>)"

definition BStop :: "Broadcaster \<Rightarrow> Broadcaster" where
  "BStop b =
     (let cancel = bc_cancel b;
          ch = bc_resumeCh b;
          b = b\<lparr>bc_cancel := None, bc_paused := False, bc_resumeCh := bc_nextCh b,
                bc_nextCh := Suc (bc_nextCh b)\<rparr>;
          b = (case cancel of None \<Rightarrow> b | Some c \<Rightarrow> b\<lparr>bc_cancelled := c # bc_cancelled b\<rparr>)
      in close_ch ch b)"

datatype player =
    PlResolve nat Track int              \<comment> \<open>context, track, bitrate\<close>
  | PlStart nat string int               \<comment> \<open>context, input, bitrate\<close>
  | PlLoop nat int nat                   \<comment> \<open>context, last granule position, page\<close>
  | PlWait nat int nat
  | PlBlocked nat int nat nat            \<comment> \<open>and the channel it waits for\<close>
  | PlRead nat int nat
  | PlFinish nat
  | PlEnd nat

text \<open>\<^verbatim>\<open>Play\<close> after its \<^verbatim>\<open>Stop\<close>: the goroutine it starts, unless the broadcaster is closed.\<close>

definition BPlay_start :: "Track \<Rightarrow> Broadcaster \<Rightarrow> player list \<times> Broadcaster" where
  "BPlay_start track b =
     (if bc_closed b then ([], b)
      else let ctx = bc_nextCtx b
           in ([PlResolve ctx track (bc_bitrate b)],
               b\<lparr>bc_cancel := Some ctx, bc_nextCtx := Suc ctx\<rparr>))"

definition BPlay :: "Track \<Rightarrow> Broadcaster \<Rightarrow> player list \<times> Broadcaster" where
  "BPlay track b = BPlay_start track (BStop b)"

definition BPause :: "Broadcaster \<Rightarrow> Broadcaster" where
  "BPause b = b\<lparr>bc_paused := True\<rparr>"

definition BResume :: "Broadcaster \<Rightarrow> Broadcaster" where
  "BResume b =
     (if \<not> bc_paused b then b
      else close_ch (bc_resumeCh b)
             (b\<lparr>bc_paused := False, bc_resumeCh := bc_nextCh b, bc_nextCh := Suc (bc_nextCh b)\<rparr>))"

definition BClose :: rtc_op where
  "BClose b =
     (let b = BStop b
      in (b\<lparr>bc_closed := True, bc_peers := []\<rparr>, List.map (\<lambda>(_, pc). ClosePeer pc) (bc_peers b)))"

subsection \<open>The goroutine that plays\<close>

definition pump_args :: "string \<Rightarrow> int \<Rightarrow> string list" where
  "pump_args input bitrate =
     [''ffmpeg'', ''-hide_banner'', ''-loglevel'', ''error'', ''-i'', input,
      ''-vn'', ''-c:a'', ''libopus'', ''-b:a'', FormatInt bitrate @ ''k'',
      ''-ar'', ''48000'', ''-ac'', ''2'', ''-page_duration'', ''20000'', ''-f'', ''ogg'', ''pipe:1'']"

text \<open>The environment of one step: the next page of the stream is its granule position.\<close>

record pump_env =
  pm_resolve :: "Track \<Rightarrow> string option"
  pm_starts :: "string list \<Rightarrow> bool"   \<comment> \<open>pipe, start and stream header are fine\<close>
  pm_page :: "(int \<times> json) option"
  pm_writes :: bool

datatype rtc_output = Sample nat json int | OnEnd nat

text \<open>
  The granule position is a \<^verbatim>\<open>uint64\<close>; the difference of two is turned into a duration in nanoseconds,
  an \<^verbatim>\<open>int64\<close>.
\<close>

definition sample_dur :: "int \<Rightarrow> int \<Rightarrow> int" where
  "sample_dur granule lastGranule =
     (let sampleCount = (granule - lastGranule) mod 2 ^ 64
      in wrap64 (wrap64 sampleCount * 1000000000) sdiv 48000)"

abbreviation ctx_done :: "nat \<Rightarrow> Broadcaster \<Rightarrow> bool" where
  "ctx_done ctx b \<equiv> ctx \<in> set (bc_cancelled b)"

fun player_step :: "pump_env \<Rightarrow> player \<Rightarrow> Broadcaster \<Rightarrow> (player list \<times> rtc_output list) option" where
  "player_step env (PlResolve ctx track bitrate) b =
     (case pm_resolve env track of
        None \<Rightarrow> Some ([PlFinish ctx], [])
      | Some input \<Rightarrow> Some ([PlStart ctx input bitrate], []))"
| "player_step env (PlStart ctx input bitrate) b =
     (if \<not> ctx_done ctx b \<and> pm_starts env (pump_args input bitrate) then Some ([PlLoop ctx 0 0], [])
      else Some ([PlFinish ctx], []))"
| "player_step env (PlLoop ctx lastGranule page) b =
     (if ctx_done ctx b then Some ([], []) else Some ([PlWait ctx lastGranule page], []))"
| "player_step env (PlWait ctx lastGranule page) b =
     (if \<not> bc_paused b \<or> bc_closed b
      then Some (if ctx_done ctx b then [] else [PlRead ctx lastGranule page], [])
      else Some ([PlBlocked ctx lastGranule page (bc_resumeCh b)], []))"
| "player_step env (PlBlocked ctx lastGranule page ch) b =
     (if ctx_done ctx b then Some ([], [])
      else if ch \<in> set (bc_closedChs b) then Some ([PlWait ctx lastGranule page], [])
      else None)"
| "player_step env (PlRead ctx lastGranule page) b =
     (case pm_page env of
        None \<Rightarrow> Some ([PlFinish ctx], [])
      | Some (granule, content) \<Rightarrow>
          if Suc page \<le> 2 then Some ([PlLoop ctx granule (Suc page)], [])
          else if pm_writes env
          then Some ([PlLoop ctx granule (Suc page)], [Sample ctx content (sample_dur granule lastGranule)])
          else Some ([PlFinish ctx], []))"
| "player_step env (PlFinish ctx) b = Some (if ctx_done ctx b then [] else [PlEnd ctx], [])"
| "player_step env (PlEnd ctx) b = Some ([], [OnEnd ctx])"

fun player_ctx :: "player \<Rightarrow> nat" where
  "player_ctx (PlResolve ctx t r) = ctx" | "player_ctx (PlStart ctx i r) = ctx"
| "player_ctx (PlLoop ctx g n) = ctx" | "player_ctx (PlWait ctx g n) = ctx"
| "player_ctx (PlBlocked ctx g n ch) = ctx" | "player_ctx (PlRead ctx g n) = ctx"
| "player_ctx (PlFinish ctx) = ctx" | "player_ctx (PlEnd ctx) = ctx"

subsection \<open>All together\<close>

datatype rtc_request =
    RqSignal rtc_env string RTCSignal
  | RqState string peer_state
  | RqCandidate string "json option"
  | RqRemove string
  | RqBitrate int
  | RqPlay Track
  | RqStop
  | RqPause
  | RqResume
  | RqClose

fun rtc_serve :: "rtc_request \<Rightarrow> Broadcaster \<Rightarrow> player list \<times> Broadcaster \<times> rtc_call list" where
  "rtc_serve (RqSignal env c s) b = ([], HandleSignal env c s b)"
| "rtc_serve (RqState c s) b = ([], onConnectionStateChange c s b)"
| "rtc_serve (RqCandidate c raw) b = ([], onICECandidate c raw b)"
| "rtc_serve (RqRemove c) b = ([], RemovePeer c b)"
| "rtc_serve (RqBitrate k) b = ([], BSetBitrate k b, [])"
| "rtc_serve (RqPlay t) b = (let (ps, b) = BPlay t b in (ps, b, []))"
| "rtc_serve RqStop b = ([], BStop b, [])"
| "rtc_serve RqPause b = ([], BPause b, [])"
| "rtc_serve RqResume b = ([], BResume b, [])"
| "rtc_serve RqClose b = ([], BClose b)"

inductive rtc_step :: "player list \<times> Broadcaster \<Rightarrow> rtc_output list \<Rightarrow> player list \<times> Broadcaster \<Rightarrow> bool" where
  Player: "player_step env pl b = Some (new, outs) \<Longrightarrow> rtc_step (xs @ pl # ys, b) outs (xs @ new @ ys, b)"
| Request: "rtc_serve r b = (new, b', calls) \<Longrightarrow> rtc_step (ps, b) [] (ps @ new, b')"

inductive rtc_reachable :: "player list \<times> Broadcaster \<Rightarrow> bool" where
  Start: "rtc_reachable ([], New_broadcaster)"
| Step: "rtc_reachable s \<Longrightarrow> rtc_step s outs s' \<Longrightarrow> rtc_reachable s'"

end
