(* ===== verification/Broadcaster_Props.thy ===== *)
theory Broadcaster_Props
  imports Broadcaster
begin

section \<open>Properties of the broadcaster\<close>

subsection \<open>The invariant\<close>

text \<open>
  The channel players wait on is open and new; every context but the current one is cancelled; a
  player that waits will be woken; a closed broadcaster has no peers and plays nothing.
\<close>

fun waits_for :: "player \<Rightarrow> nat option" where
  "waits_for (PlBlocked ctx g n ch) = Some ch"
| "waits_for _ = None"

definition chs_ok :: "player list \<Rightarrow> Broadcaster \<Rightarrow> bool" where
  "chs_ok ps b \<longleftrightarrow>
     bc_resumeCh b < bc_nextCh b \<and> bc_resumeCh b \<notin> set (bc_closedChs b)
   \<and> (\<forall>ch \<in> set (bc_closedChs b). ch < bc_nextCh b) \<and> \<not> bc_crashed b
   \<and> (\<forall>pl \<in> set ps. \<forall>ch. waits_for pl = Some ch \<longrightarrow>
        ch \<in> set (bc_closedChs b) \<or> ch = bc_resumeCh b \<and> bc_paused b)"

definition ctxs_ok :: "player list \<Rightarrow> Broadcaster \<Rightarrow> bool" where
  "ctxs_ok ps b \<longleftrightarrow>
     (\<forall>c \<in> set (bc_cancelled b). c < bc_nextCtx b)
   \<and> (\<forall>c. bc_cancel b = Some c \<longrightarrow> c < bc_nextCtx b \<and> \<not> ctx_done c b)
   \<and> (\<forall>c < bc_nextCtx b. ctx_done c b \<or> bc_cancel b = Some c)
   \<and> (\<forall>pl \<in> set ps. player_ctx pl < bc_nextCtx b) \<and> distinct (List.map player_ctx ps)
   \<and> (bc_closed b \<longrightarrow> bc_cancel b = None \<and> bc_peers b = [])"

definition rtc_ok :: "player list \<times> Broadcaster \<Rightarrow> bool" where
  "rtc_ok s \<longleftrightarrow> chs_ok (fst s) (snd s) \<and> ctxs_ok (fst s) (snd s)"

lemma player_step_new:
  "player_step env pl b = Some (new, outs) \<Longrightarrow>
     (new = [] \<or> (\<exists>pl'. new = [pl'] \<and> player_ctx pl' = player_ctx pl
        \<and> (\<forall>ch. waits_for pl' = Some ch \<longrightarrow> ch = bc_resumeCh b \<and> bc_paused b)))"
  by (cases pl) (auto split: option.splits prod.splits if_splits)

lemma player_step_ok:
  assumes "rtc_ok (xs @ pl # ys, b)" and "player_step env pl b = Some (new, outs)"
  shows "rtc_ok (xs @ new @ ys, b)"
proof -
  have ch: "chs_ok (xs @ pl # ys) b" and cx: "ctxs_ok (xs @ pl # ys) b"
    using assms(1) by (simp_all add: rtc_ok_def)
  from player_step_new [OF assms(2)] show ?thesis
  proof (elim disjE exE conjE)
    assume "new = []"
    then show ?thesis using ch cx by (simp add: rtc_ok_def chs_ok_def ctxs_ok_def)
  next
    fix pl' assume n: "new = [pl']" "player_ctx pl' = player_ctx pl"
      "\<forall>ch. waits_for pl' = Some ch \<longrightarrow> ch = bc_resumeCh b \<and> bc_paused b"
    from cx n(2) have "ctxs_ok (xs @ pl' # ys) b" by (simp add: ctxs_ok_def)
    moreover from ch n(3) have "chs_ok (xs @ pl' # ys) b" by (simp add: chs_ok_def)
    ultimately show ?thesis by (simp add: rtc_ok_def n(1))
  qed
qed

text \<open>Requests that only concern the peers.\<close>

definition rtc_frame :: "Broadcaster \<Rightarrow> Broadcaster \<Rightarrow> bool" where
  "rtc_frame b b' \<longleftrightarrow> bc_cancel b' = bc_cancel b \<and> bc_paused b' = bc_paused b
     \<and> bc_resumeCh b' = bc_resumeCh b \<and> bc_closed b' = bc_closed b \<and> bc_cancelled b' = bc_cancelled b
     \<and> bc_nextCtx b' = bc_nextCtx b \<and> bc_closedChs b' = bc_closedChs b \<and> bc_nextCh b' = bc_nextCh b
     \<and> bc_crashed b' = bc_crashed b \<and> (bc_closed b \<longrightarrow> bc_peers b = [] \<longrightarrow> bc_peers b' = [])"

lemma rtc_frame_ok: "rtc_frame b b' \<Longrightarrow> rtc_ok (ps, b) \<Longrightarrow> rtc_ok (ps, b')"
  by (simp add: rtc_frame_def rtc_ok_def chs_ok_def ctxs_ok_def)

lemmas peer_defs = HandleSignal_def addPeer_def removePeer_def RemovePeer_def addPeer_locked_def
  send_offer_def onAnswer_def onRemoteICE_def onConnectionStateChange_def onICECandidate_def

lemma addPeer_frame: "rtc_frame b (fst (addPeer env c b))"
  by (auto simp: rtc_frame_def peer_defs Let_def split: option.splits if_splits)

lemma HandleSignal_frame: "rtc_frame b (fst (HandleSignal env c s b))"
proof (cases "rtc_Kind s = RTCJoin")
  case True
  then show ?thesis using addPeer_frame by (simp add: HandleSignal_def)
next
  case False
  then show ?thesis
    by (auto simp: rtc_frame_def HandleSignal_def onAnswer_def onRemoteICE_def split: option.splits)
qed

lemma BStop_ok: "rtc_ok (ps, b) \<Longrightarrow> rtc_ok (ps, BStop b)"
  by (auto simp: rtc_ok_def chs_ok_def ctxs_ok_def BStop_def close_ch_def Let_def less_Suc_eq split: option.splits)

lemma BPlay_start_ok:
  assumes "rtc_ok (ps, b)" "bc_cancel b = None" "BPlay_start t b = (new, b')"
  shows "rtc_ok (ps @ new, b')"
  using assms by (auto simp: rtc_ok_def chs_ok_def ctxs_ok_def BPlay_start_def Let_def less_Suc_eq split: if_splits)

lemma BStop_cancel [simp]: "bc_cancel (BStop b) = None"
  by (simp add: BStop_def close_ch_def Let_def split: option.split)

lemma rtc_serve_ok:
  assumes ok: "rtc_ok (ps, b)" and req: "rtc_serve r b = (new, b', calls)"
  shows "rtc_ok (ps @ new, b')"
proof (cases r)
  case (RqSignal env c s)
  with req HandleSignal_frame [of b env c s] rtc_frame_ok [OF _ ok] show ?thesis by auto
next
  case (RqPlay t)
  then have "BPlay_start t (BStop b) = (new, b')" using req by (auto simp: BPlay_def split: prod.splits)
  then show ?thesis using BPlay_start_ok [OF BStop_ok [OF ok]] by simp
next
  case RqStop
  with req BStop_ok [OF ok] show ?thesis by auto
next
  case RqResume
  with req ok show ?thesis
    by (auto simp: BResume_def close_ch_def rtc_ok_def chs_ok_def ctxs_ok_def less_Suc_eq split: if_splits)
next
  case RqClose
  with req BStop_ok [OF ok] BStop_cancel [of b] show ?thesis
    by (auto simp: BClose_def Let_def rtc_ok_def chs_ok_def ctxs_ok_def)
qed (use req ok in \<open>auto simp: rtc_ok_def chs_ok_def ctxs_ok_def peer_defs BPause_def BSetBitrate_def
    split: if_splits\<close>)

lemma rtc_reachable_ok: "rtc_reachable s \<Longrightarrow> rtc_ok s"
proof (induction rule: rtc_reachable.induct)
  case Start
  then show ?case by (simp add: rtc_ok_def chs_ok_def ctxs_ok_def New_broadcaster_def)
next
  case (Step s outs s')
  from Step.hyps(2) Step.IH show ?case
    by cases (auto intro: player_step_ok rtc_serve_ok)
qed

subsection \<open>A small broadcaster\<close>

definition demoTrack :: Track where
  "demoTrack = \<lparr>tr_ID = ''t1'', tr_SourceURL = ''http://v/1'', tr_Status = StatusReady, tr_Title = ''One'',
     tr_FileURL = [], tr_DurationMs = 60000\<rparr>"

definition demoPump :: pump_env where
  "demoPump = \<lparr>pm_resolve = (\<lambda>t. Some ''f.opus''), pm_starts = (\<lambda>args. True),
     pm_page = Some (960, JNull), pm_writes = True\<rparr>"

definition demoRtc :: rtc_env where
  "demoRtc = \<lparr>rv_newPeer = True, rv_addTrack = True, rv_offer = Some ''v=0'', rv_setLocal = True,
     rv_setRemote = (\<lambda>sdp. True), rv_decodes = (\<lambda>j. j \<noteq> JNull)\<rparr>"

lemma reach_request: "rtc_reachable (ps, b) \<Longrightarrow> rtc_serve r b = (new, b', calls) \<Longrightarrow> rtc_reachable (ps @ new, b')"
  by (blast intro: rtc_reachable.Step rtc_step.Request)

lemma reach_player:
  "rtc_reachable (pl # ys, b) \<Longrightarrow> player_step env pl b = Some (new, outs) \<Longrightarrow> rtc_reachable (new @ ys, b)"
  using rtc_reachable.Step [OF _ rtc_step.Player [of env pl b new outs "[]" ys]] by simp

subsection \<open>One track at a time\<close>

definition live :: "Broadcaster \<Rightarrow> player \<Rightarrow> bool" where
  "live b pl \<longleftrightarrow> \<not> ctx_done (player_ctx pl) b"

lemma distinct_same_key: "distinct (List.map f xs) \<Longrightarrow> \<forall>x \<in> set xs. f x = k \<Longrightarrow> length xs \<le> 1"
  by (cases xs rule: remdups_adj.cases) auto


lemma demo_playing: "\<exists>b. rtc_reachable ([PlResolve 0 demoTrack 64], b) \<and> \<not> ctx_done 0 b \<and> bc_closed b = False"
proof -
  have "rtc_serve (RqPlay demoTrack) New_broadcaster =
      ([PlResolve 0 demoTrack 64], snd (BPlay demoTrack New_broadcaster), [])"
    by (simp add: BPlay_def BPlay_start_def BStop_def close_ch_def New_broadcaster_def StreamBitrateDefaultKbps_def Let_def)
  from reach_request [OF rtc_reachable.Start this]
  show ?thesis
    by (intro exI [where x = "snd (BPlay demoTrack New_broadcaster)"])
      (simp add: BPlay_def BPlay_start_def BStop_def close_ch_def New_broadcaster_def Let_def)
qed


subsection \<open>After a stop\<close>

inductive rtc_run :: "player list \<times> Broadcaster \<Rightarrow> rtc_output list \<Rightarrow> player list \<times> Broadcaster \<Rightarrow> bool" where
  Done: "rtc_run s [] s"
| More: "rtc_run s outs t \<Longrightarrow> rtc_step t outs' u \<Longrightarrow> rtc_run s (outs @ outs') u"

fun out_ctx :: "rtc_output \<Rightarrow> nat" where
  "out_ctx (Sample ctx content dur) = ctx"
| "out_ctx (OnEnd ctx) = ctx"

text \<open>A player that is past its checks can put out one more thing.\<close>

fun in_flight :: "player \<Rightarrow> nat" where
  "in_flight (PlRead ctx g n) = 1"
| "in_flight (PlEnd ctx) = 1"
| "in_flight _ = 0"

definition flights :: "nat \<Rightarrow> player list \<Rightarrow> nat" where
  "flights ctx ps = sum_list (List.map in_flight (filter (\<lambda>pl. player_ctx pl = ctx) ps))"

definition outs_of :: "nat \<Rightarrow> rtc_output list \<Rightarrow> nat" where
  "outs_of ctx outs = length (filter (\<lambda>x. out_ctx x = ctx) outs)"

lemma flights_append [simp]: "flights ctx (xs @ ys) = flights ctx xs + flights ctx ys"
  by (simp add: flights_def)

lemma flights_Cons [simp]:
  "flights ctx [] = 0"
  "flights ctx (pl # ys) = (if player_ctx pl = ctx then in_flight pl else 0) + flights ctx ys"
  by (simp_all add: flights_def)

lemma player_step_flights:
  assumes "player_step env pl b = Some (new, outs)" and "ctx_done ctx b"
  shows "outs_of ctx outs + flights ctx new \<le> flights ctx [pl]"
  using assms by (cases pl) (auto simp: outs_of_def split: option.splits prod.splits if_splits)

lemma serve_flights:
  assumes "rtc_serve r b = (new, b', calls)" and "ctx_done ctx b"
  shows "flights ctx new = 0 \<and> ctx_done ctx b'"
proof (cases r)
  case (RqSignal env c s)
  with assms HandleSignal_frame [of b env c s] show ?thesis by (auto simp: rtc_frame_def)
qed (use assms in \<open>auto simp: BPlay_def BPlay_start_def BStop_def BResume_def BPause_def BClose_def BSetBitrate_def
    close_ch_def peer_defs Let_def split: option.splits if_splits\<close>)

lemma run_flights:
  assumes "rtc_run s outs t" and "ctx_done ctx (snd s)"
  shows "ctx_done ctx (snd t) \<and> outs_of ctx outs + flights ctx (fst t) \<le> flights ctx (fst s)"
  using assms
proof (induction rule: rtc_run.induct)
  case (Done s)
  then show ?case by (simp add: outs_of_def)
next
  case (More s outs t outs' u)
  have o: "outs_of ctx (outs @ outs') = outs_of ctx outs + outs_of ctx outs'" by (simp add: outs_of_def)
  from More.IH More.prems have IH: "ctx_done ctx (snd t)" "outs_of ctx outs + flights ctx (fst t) \<le> flights ctx (fst s)"
    by auto
  from More.hyps(2) show ?case
  proof cases
    case (Player env pl b new xs ys)
    with player_step_flights [OF Player(3), of ctx] IH o show ?thesis by simp
  next
    case (Request r b new b' calls ps)
    with serve_flights [OF Request(4), of ctx] IH o show ?thesis by (simp add: outs_of_def)
  qed
qed

lemma flights_le_one:
  assumes "distinct (List.map player_ctx ps)" shows "flights ctx ps \<le> 1"
proof -
  let ?qs = "filter (\<lambda>pl. player_ctx pl = ctx) ps"
  have "length ?qs \<le> 1"
    by (rule distinct_same_key [where f = player_ctx and k = ctx]) (use assms in \<open>auto simp: distinct_map_filter\<close>)
  moreover have "in_flight pl \<le> 1" for pl by (cases pl) auto
  ultimately show ?thesis by (cases ?qs) (auto simp: flights_def)
qed

text \<open>
  C16: Once the context of a track has been cancelled, by a stop, by the next track or by closing the
  broadcaster, its player puts out at most one more thing, a sample or the report that the track has
  ended, whatever happens afterwards; and none if it is not between its check and its output at
  that moment.
\<close>

theorem cancelled_player_falls_silent:
  assumes "rtc_reachable (ps, b)" and "ctx_done ctx b" and "rtc_run (ps, b) outs s"
  shows "outs_of ctx outs \<le> 1 \<and> ((\<forall>pl \<in> set ps. player_ctx pl = ctx \<longrightarrow> in_flight pl = 0) \<longrightarrow> outs_of ctx outs = 0)"
proof -
  have d: "distinct (List.map player_ctx ps)"
    using rtc_reachable_ok [OF assms(1)] by (simp add: rtc_ok_def ctxs_ok_def)
  have "outs_of ctx outs \<le> flights ctx ps" using run_flights [OF assms(3), of ctx] assms(2) by simp
  moreover have "flights ctx ps = 0" if "\<forall>pl \<in> set ps. player_ctx pl = ctx \<longrightarrow> in_flight pl = 0"
    using that by (simp add: flights_def)
  ultimately show ?thesis using flights_le_one [OF d, of ctx] by auto
qed

theorem cancelled_player_falls_silent_witness:
  "\<exists>b. rtc_reachable ([PlResolve 0 demoTrack 64], b) \<and> ctx_done 0 b
     \<and> (\<forall>outs s. rtc_run ([PlResolve 0 demoTrack 64], b) outs s \<longrightarrow> outs_of 0 outs = 0)"
proof -
  from demo_playing obtain b where r: "rtc_reachable ([PlResolve 0 demoTrack 64], b)" by blast
  have s: "rtc_serve RqStop b = ([], BStop b, [])" by simp
  from reach_request [OF r s] have r': "rtc_reachable ([PlResolve 0 demoTrack 64], BStop b)" by simp
  have "ctx_done 0 (BStop b)"
    using rtc_reachable_ok [OF r'] by (auto simp: rtc_ok_def ctxs_ok_def)
  with cancelled_player_falls_silent [OF r' this] r' show ?thesis by (intro exI [where x = "BStop b"]) auto
qed

subsection \<open>Pausing\<close>

text \<open>
  A player waits only while the broadcaster is paused and open: as soon as it is resumed, stopped
  or closed every player can go on, so no wake-up is lost.
\<close>

lemma players_wait_only_while_paused:
  assumes "rtc_reachable (ps, b)" and "pl \<in> set ps" and "player_step env pl b = None"
  shows "bc_paused b \<and> \<not> bc_closed b \<and> live b pl \<and> player_step env pl (BResume b) \<noteq> None
    \<and> player_step env pl (BStop b) \<noteq> None"
proof -
  obtain ctx g n ch where pl: "pl = PlBlocked ctx g n ch" "\<not> ctx_done ctx b" "ch \<notin> set (bc_closedChs b)"
    using assms(3) by (cases pl) (auto split: option.splits prod.splits if_splits)
  have ok: "chs_ok ps b" "ctxs_ok ps b" using rtc_reachable_ok [OF assms(1)] by (simp_all add: rtc_ok_def)
  then have ch: "ch = bc_resumeCh b" "bc_paused b" using pl assms(2) by (force simp: chs_ok_def)+
  have "\<not> bc_closed b" using ok(2) pl assms(2) by (force simp: ctxs_ok_def)
  with ch pl ok(1) show ?thesis
    by (simp add: live_def BResume_def BStop_def close_ch_def chs_ok_def Let_def split: option.split)
qed

lemma demo_blocked:
  "\<exists>b ch. rtc_reachable ([PlBlocked 0 0 0 ch], b) \<and> player_step demoPump (PlBlocked 0 0 0 ch) b = None"
proof -
  from demo_playing obtain b where r: "rtc_reachable ([PlResolve 0 demoTrack 64], b)" and b: "\<not> ctx_done 0 b" "\<not> bc_closed b"
    by auto
  have "rtc_reachable ([PlStart 0 ''f.opus'' 64], b)"
    using reach_player [OF r, of demoPump] by (simp add: demoPump_def)
  from reach_player [OF this, of demoPump] b have "rtc_reachable ([PlLoop 0 0 0], b)" by (simp add: demoPump_def)
  from reach_player [OF this, of demoPump] b have "rtc_reachable ([PlWait 0 0 0], b)" by simp
  from reach_request [OF this, of RqPause] have w: "rtc_reachable ([PlWait 0 0 0], BPause b)" by simp
  from reach_player [OF w, of demoPump] b have bl: "rtc_reachable ([PlBlocked 0 0 0 (bc_resumeCh b)], BPause b)"
    by (simp add: BPause_def)
  from rtc_reachable_ok [OF bl] have "bc_resumeCh b \<notin> set (bc_closedChs b)"
    by (simp add: rtc_ok_def chs_ok_def BPause_def)
  with bl b show ?thesis by (intro exI [where x = "BPause b"] exI [where x = "bc_resumeCh b"]) (simp add: BPause_def)
qed

lemma players_wait_only_while_paused_example:
  "\<exists>b ch. rtc_reachable ([PlBlocked 0 0 0 ch], b) \<and> player_step demoPump (PlBlocked 0 0 0 ch) b = None
     \<and> bc_paused b \<and> player_step demoPump (PlBlocked 0 0 0 ch) (BResume b) \<noteq> None"
proof -
  from demo_blocked obtain b ch where r: "rtc_reachable ([PlBlocked 0 0 0 ch], b)"
    and n: "player_step demoPump (PlBlocked 0 0 0 ch) b = None" by blast
  have "PlBlocked 0 0 0 ch \<in> set [PlBlocked 0 0 0 ch]" by simp
  from players_wait_only_while_paused [OF r this n] r n show ?thesis by blast
qed

subsection \<open>Candidates\<close>

text \<open>The candidates of a list of signals that decode, and those handed to a connection.\<close>

fun candidates :: "rtc_env \<Rightarrow> RTCSignal list \<Rightarrow> json list" where
  "candidates env [] = []"
| "candidates env (s # ss) =
     (case rtc_Candidate s of
        Some j \<Rightarrow> if rtc_Kind s = RTCICE \<and> rv_decodes env j then j # candidates env ss else candidates env ss
      | None \<Rightarrow> candidates env ss)"

fun handed :: "nat \<Rightarrow> rtc_call list \<Rightarrow> json list" where
  "handed pc [] = []"
| "handed pc (AddCandidate q j # cs) = (if q = pc then j # handed pc cs else handed pc cs)"
| "handed pc (c # cs) = handed pc cs"

definition answered :: "rtc_env \<Rightarrow> RTCSignal list \<Rightarrow> bool" where
  "answered env ss \<longleftrightarrow> list_ex (\<lambda>s. rtc_Kind s = RTCAnswer \<and> rv_setRemote env (rtc_SDP s)) ss"

lemma handed_append [simp]: "handed pc (xs @ ys) = handed pc xs @ handed pc ys"
  by (induction xs rule: handed.induct) auto

lemma handed_AddCandidate [simp]: "handed pc (List.map (AddCandidate pc) js) = js"
  by (induction js) auto

lemma kinds_distinct [simp]:
  "RTCAnswer \<noteq> RTCJoin" "RTCICE \<noteq> RTCJoin" "RTCICE \<noteq> RTCAnswer" "RTCAnswer \<noteq> RTCICE"
  by (simp_all add: RTCAnswer_def RTCJoin_def RTCICE_def)

text \<open>
  C10: The candidates of a client reach its connection exactly once and in the order in which they
  came: whatever mixture of answers and candidates a client sends, those handed over followed by
  those still kept back are those kept back before followed by the new ones; and once an answer has been
  accepted none is kept back.
\<close>

theorem candidates_delivered_in_order:
  assumes "gget (bc_peers b) c = Some pc" and "gget (bc_heap b) pc = Some p"
    and "pn_remoteSet p \<longrightarrow> pn_pending p = []" and "\<forall>s \<in> set ss. rtc_Kind s \<noteq> RTCJoin"
    and "seq (List.map (HandleSignal env c) ss) b = (b', calls)"
  shows "\<exists>p'. gget (bc_peers b') c = Some pc \<and> gget (bc_heap b') pc = Some p'
    \<and> handed pc calls @ pn_pending p' = pn_pending p @ candidates env ss
    \<and> pn_remoteSet p' = (pn_remoteSet p \<or> answered env ss) \<and> (pn_remoteSet p' \<longrightarrow> pn_pending p' = [])"
  using assms
proof (induction ss arbitrary: b p calls)
  case Nil
  then show ?case by (auto simp: answered_def)
next
  case (Cons s ss)
  obtain b1 cs where h: "HandleSignal env c s b = (b1, cs)" by fastforce
  from Cons.prems(5) h obtain ds where ds: "seq (List.map (HandleSignal env c) ss) b1 = (b', ds)" "calls = cs @ ds"
    by (auto split: prod.splits)
  have "\<exists>p1. gget (bc_peers b1) c = Some pc \<and> gget (bc_heap b1) pc = Some p1
      \<and> handed pc cs @ pn_pending p1 = pn_pending p @ candidates env [s]
      \<and> pn_remoteSet p1 = (pn_remoteSet p \<or> answered env [s]) \<and> (pn_remoteSet p1 \<longrightarrow> pn_pending p1 = [])"
    using h Cons.prems(1-4)
    by (auto simp: HandleSignal_def onAnswer_def onRemoteICE_def answered_def split: option.splits if_splits)
  then obtain p1 where p1: "gget (bc_peers b1) c = Some pc" "gget (bc_heap b1) pc = Some p1"
      "handed pc cs @ pn_pending p1 = pn_pending p @ candidates env [s]"
      "pn_remoteSet p1 = (pn_remoteSet p \<or> answered env [s])" "pn_remoteSet p1 \<longrightarrow> pn_pending p1 = []" by blast
  have split: "candidates env (s # ss) = candidates env [s] @ candidates env ss"
    "answered env (s # ss) = (answered env [s] \<or> answered env ss)"
    by (auto simp: answered_def split: option.splits)
  have "\<forall>s \<in> set ss. rtc_Kind s \<noteq> RTCJoin" using Cons.prems(4) by simp
  from Cons.IH [OF p1(1,2,5) this ds(1)] obtain p' where p': "gget (bc_peers b') c = Some pc"
      "gget (bc_heap b') pc = Some p'" "handed pc ds @ pn_pending p' = pn_pending p1 @ candidates env ss"
      "pn_remoteSet p' = (pn_remoteSet p1 \<or> answered env ss)" "pn_remoteSet p' \<longrightarrow> pn_pending p' = []" by blast
  have "handed pc calls @ pn_pending p' = (handed pc cs @ pn_pending p1) @ candidates env ss"
    using p'(3) by (simp add: ds(2))
  also have "\<dots> = pn_pending p @ candidates env (s # ss)" unfolding split p1(3) by simp
  finally show ?case using p' p1(4) split(2) by auto
qed

theorem candidates_delivered_in_order_witness:
  "\<exists>b b' calls. gget (bc_peers b) ''A'' = Some 0
     \<and> seq (List.map (HandleSignal demoRtc ''A'')
         [\<lparr>rtc_Kind = RTCICE, rtc_SDP = [], rtc_Candidate = Some (JStr ''c1'')\<rparr>,
          \<lparr>rtc_Kind = RTCAnswer, rtc_SDP = ''v=1'', rtc_Candidate = None\<rparr>,
          \<lparr>rtc_Kind = RTCICE, rtc_SDP = [], rtc_Candidate = Some (JStr ''c2'')\<rparr>]) b = (b', calls)
     \<and> handed 0 calls = [JStr ''c1'', JStr ''c2'']"
proof -
  let ?ss = "[\<lparr>rtc_Kind = RTCICE, rtc_SDP = [], rtc_Candidate = Some (JStr ''c1'')\<rparr>,
      \<lparr>rtc_Kind = RTCAnswer, rtc_SDP = ''v=1'', rtc_Candidate = None\<rparr>,
      \<lparr>rtc_Kind = RTCICE, rtc_SDP = [], rtc_Candidate = Some (JStr ''c2'')\<rparr>]"
  let ?b = "fst (addPeer demoRtc ''A'' New_broadcaster)"
  have b: "gget (bc_peers ?b) ''A'' = Some 0" "gget (bc_heap ?b) 0 = Some \<lparr>pn_remoteSet = False, pn_pending = []\<rparr>"
    by (simp_all add: peer_defs New_broadcaster_def demoRtc_def)
  obtain b' calls where s: "seq (List.map (HandleSignal demoRtc ''A'') ?ss) ?b = (b', calls)" by fastforce
  have "\<forall>s \<in> set ?ss. rtc_Kind s \<noteq> RTCJoin" by simp
  from candidates_delivered_in_order [OF b _ this s] obtain p' where
    "handed 0 calls = [JStr ''c1'', JStr ''c2'']"
    by (auto simp: answered_def demoRtc_def)
  then show ?thesis using b(1) s by (intro exI [where x = ?b] exI [where x = b'] exI [where x = calls]) simp
qed

subsection \<open>Joining again\<close>

text \<open>
  C39: A client that joins again loses its new connection. Joining closes the old connection and puts
  a new one in its place; the handler of the old connection, which WebRTC calls because it was
  closed, knows the client only and takes out and closes whatever connection the client has now.
\<close>

theorem rejoin_loses_new_peer:
  assumes "gget (bc_peers b) c = Some old" and "\<not> bc_closed b"
    and "rv_newPeer env" and "rv_addTrack env" and "rv_offer env \<noteq> None" and "rv_setLocal env"
    and "HandleSignal env c \<lparr>rtc_Kind = RTCJoin, rtc_SDP = sdp, rtc_Candidate = cand\<rparr> b = (b1, calls)"
  shows "ClosePeer old \<in> set calls \<and> gget (bc_peers b1) c = Some (bc_nextPeer b)
    \<and> gget (bc_peers (fst (onConnectionStateChange c ClosedState b1))) c = None
    \<and> snd (onConnectionStateChange c ClosedState b1) = [ClosePeer (bc_nextPeer b)]"
  using assms by (auto simp: peer_defs Let_def split: option.splits)

theorem rejoin_loses_new_peer_witness:
  "\<exists>b1 calls. HandleSignal demoRtc ''A'' \<lparr>rtc_Kind = RTCJoin, rtc_SDP = [], rtc_Candidate = None\<rparr>
       (fst (addPeer demoRtc ''A'' New_broadcaster)) = (b1, calls)
     \<and> ClosePeer 0 \<in> set calls \<and> gget (bc_peers b1) ''A'' = Some 1
     \<and> gget (bc_peers (fst (onConnectionStateChange ''A'' ClosedState b1))) ''A'' = None"
proof -
  let ?b = "fst (addPeer demoRtc ''A'' New_broadcaster)"
  obtain b1 calls where h: "HandleSignal demoRtc ''A'' \<lparr>rtc_Kind = RTCJoin, rtc_SDP = [], rtc_Candidate = None\<rparr> ?b = (b1, calls)"
    by fastforce
  have "gget (bc_peers ?b) ''A'' = Some 0" "\<not> bc_closed ?b" "bc_nextPeer ?b = 1"
    by (simp_all add: peer_defs New_broadcaster_def demoRtc_def)
  moreover have "rv_newPeer demoRtc" "rv_addTrack demoRtc" "rv_offer demoRtc \<noteq> None" "rv_setLocal demoRtc"
    by (simp_all add: demoRtc_def)
  ultimately show ?thesis using rejoin_loses_new_peer [OF _ _ _ _ _ _ h, of 0] h by auto
qed

subsection \<open>Two calls of Play at the same time\<close>

definition rtc_serves :: "rtc_request list \<Rightarrow> Broadcaster \<Rightarrow> Broadcaster" where
  "rtc_serves rs b = fold (\<lambda>r b. fst (snd (rtc_serve r b))) rs b"

text \<open>A context the broadcaster has forgotten without cancelling it stays so.\<close>

definition lost :: "nat \<Rightarrow> Broadcaster \<Rightarrow> bool" where
  "lost ctx b \<longleftrightarrow> ctx < bc_nextCtx b \<and> \<not> ctx_done ctx b \<and> bc_cancel b \<noteq> Some ctx"

lemma lost_BStop: "lost ctx b \<Longrightarrow> lost ctx (BStop b)"
  by (auto simp: lost_def BStop_def close_ch_def Let_def split: option.split)

lemma lost_serve:
  assumes "lost ctx b" shows "lost ctx (fst (snd (rtc_serve r b)))"
proof (cases r)
  case (RqSignal env c s)
  with assms HandleSignal_frame [of b env c s] show ?thesis by (simp add: rtc_frame_def lost_def)
next
  case (RqPlay t)
  with lost_BStop [OF assms] show ?thesis
    by (auto simp: BPlay_def BPlay_start_def lost_def Let_def split: prod.splits)
next
  case RqStop
  with lost_BStop [OF assms] show ?thesis by simp
next
  case RqClose
  with lost_BStop [OF assms] show ?thesis by (simp add: BClose_def lost_def Let_def)
qed (use assms in \<open>auto simp: lost_def peer_defs BResume_def BPause_def BSetBitrate_def close_ch_def\<close>)

lemma lost_serves: "lost ctx b \<Longrightarrow> lost ctx (rtc_serves rs b)"
  unfolding rtc_serves_def by (induction rs arbitrary: b) (auto intro: lost_serve)

text \<open>
  C40: Two overlapping calls of \<^verbatim>\<open>Play\<close> leave a player that nothing can stop: if both have stopped what was
  playing before either stores its context, both tracks play, and whatever the broadcaster is asked to
  do afterwards, stop and close included, the context of the first is never cancelled.
\<close>

theorem overlapping_plays_lose_a_player:
  assumes "rtc_reachable (ps, b)" and "\<not> bc_closed b"
    and "BPlay_start t1 (BStop (BStop b)) = (new1, b1)" and "BPlay_start t2 b1 = (new2, b2)"
  shows "\<exists>c1 c2. new1 = [PlResolve c1 t1 (bc_bitrate b)] \<and> new2 = [PlResolve c2 t2 (bc_bitrate b)] \<and> c1 \<noteq> c2
    \<and> (\<forall>rs. \<not> ctx_done c1 (rtc_serves rs b2))"
proof -
  have ok: "ctxs_ok ps (BStop (BStop b))"
    using BStop_ok [OF BStop_ok [OF rtc_reachable_ok [OF assms(1)]]] by (simp add: rtc_ok_def)
  let ?c = "bc_nextCtx (BStop (BStop b))"
  have f: "bc_closed (BStop x) = bc_closed x" "bc_bitrate (BStop x) = bc_bitrate x" for x
    by (simp_all add: BStop_def close_ch_def Let_def split: option.split)
  have r: "new1 = [PlResolve ?c t1 (bc_bitrate b)]" "new2 = [PlResolve (Suc ?c) t2 (bc_bitrate b)]"
    "bc_nextCtx b2 = Suc (Suc ?c)" "bc_cancel b2 = Some (Suc ?c)" "bc_cancelled b2 = bc_cancelled (BStop (BStop b))"
    using assms(2-4) f by (auto simp: BPlay_start_def Let_def)
  have "lost ?c b2" using ok by (auto simp: lost_def r ctxs_ok_def)
  then have "\<forall>rs. \<not> ctx_done ?c (rtc_serves rs b2)" using lost_serves by (auto simp: lost_def)
  with r show ?thesis by auto
qed

theorem overlapping_plays_lose_a_player_witness:
  "\<exists>new1 b1 new2 b2 c1. BPlay_start demoTrack (BStop (BStop New_broadcaster)) = (new1, b1)
     \<and> BPlay_start demoTrack b1 = (new2, b2) \<and> new1 = [PlResolve c1 demoTrack 64]
     \<and> \<not> ctx_done c1 (rtc_serves [RqStop, RqClose] b2)"
proof -
  obtain new1 b1 where 1: "BPlay_start demoTrack (BStop (BStop New_broadcaster)) = (new1, b1)" by fastforce
  obtain new2 b2 where 2: "BPlay_start demoTrack b1 = (new2, b2)" by fastforce
  have "\<not> bc_closed New_broadcaster" "bc_bitrate New_broadcaster = 64"
    by (simp_all add: New_broadcaster_def StreamBitrateDefaultKbps_def)
  with overlapping_plays_lose_a_player [OF rtc_reachable.Start _ 1 2] 1 2 show ?thesis by metis
qed

subsection \<open>Pacing\<close>

text \<open>The durations of the samples of the pages that follow granule position \<open>g\<close>.\<close>

fun page_durs :: "int \<Rightarrow> int list \<Rightarrow> int list" where
  "page_durs g [] = []"
| "page_durs g (h # hs) = sample_dur h g # page_durs h hs"

lemma sdiv_pos: "0 \<le> x \<Longrightarrow> 0 < y \<Longrightarrow> x sdiv y = x div (y :: int)"
  by (cases "x = 0") (simp_all add: signed_divide_int_def sgn_if)

lemma sample_dur_eq:
  assumes "0 \<le> h - g" "h - g < 2 ^ 33"
  shows "sample_dur h g = (h - g) * 1000000000 div 48000"
proof -
  have "(h - g) mod 2 ^ 64 = h - g" using assms by simp
  moreover have "in64 (h - g)" "in64 ((h - g) * 1000000000)" using assms by (simp_all add: in64_def)
  moreover have "((h - g) * 1000000000) sdiv 48000 = (h - g) * 1000000000 div 48000"
    using assms by (simp add: sdiv_pos del: left_diff_distrib_numeral)
  ultimately show ?thesis by (simp add: sample_dur_def Let_def del: left_diff_distrib_numeral)
qed

text \<open>
  The player keeps time: the samples of a stream whose granule positions do not decrease and grow by
  less than \<open>2 ^ 33\<close> per page have durations that are not negative, and together they last as long as
  the positions say, at 48000 per second, up to one nanosecond per page.
\<close>

lemma samples_keep_time:
  assumes "sorted (g # gs)" and "successively (\<lambda>a b. b - a < 2 ^ 33) (g # gs)"
  shows "(\<forall>d \<in> set (page_durs g gs). 0 \<le> d)
    \<and> 48000 * sum_list (page_durs g gs) \<le> (last (g # gs) - g) * 1000000000
    \<and> (last (g # gs) - g) * 1000000000 - 48000 * int (length gs) \<le> 48000 * sum_list (page_durs g gs)"
  using assms
proof (induction gs arbitrary: g)
  case Nil
  then show ?case by simp
next
  case (Cons h gs)
  have d: "sample_dur h g = (h - g) * 1000000000 div 48000"
    using Cons.prems by (intro sample_dur_eq) auto
  have b: "48000 * ((h - g) * 1000000000 div 48000) \<le> (h - g) * 1000000000"
    "(h - g) * 1000000000 - 48000 \<le> 48000 * ((h - g) * 1000000000 div 48000)"
    using mult_div_mod_eq [of 48000 "(h - g) * 1000000000"] pos_mod_bound [of 48000 "(h - g) * 1000000000"]
      pos_mod_sign [of 48000 "(h - g) * 1000000000"] by linarith+
  have "0 \<le> sample_dur h g" using Cons.prems by (simp add: d pos_imp_zdiv_nonneg_iff)
  moreover have "(last (g # h # gs) - g) * 1000000000 = (h - g) * 1000000000 + (last (h # gs) - h) * 1000000000"
    by (simp add: algebra_simps)
  ultimately show ?case using Cons.IH [of h] Cons.prems b by (simp add: d algebra_simps)
qed

lemma samples_keep_time_example:
  "48000 * sum_list (page_durs 0 [960, 1920, 2000]) \<le> 2000 * 1000000000
    \<and> 2000 * 1000000000 - 48000 * 3 \<le> 48000 * sum_list (page_durs 0 [960, 1920, 2000])"
  using samples_keep_time [of 0 "[960, 1920, 2000]"] by simp

end
