(* ===== verification/Endpoints.thy ===== *)
theory Endpoints
  imports Serve Media_Steps Registry
begin

section \<open>The UDP clock, the upload handler and the start of the server\<close>

text \<open>
  The parts around rooms and pipeline: \<^verbatim>\<open>internal/udpclock\<close>, \<^verbatim>\<open>internal/httpapi\<close> and
  \<^verbatim>\<open>cmd/server\<close>. Sockets and the HTTP server are \<^verbatim>\<open>net\<close> and \<^verbatim>\<open>net/http\<close>: what they deliver are
  arguments, what is written to them is a result.
\<close>

subsection \<open>The clock (udpclock.go)\<close>

text \<open>
  A read of the socket: an error, which ends the loop, or a datagram with its sender and the
  readings of the clock around its answer. \<open>parse\<close> reads a text as JSON, \<open>None\<close> if it is none;
  the buffer keeps the first 512 bytes.
\<close>

datatype 'a udp_read = ReadFails | Datagram 'a string int int

definition udp_buf :: nat where
  "udp_buf = 512"

definition udp_reply :: "(string \<Rightarrow> json option) \<Rightarrow> string \<Rightarrow> int \<Rightarrow> int \<Rightarrow> json option" where
  "udp_reply parse text t1 t2 =
     (let buf = take udp_buf text in
      case parse buf of
        None \<Rightarrow> None
      | Some j \<Rightarrow>
          let (ping, err) = Unmarshal PingData_fields PingData_zero (Some j) in
          if err then None
          else Some (json_of_PongData \<lparr>pong_T0 = ping_T0 ping, pong_T1 = t1, pong_T2 = t2\<rparr>))"

fun udp_loop :: "(string \<Rightarrow> json option) \<Rightarrow> 'a udp_read list \<Rightarrow> (json \<times> 'a) list" where
  "udp_loop parse [] = []"
| "udp_loop parse (ReadFails # rs) = []"
| "udp_loop parse (Datagram raddr text t1 t2 # rs) =
     (case udp_reply parse text t1 t2 of
        None \<Rightarrow> udp_loop parse rs
      | Some resp \<Rightarrow> (resp, raddr) # udp_loop parse rs)"

subsection \<open>Uploads (upload.go)\<close>

definition maxUploadBytes :: int where
  "maxUploadBytes = push_bit 20 100"

record uploadResponse =
  up_SourceURL :: string
  up_Title :: string
  up_DurationMs :: int

definition json_of_uploadResponse :: "uploadResponse \<Rightarrow> json" where
  "json_of_uploadResponse r =
     JObj (jmember ''sourceUrl'' (JStr (up_SourceURL r)) @ jmember ''title'' (JStr (up_Title r))
       @ jmember ''durationMs'' (jint (up_DurationMs r)))"

text \<open>
  A request: \<open>ur_FormFile n\<close> is what \<^verbatim>\<open>r.FormFile("file")\<close> returns when the body may have \<open>n\<close> bytes, the
  content and the name of the file, \<open>ur_FormValue\<close> is \<^verbatim>\<open>r.FormValue("title")\<close>.
\<close>

datatype form_error = MaxBytesError | FormError

record upload_request =
  ur_Method :: string
  ur_FormFile :: "int \<Rightarrow> form_error + (string \<times> string)"
  ur_FormValue :: string

datatype http_reply = HttpError string int | HttpJSON json

definition Upload ::
  "(string \<Rightarrow> 8 word list) \<Rightarrow> tools \<Rightarrow> string \<Rightarrow> upload_request \<Rightarrow> Pipeline \<Rightarrow> http_reply \<times> Pipeline" where
  "Upload sha256 sys rnd r p =
     (if ur_Method r \<noteq> ''POST'' then (HttpError ''method not allowed'' 405, p)
      else
        case ur_FormFile r maxUploadBytes of
          Inl MaxBytesError \<Rightarrow> (HttpError ''file too large'' 413, p)
        | Inl FormError \<Rightarrow> (HttpError ''missing file'' 400, p)
        | Inr (content, filename) \<Rightarrow>
            let title = (if ur_FormValue r = [] then filename else ur_FormValue r) in
            (case RegisterOpus sha256 sys rnd content title p of
               (Inl ErrNotOpus, p) \<Rightarrow> (HttpError ''not an opus file'' 415, p)
             | (Inl UploadIO, p) \<Rightarrow> (HttpError ''upload failed'' 500, p)
             | (Inr track, p) \<Rightarrow>
                 (HttpJSON (json_of_uploadResponse
                    \<lparr>up_SourceURL = tr_SourceURL track, up_Title = tr_Title track,
                     up_DurationMs = tr_DurationMs track\<rparr>), p)))"

subsection \<open>The start of the server (main.go)\<close>

record config =
  cf_addr :: string
  cf_baseURL :: string
  cf_cacheDir :: string
  cf_udpAddr :: string

definition env_or :: "string \<Rightarrow> string \<Rightarrow> string" where
  "env_or v dflt = (if v = [] then dflt else v)"

definition read_config :: "(string \<Rightarrow> string) \<Rightarrow> config" where
  "read_config getenv =
     \<lparr>cf_addr = env_or (getenv ''TEAM4TUNE_ADDR'') '':8080'',
      cf_baseURL = env_or (getenv ''TEAM4TUNE_BASE_URL'') ''http://localhost:8080'',
      cf_cacheDir = env_or (getenv ''TEAM4TUNE_CACHE_DIR'') ''./cache'',
      cf_udpAddr = env_or (getenv ''TEAM4TUNE_UDP_ADDR'') '':8081''\<rparr>"

text \<open>
  The registry and the pipeline the handlers get, \<open>None\<close> if the cache directory cannot be made.
  \<open>listen\<close> is the port the UDP socket is bound to, \<open>None\<close> if it cannot be opened.
\<close>

definition main_start ::
  "(string \<Rightarrow> string) \<Rightarrow> (string \<Rightarrow> bool) \<Rightarrow> (string \<Rightarrow> int option) \<Rightarrow> Disk \<Rightarrow> (Registry \<times> Pipeline) option" where
  "main_start getenv mkdirOK listen disk =
     (let cf = read_config getenv in
      if \<not> mkdirOK (cf_cacheDir cf) then None
      else
        let pipeline = New_pipeline (cf_cacheDir cf) (cf_baseURL cf) disk;
            reg = SetStreamResolver True (SetCacheManager True (SetTrackCleaner True NewRegistry))
        in Some (case listen (cf_udpAddr cf) of None \<Rightarrow> reg | Some port \<Rightarrow> SetUDPPort port reg, pipeline))"

datatype endpoint = WsEndpoint | MediaEndpoint | UploadEndpoint | HealthEndpoint | NoEndpoint

text \<open>The handler \<^verbatim>\<open>http.ServeMux\<close> picks for a clean path: a pattern that ends in a slash is a prefix.\<close>

definition main_route :: "string \<Rightarrow> endpoint" where
  "main_route path =
     (if path = ''/ws'' then WsEndpoint
      else if prefix ''/media/'' path then MediaEndpoint
      else if path = ''/upload'' then UploadEndpoint
      else if path = ''/healthz'' then HealthEndpoint
      else NoEndpoint)"

end
