(* ===== verification/Endpoint_Props.thy ===== *)
theory Endpoint_Props
  imports Endpoints Handler_Props Serve_Props
begin

section \<open>Properties of the clock, of uploads and of the start\<close>

subsection \<open>The two clocks\<close>

text \<open>
  C34: The clock over UDP and the ping of a connection answer alike. A datagram that carries a JSON
  value which is read as a ping without an error gets, over UDP, exactly the pong that the same
  value, sent as a ping message, puts into the client's channel: the time of the ping, then the two
  readings of the clock. A ping with an error is ignored over UDP, while the connection answers it.
\<close>

theorem clocks_agree:
  assumes "parse (take udp_buf text) = Some j"
    and "Unmarshal PingData_fields PingData_zero (Some j) = (d, err)"
    and "length (chan (cl_ref (cn_client c)) w) < chan_cap"
  shows "\<exists>r w'. udp_reply parse text (ev_clock ev 0) (ev_clock ev 1) = (if err then None else Some r)
    \<and> r = json_of_PongData \<lparr>pong_T0 = ping_T0 d, pong_T1 = ev_clock ev 0, pong_T2 = ev_clock ev 1\<rparr>
    \<and> handle_message ev (message TypePing (Some j)) c w = Done (c, w', [])
    \<and> w_heap w' = w_heap w \<and> w_reg w' = w_reg w
    \<and> chan (cl_ref (cn_client c)) w' = chan (cl_ref (cn_client c)) w @ [MustEncode TypePong r]"
  using assms by (simp add: udp_reply_def handle_by_type on_ping_def chan_trySend try_send_def Let_def)

definition demoParse :: "string \<Rightarrow> json option" where
  "demoParse s = (if s = ''seven'' then Some (json_of_PingData \<lparr>ping_T0 = 7\<rparr>) else None)"

theorem clocks_agree_witness:
  "\<exists>w'. udp_reply demoParse ''seven'' 5000 5000 = Some (json_of_PongData \<lparr>pong_T0 = 7, pong_T1 = 5000, pong_T2 = 5000\<rparr>)
    \<and> chan 2 w' = [MustEncode TypePong (json_of_PongData \<lparr>pong_T0 = 7, pong_T1 = 5000, pong_T2 = 5000\<rparr>)]"
proof -
  let ?j = "json_of_PingData \<lparr>ping_T0 = 7\<rparr>"
  have d: "Unmarshal PingData_fields PingData_zero (Some ?j) = (\<lparr>ping_T0 = 7\<rparr>, False)"
    by (rule decode_ping) (simp add: in64_def)
  have p: "demoParse (take udp_buf ''seven'') = Some ?j" by (simp add: demoParse_def udp_buf_def)
  have "cl_ref (cn_client demoConn) = 2" "chan 2 demoWorld = []" "ev_clock demoEnv = (\<lambda>_. 5000)"
    by (simp_all add: chan_def demoWorld_def demoConn_def bobIn_def demoEnv_def)
  then show ?thesis
    using clocks_agree [of demoParse "''seven''" ?j _ False demoConn demoWorld demoEnv, OF p d] by (auto simp: chan_cap_def)
qed

text \<open>A datagram that is no ping does not disturb the others, and a read error ends the loop.\<close>

lemma udp_loop_append:
  "ReadFails \<notin> set rs \<Longrightarrow> udp_loop parse (rs @ rs') = udp_loop parse rs @ udp_loop parse rs'"
proof (induction rs)
  case (Cons e rs)
  then show ?case by (cases e) (auto split: option.split)
qed simp

lemma udp_loop_stops: "ReadFails \<notin> set rs \<Longrightarrow> udp_loop parse (rs @ ReadFails # rs') = udp_loop parse rs"
  by (simp add: udp_loop_append)

subsection \<open>Uploads\<close>

lemma unat_lt_8: "unat (x :: 8 word) < 256"
  using unsigned_less [of x] by simp

lemma hex_digits: "c \<in> set (EncodeToString b) \<Longrightarrow> c \<in> set ''0123456789abcdef''"
proof -
  assume "c \<in> set (EncodeToString b)"
  then obtain x :: "8 word" where "c = hex_digit (unat x div 16) \<or> c = hex_digit (unat x mod 16)"
    by (auto simp: EncodeToString_def)
  moreover have "unat x div 16 < 16" using unat_lt_8 [of x] by simp
  moreover have "unat x mod 16 < 16" by simp
  ultimately obtain n where "n < 16" "c = hex_digit n" by blast
  then show ?thesis unfolding hex_digit_def using nth_mem [of n "''0123456789abcdef''"] by simp
qed

lemma trackID_chars: "c \<in> set (trackID sha256 s) \<Longrightarrow> c \<in> set ''0123456789abcdef''"
  unfolding trackID_def by (rule hex_digits) (rule in_set_takeD)

lemma trackID_no_slash: "slash \<notin> set (trackID sha256 s)"
  using trackID_chars [of slash sha256 s] by (auto simp: slash_def)

lemma length_hex [simp]: "length (EncodeToString b) = 2 * length b"
  by (induction b) (simp_all add: EncodeToString_def)

lemma trackID_valid:
  assumes "length (sha256 s) = 32" shows "validMediaID (trackID sha256 s)"
proof -
  have "length (trackID sha256 s) = 16" using assms by (simp add: trackID_def)
  then have "trackID sha256 s \<noteq> []" by auto
  moreover have "CHR ''.'' \<notin> set (trackID sha256 s)" "CHR 0x5C \<notin> set (trackID sha256 s)"
    using trackID_chars [of _ sha256 s] by auto
  moreover have "CHR ''.'' \<in> set t" if "sublist ''..'' t" for t
    using set_mono_sublist [OF that] by simp
  ultimately show ?thesis
    using trackID_no_slash [of sha256 s] by (auto simp: validMediaID_def ContainsAny_iff Contains_iff)
qed

lemma upload_tmp_not_final:
  assumes "slash \<notin> set rnd" "slash \<notin> set i"
  shows "path_Join [pl_cacheDir p, ''upload-'' @ rnd @ ''.tmp''] \<noteq> cacheFile i ''.opus'' q"
proof -
  have "plain (''upload-'' @ rnd @ ''.tmp'')" using assms by (auto simp: plain_def slash_def dot_def dotdot_def)
  then have "last (path_Join [pl_cacheDir p, ''upload-'' @ rnd @ ''.tmp'']) = CHR ''p''"
    by (simp add: path_Join_name)
  moreover have "last (cacheFile i ''.opus'' q) = CHR ''s''"
    using assms(2) by (subst cacheFile_plain) (simp_all add: slash_def)
  ultimately show ?thesis by auto
qed

text \<open>The temporary file is gone at the end.\<close>

lemma Remove_written:
  assumes "Stat tmp d = None" shows "Stat q (Remove tmp (WriteFile tmp n d)) = Stat q d"
  using assms by (cases "q = tmp") (auto simp: Stat_def Remove_def WriteFile_def split: option.splits if_splits)

lemma store_upload_refused:
  assumes "gget (dk_files (pl_disk p)) tmp \<noteq> None" and "fst (store_upload sys tmp out p) \<noteq> None"
  shows "snd (store_upload sys tmp out p) = p"
proof -
  obtain d where "Rename tmp out (pl_disk p) = Some d" using assms(1) by (auto simp: Rename_def)
  then have e: "store_upload sys tmp out p =
     (if Stat out (pl_disk p) \<noteq> None then (None, p)
      else if \<not> probeIsOpus sys tmp then (Some ErrNotOpus, p)
      else if \<not> tl_osOK sys out then (Some UploadIO, p)
      else (None, p\<lparr>pl_disk := d\<rparr>))"
    unfolding store_upload_def by (simp only: option.case)
  from assms(2) show ?thesis
    unfolding e by (simp only: fst_conv snd_conv option.distinct simp_thms split: if_split_asm if_split)
qed

lemma on_disk_id: "on_disk id p = p"
  by (simp add: on_disk_def)

lemma RegisterOpus_failed:
  assumes "RegisterOpus sha256 sys rnd content title p = (Inl e, p')"
    and "Stat (path_Join [pl_cacheDir p, ''upload-'' @ rnd @ ''.tmp'']) (pl_disk p) = None"
  shows "\<exists>f. p' = on_disk f p \<and> (\<forall>q. Stat q (pl_disk p') = Stat q (pl_disk p))"
proof -
  define tmp where "tmp = path_Join [pl_cacheDir p, ''upload-'' @ rnd @ ''.tmp'']"
  let ?w = "WriteFile tmp (int (length content))"
  note none = assms(2) [folded tmp_def]
  have st: "snd (store_upload sys tmp out (on_disk ?w p)) = on_disk ?w p"
    if "fst (store_upload sys tmp out (on_disk ?w p)) \<noteq> None" for out
    by (rule store_upload_refused [OF _ that]) (simp add: WriteFile_def)
  let ?out = "cacheFile (take 16 (EncodeToString (sha256 content))) ''.opus'' (on_disk ?w p)"
  note reg = assms(1) [unfolded RegisterOpus_def Let_def, folded tmp_def]
  have "p' = on_disk id p \<or> p' = on_disk (Remove tmp) (on_disk ?w p)"
  proof (cases "tl_osOK sys tmp \<and> tl_copyOK sys")
    case False
    then consider "\<not> tl_osOK sys tmp" | "tl_osOK sys tmp" "\<not> tl_copyOK sys" by blast
    then have "p' = p \<or> p' = on_disk (Remove tmp) (on_disk ?w p)"
      by cases (use reg in \<open>simp_all only: simp_thms if_True if_False prod.inject\<close>)
    then show ?thesis by (simp add: on_disk_id)
  next
    case True
    obtain e' q where su: "store_upload sys tmp ?out (on_disk ?w p) = (e', q)" by fastforce
    from reg True have "(case e' of Some x \<Rightarrow> (Inl x, on_disk (Remove tmp) q)
       | None \<Rightarrow> let t = uploaded_track sys (take 16 (EncodeToString (sha256 content))) title q
           in (Inr t, on_disk (Remove tmp) (register_upload (take 16 (EncodeToString (sha256 content))) t q)))
       = (Inl e, p')"
      by (simp only: su prod.case simp_thms if_True if_False Let_def)
    then have "e' \<noteq> None" "p' = on_disk (Remove tmp) q" by (cases e'; simp add: Let_def)+
    with st [of ?out] su show ?thesis by simp
  qed
  with Remove_written [OF none] show ?thesis by (auto simp: on_disk_on_disk intro: exI [of _ id])
qed

lemma RegisterOpus_done:
  assumes reg: "RegisterOpus sha256 sys rnd content title p = (Inr t, p')" and rnd: "slash \<notin> set rnd"
  defines "i \<equiv> trackID sha256 content"
  shows "gget (pl_tracks p') i = Some t" "tr_SourceURL t = uploadPrefix @ i" "tr_Status t = StatusReady"
    "tr_FileURL t = pl_baseURL p' @ ''/media/'' @ i @ ''.opus''"
    "Stat (cacheFile i ''.opus'' p') (pl_disk p') \<noteq> None"
proof -
  define tmp where "tmp = path_Join [pl_cacheDir p, ''upload-'' @ rnd @ ''.tmp'']"
  define q where "q = on_disk (WriteFile tmp (int (length content))) p"
  define out where "out = cacheFile i ''.opus'' p"
  obtain q' where st: "store_upload sys tmp out q = (None, q')"
    and t: "t = uploaded_track sys i title q'" and p': "p' = on_disk (Remove tmp) (register_upload i t q')"
    using reg unfolding RegisterOpus_def Let_def tmp_def [symmetric] q_def [symmetric] i_def trackID_def [symmetric] out_def
    by (auto simp: q_def split: if_splits prod.splits option.splits)
  from store_upload_disk [OF st] obtain f where q': "q' = on_disk f p"
    by (auto simp: q_def)
  have out: "Stat out (pl_disk q') \<noteq> None"
    using st by (auto simp: store_upload_def Rename_def split: if_splits option.splits)
  have "out \<noteq> tmp" using upload_tmp_not_final [OF rnd trackID_no_slash] by (metis tmp_def out_def i_def)
  then show "Stat (cacheFile i ''.opus'' p') (pl_disk p') \<noteq> None"
    using out by (simp add: p' register_upload_def new_ctx_def Let_def Stat_Remove out_def q')
  show "gget (pl_tracks p') i = Some t" "tr_SourceURL t = uploadPrefix @ i" "tr_Status t = StatusReady"
    "tr_FileURL t = pl_baseURL p' @ ''/media/'' @ i @ ''.opus''"
    by (simp_all add: p' t register_upload_def new_ctx_def Let_def uploaded_track_def mediaURL_def q')
qed

lemma Upload_JSON:
  assumes "Upload sha256 sys rnd r p = (HttpJSON j, p')"
  obtains content title t where "RegisterOpus sha256 sys rnd content title p = (Inr t, p')"
    "j = json_of_uploadResponse \<lparr>up_SourceURL = tr_SourceURL t, up_Title = tr_Title t, up_DurationMs = tr_DurationMs t\<rparr>"
  using assms by (auto simp: Upload_def split: if_splits sum.splits prod.splits form_error.splits upload_error.splits)

lemma response_is_enqueue:
  "Unmarshal EnqueueData_fields EnqueueData_zero (Some (json_of_uploadResponse r))
     = (\<lparr>enq_SourceURL = up_SourceURL r\<rparr>, False)"
  by (simp add: json_of_uploadResponse_def decode_members_append EnqueueData_fields_def EnqueueData_zero_def fold_eval)

lemma Resolve_known:
  "gget (pl_tracks p) (idFor sha256 u) = Some t \<Longrightarrow> \<exists>p'. Resolve sha256 u cb p = (t, [], p')"
  by (cases cb) (simp_all add: Resolve_def Let_def)

text \<open>
  C21: A file that was uploaded can be enqueued and fetched at once. The JSON the upload returns is read as
  an enqueue message with the file's source; resolving this source, for any room, gives a ready
  track and starts no goroutine; and the path in the track's address leads to the stored file.
\<close>

theorem upload_can_be_enqueued:
  assumes "Upload sha256 sys rnd r p = (HttpJSON j, p')"
    and "slash \<notin> set rnd" and "\<And>s. length (sha256 s) = 32"
  shows "\<exists>i t. Unmarshal EnqueueData_fields EnqueueData_zero (Some j) = (\<lparr>enq_SourceURL = uploadPrefix @ i\<rparr>, False)
    \<and> (\<forall>cb. \<exists>p2. Resolve sha256 (uploadPrefix @ i) cb p' = (t, [], p2))
    \<and> tr_Status t = StatusReady \<and> tr_FileURL t = pl_baseURL p' @ ''/media/'' @ i @ ''.opus''
    \<and> ServeMedia e True (''/media/'' @ i @ ''.opus'') p' = (ServeFile [] (cacheFile i ''.opus'' p'), [])"
  using assms(1)
proof (rule Upload_JSON)
  fix content title t
  assume reg: "RegisterOpus sha256 sys rnd content title p = (Inr t, p')"
    and j: "j = json_of_uploadResponse \<lparr>up_SourceURL = tr_SourceURL t, up_Title = tr_Title t, up_DurationMs = tr_DurationMs t\<rparr>"
  let ?i = "trackID sha256 content"
  note t = RegisterOpus_done [OF reg assms(2)]
  note v = trackID_valid [of sha256 content, OF assms(3)]
  have "idFor sha256 (uploadPrefix @ ?i) = ?i" by (simp add: idFor_def)
  with t(1) have "\<exists>p2. Resolve sha256 (uploadPrefix @ ?i) cb p' = (t, [], p2)" for cb by (intro Resolve_known) simp
  moreover have "ServeMedia e True (''/media/'' @ ?i @ ''.opus'') p' = (ServeFile [] (cacheFile ?i ''.opus'' p'), [])"
    using t(5) v unfolding serve_file [OF v disjI1 [OF refl]]
    by (simp add: media_file_def cacheFile_def Let_def)
  moreover note t(2-4)
  ultimately show ?thesis by (intro exI [of _ ?i] exI [of _ t]) (simp add: j response_is_enqueue)
qed

definition uploadTools :: tools where
  "uploadTools = demoTools\<lparr>tl_output := (\<lambda>args.
     Some (if ''stream=codec_name'' \<in> set args then ''opus'' else ''65''))\<rparr>"

definition demoUpload :: upload_request where
  "demoUpload = \<lparr>ur_Method = ''POST'', ur_FormFile = (\<lambda>n. Inr (''OggS'', ''a.opus'')), ur_FormValue = []\<rparr>"

lemma demo_registered:
  "case RegisterOpus demoHash uploadTools ''1'' ''OggS'' ''a.opus'' (snd demoMedia) of
     (Inr t, p') \<Rightarrow> True | (Inl e, p') \<Rightarrow> False"
  by code_simp

lemma demo_upload_stored:
  "\<exists>j p'. Upload demoHash uploadTools ''1'' demoUpload (snd demoMedia) = (HttpJSON j, p')"
  using demo_registered by (auto simp: Upload_def demoUpload_def split: prod.splits sum.splits)

theorem upload_can_be_enqueued_witness:
  "\<exists>j p' i t p2. Upload demoHash uploadTools ''1'' demoUpload (snd demoMedia) = (HttpJSON j, p')
    \<and> Resolve demoHash (uploadPrefix @ i) (Some 7) p' = (t, [], p2) \<and> tr_Status t = StatusReady
    \<and> Unmarshal EnqueueData_fields EnqueueData_zero (Some j) = (\<lparr>enq_SourceURL = uploadPrefix @ i\<rparr>, False)"
proof -
  obtain j p' where u: "Upload demoHash uploadTools ''1'' demoUpload (snd demoMedia) = (HttpJSON j, p')"
    using demo_upload_stored by blast
  have "slash \<notin> set ''1''" "\<And>s. length (demoHash s) = 32" by (simp_all add: slash_def demoHash_def)
  from upload_can_be_enqueued [OF u this] u show ?thesis by blast
qed

text \<open>
  C27: An upload that is refused leaves nothing behind: whatever made the request fail, its method, its
  size, its form, its format or the system, the pipeline is as before but for its disk, and there
  every path has what it had, provided the temporary file's name was free.
\<close>

theorem failed_upload_leaves_no_trace:
  assumes "Upload sha256 sys rnd r p = (HttpError msg code, p')"
    and "Stat (path_Join [pl_cacheDir p, ''upload-'' @ rnd @ ''.tmp'']) (pl_disk p) = None"
  shows "p'\<lparr>pl_disk := pl_disk p\<rparr> = p \<and> (\<forall>q. Stat q (pl_disk p') = Stat q (pl_disk p))
    \<and> code \<in> {400, 405, 413, 415, 500}"
proof -
  have "p' = p \<or> (\<exists>content title e. RegisterOpus sha256 sys rnd content title p = (Inl e, p'))"
    using assms(1) by (auto simp: Upload_def split: if_splits sum.splits prod.splits form_error.splits upload_error.splits)
  then have "p'\<lparr>pl_disk := pl_disk p\<rparr> = p \<and> (\<forall>q. Stat q (pl_disk p') = Stat q (pl_disk p))"
    using RegisterOpus_failed [OF _ assms(2)] by (fastforce simp: on_disk_def)
  moreover have "code \<in> {400, 405, 413, 415, 500}"
    using assms(1) by (auto simp: Upload_def split: if_splits sum.splits prod.splits form_error.splits upload_error.splits)
  ultimately show ?thesis by blast
qed

lemma demo_not_opus:
  "case RegisterOpus demoHash demoTools ''1'' ''OggS'' ''a.opus'' (snd demoMedia) of
     (Inl ErrNotOpus, p') \<Rightarrow> True | _ \<Rightarrow> False"
  by code_simp

lemma demo_upload_refused:
  "\<exists>m p'. Upload demoHash demoTools ''1'' demoUpload (snd demoMedia) = (HttpError m 415, p')"
  using demo_not_opus
  by (auto simp: Upload_def demoUpload_def split: prod.splits sum.splits upload_error.splits)

lemma demo_tmp_free:
  "Stat (path_Join [pl_cacheDir (snd demoMedia), ''upload-'' @ ''1'' @ ''.tmp'']) (pl_disk (snd demoMedia)) = None"
  by code_simp

theorem failed_upload_leaves_no_trace_witness:
  "\<exists>m p'. Upload demoHash demoTools ''1'' demoUpload (snd demoMedia) = (HttpError m 415, p')
    \<and> (\<forall>q. Stat q (pl_disk p') = Stat q (pl_disk (snd demoMedia)))"
proof -
  obtain m p' where u: "Upload demoHash demoTools ''1'' demoUpload (snd demoMedia) = (HttpError m 415, p')"
    using demo_upload_refused by blast
  from failed_upload_leaves_no_trace [OF u demo_tmp_free] u show ?thesis by blast
qed

subsection \<open>The start\<close>

lemma main_start_pipeline:
  "main_start getenv mkdirOK listen disk = Some (reg, p)
     \<Longrightarrow> ([], p) = media_start (cf_cacheDir (read_config getenv)) (cf_baseURL (read_config getenv)) disk"
  by (auto simp: main_start_def media_start_def Let_def split: if_splits)

text \<open>
  The server starts with its parts connected. The pipeline is the start state of the media
  properties; every room the server's registry creates announces the port of the UDP clock, 0 if
  there is none, hands its files to the cleaner and its queue to the cache, and has a broadcaster
  exactly if it is a stream room and the broadcaster could be made.
\<close>

lemma main_connects_the_parts:
  assumes "main_start getenv mkdirOK listen disk = Some (reg, p)"
    and "w_reg w = reg" and "Create draws bcOK mode w = Some (n, w')"
  shows "([], p) = media_start (cf_cacheDir (read_config getenv)) (cf_baseURL (read_config getenv)) disk
    \<and> (\<exists>rm. gget (w_heap w') n = Some rm \<and> rm_clients rm = []
        \<and> rm_udpPort rm = (case listen (cf_udpAddr (read_config getenv)) of None \<Rightarrow> 0 | Some port \<Rightarrow> port)
        \<and> rm_cache rm \<and> rm_streamSrc rm \<and> (rm_broadcaster rm \<longleftrightarrow> mode = ModeStream \<and> bcOK)
        \<and> (\<forall>i. \<not> in_use i w' \<longrightarrow> cleanIfUnused i w' = [CleanFile i]))"
proof -
  have "rg_cleanTrack reg \<and> rg_cacheMgr reg \<and> rg_streamSrc reg
      \<and> rg_udpPort reg = (case listen (cf_udpAddr (read_config getenv)) of None \<Rightarrow> 0 | Some port \<Rightarrow> port)"
    using assms(1) by (auto simp: main_start_def SetUDPPort_def SetStreamResolver_def SetCacheManager_def
        SetTrackCleaner_def NewRegistry_def Let_def split: if_splits option.splits)
  with assms(2,3) main_start_pipeline [OF assms(1)] show ?thesis
    by (auto simp: Create_def Let_def newRoom_def cleanIfUnused_def split: option.splits)
qed

lemma demo_pick: "pick_code [] (\<lambda>_. [0, 0, 0, 0, 0, 0]) 0 = Some ''AAAAAA''"
  by (simp add: pick_code.simps genCode_def code_char_def alphabet_def)

lemma main_connects_the_parts_example:
  "\<exists>reg p (w' :: World) rm. main_start (\<lambda>_. []) (\<lambda>_. True) (\<lambda>a. if a = '':8081'' then Some 8081 else None) no_files = Some (reg, p)
    \<and> gget (w_heap w') 0 = Some rm \<and> rm_udpPort rm = 8081 \<and> rm_broadcaster rm"
proof -
  let ?m = "main_start (\<lambda>_. []) (\<lambda>_. True) (\<lambda>a. if a = '':8081'' then Some 8081 else None) no_files"
  obtain reg p where m: "?m = Some (reg, p)" by (simp add: main_start_def Let_def)
  let ?w = "\<lparr>w_reg = reg, w_heap = [], w_nextRoom = 0, w_chans = []\<rparr>"
  have "rg_rooms reg = []"
    using m by (auto simp: main_start_def SetUDPPort_def SetStreamResolver_def SetCacheManager_def
        SetTrackCleaner_def NewRegistry_def Let_def split: if_splits option.splits)
  then obtain w' where "Create (\<lambda>_. [0, 0, 0, 0, 0, 0]) True ModeStream ?w = Some (0, w')"
    by (simp add: Create_def Let_def demo_pick)
  from main_connects_the_parts [OF m _ this] obtain rm where
    "gget (w_heap w') 0 = Some rm" "rm_udpPort rm = 8081" "rm_broadcaster rm"
    by (auto simp: read_config_def env_or_def)
  with m show ?thesis by (intro exI conjI)
qed

end
